(* ===== verification/Prelude.thy ===== *)
theory Prelude
  imports Main "HOL-Library.AList" "HOL-Library.Word" "HOL-Library.Sublist" "HOL-Library.Multiset"
begin

text \<open>
  Shared vocabulary of the development: the parts of the Go language and of its standard
  library that the repository uses (strings as byte lists, \<open>strings\<close>, \<open>strconv\<close>,
  \<open>bufio.Scanner\<close>, \<open>path\<close>, \<open>net\<close>, maps and their unspecified iteration order), and
  the outcome of a Go function call (a value, an \<open>error\<close>, or a panic).  The theorem
  collections declared here carry the component proofs.
\<close>

named_theorems go_defs \<open>definitions of Go library functions, unfolded to evaluate them\<close>
named_theorems kio_simps \<open>evaluation rules of effectful calls\<close>
named_theorems run_intro \<open>rules for the facts of composed effectful calls\<close>
named_theorems api_defs \<open>constants of the API package\<close>

section \<open>Outcomes of Go calls\<close>

text \<open>
  An \<open>error\<close> value is an API status (with its reason and message), a fresh error
  (\<open>errors.New\<close>, \<open>fmt.Errorf\<close>), or another error wrapped with a message
  (\<open>errors.Wrap\<close>).  A call returns a value, returns an error, or panics.
\<close>

datatype error =
    StatusError string string
  | NewError string
  | WrapError error string

datatype 'a outcome = Ok 'a | Err error | Panic string

fun bindO :: "'a outcome \<Rightarrow> ('a \<Rightarrow> 'b outcome) \<Rightarrow> 'b outcome" where
  "bindO (Ok x) f = f x"
| "bindO (Err e) f = Err e"
| "bindO (Panic m) f = Panic m"

lemma bindO_Ok_iff: "bindO m f = Ok y \<longleftrightarrow> (\<exists>x. m = Ok x \<and> f x = Ok y)"
  by (cases m) auto

lemma bindO_Err_iff: "bindO m f = Err e \<longleftrightarrow> m = Err e \<or> (\<exists>x. m = Ok x \<and> f x = Err e)"
  by (cases m) auto

lemma bindO_Panic_iff: "bindO m f = Panic e \<longleftrightarrow> m = Panic e \<or> (\<exists>x. m = Ok x \<and> f x = Panic e)"
  by (cases m) auto

lemmas bindO_iffs = bindO_Ok_iff bindO_Err_iff bindO_Panic_iff

definition of_sum :: "error + 'a \<Rightarrow> 'a outcome" where
  "of_sum r = (case r of Inl e \<Rightarrow> Err e | Inr x \<Rightarrow> Ok x)"

lemma of_sum_simps [simp]: "of_sum (Inl e) = Err e" "of_sum (Inr x) = Ok x"
  by (simp_all add: of_sum_def)

lemma of_sum_not_Panic [simp]: "of_sum r \<noteq> Panic m"
  by (cases r) auto

lemma of_sum_Ok_iff [simp]: "of_sum r = Ok x \<longleftrightarrow> r = Inr x"
  by (cases r) auto

section \<open>Maps with string keys\<close>

text \<open>
  A Go map is an association list with distinct keys; \<open>None\<close> is the nil map.  Reading a
  missing key gives the zero value.  The order in which \<open>range\<close> visits the keys is not
  specified by the language: it is a function on key lists, constrained only to return a
  permutation.
\<close>

type_synonym 'v gomap = "(string \<times> 'v) list"
type_synonym smap = "string gomap"

definition map_get :: "smap option \<Rightarrow> string \<Rightarrow> string" where
  "map_get m k = (case m of None \<Rightarrow> [] | Some al \<Rightarrow> (case map_of al k of None \<Rightarrow> [] | Some v \<Rightarrow> v))"

lemma map_get_simps [simp]:
  "map_get None k = []"
  "map_get (Some al) k = (case map_of al k of None \<Rightarrow> [] | Some v \<Rightarrow> v)"
  by (simp_all add: map_get_def)

definition map_wf :: "'v gomap option \<Rightarrow> bool" where
  "map_wf m = (case m of None \<Rightarrow> True | Some al \<Rightarrow> distinct (map fst al))"

lemma map_wf_simps [simp]: "map_wf None" "map_wf (Some al) \<longleftrightarrow> distinct (map fst al)"
  by (simp_all add: map_wf_def)

definition map_range :: "(string list \<Rightarrow> string list) \<Rightarrow> 'v gomap \<Rightarrow> 'v gomap" where
  "map_range ord m = List.map_filter (\<lambda>k. map_option (\<lambda>v. (k, v)) (map_of m k)) (ord (map fst m))"

definition range_order :: "(string list \<Rightarrow> string list) \<Rightarrow> bool" where
  "range_order ord \<longleftrightarrow> (\<forall>ks. mset (ord ks) = mset ks)"

lemma map_filter_keys:
  "distinct (map fst m) \<Longrightarrow>
   List.map_filter (\<lambda>k. map_option (\<lambda>v. (k, v)) (map_of m k)) (map fst m) = m"
proof (induction m)
  case Nil
  then show ?case by (simp add: List.map_filter_def)
next
  case (Cons kv m)
  obtain k v where kv: "kv = (k, v)" by (cases kv)
  have "List.map_filter (\<lambda>k'. map_option (Pair k') (map_of (kv # m) k')) (map fst m)
      = List.map_filter (\<lambda>k'. map_option (Pair k') (map_of m k')) (map fst m)"
    unfolding List.map_filter_def
    by (intro arg_cong2 [where f = map] filter_cong map_cong)
      (use Cons.prems kv in \<open>auto simp: image_iff\<close>)
  with Cons kv show ?case by (auto simp: List.map_filter_def)
qed

lemma mset_map_filter_cong:
  "mset xs = mset ys \<Longrightarrow> mset (List.map_filter f xs) = mset (List.map_filter f ys)"
  by (simp add: List.map_filter_def)

lemma mset_map_range:
  assumes "range_order ord" and "distinct (map fst m)"
  shows "mset (map_range ord m) = mset m"
proof -
  have "mset (ord (map fst m)) = mset (map fst m)"
    using assms(1) by (simp add: range_order_def)
  then have "mset (map_range ord m)
      = mset (List.map_filter (\<lambda>k. map_option (\<lambda>v. (k, v)) (map_of m k)) (map fst m))"
    unfolding map_range_def by (rule mset_map_filter_cong)
  also have "\<dots> = mset m" by (simp only: map_filter_keys [OF assms(2)])
  finally show ?thesis .
qed

lemma set_map_range:
  assumes "range_order ord" and "distinct (map fst m)"
  shows "set (map_range ord m) = set m"
  using mset_map_range [OF assms] by (metis mset_eq_setD)

lemma distinct_keys_map_range:
  assumes "range_order ord" and "distinct (map fst m)"
  shows "distinct (map fst (map_range ord m))"
proof -
  have "mset (map fst (map_range ord m)) = mset (map fst m)"
    using mset_map_range [OF assms] by simp
  then show ?thesis using assms(2) by (metis mset_eq_imp_distinct_iff)
qed

lemma distinct_keys_update [simp]:
  "distinct (map fst (AList.update k v al)) \<longleftrightarrow> distinct (map fst al)"
  by (simp add: update_keys)

end
