(* ===== verification/GoStrings.thy ===== *)
theory GoStrings
  imports Prelude
begin

text \<open>
  The functions of Go's \<open>strings\<close>, \<open>strconv\<close>, \<open>bufio\<close>, \<open>path\<close> and \<open>net\<close> packages
  that the repository calls, on strings as lists of bytes, and the facts about them that
  the components use: where the last occurrence of a marker is, when trimming is the
  identity, that decimal printing can be read back, and that splitting undoes joining.
\<close>

section \<open>Searching\<close>

text \<open>\<open>occurs_at sep s i\<close>: the bytes of \<open>sep\<close> stand in \<open>s\<close> at offset \<open>i\<close>.\<close>

definition occurs_at :: "string \<Rightarrow> string \<Rightarrow> nat \<Rightarrow> bool" where
  "occurs_at sep s i \<longleftrightarrow> take (length sep) (drop i s) = sep"

definition LastIndex :: "string \<Rightarrow> string \<Rightarrow> int" where
  "LastIndex s sep =
     (let is = filter (occurs_at sep s) [0..<Suc (length s)]
      in if is = [] then - 1 else int (last is))"

definition Contains :: "string \<Rightarrow> string \<Rightarrow> bool" where
  "Contains s sub \<longleftrightarrow> sublist sub s"

declare occurs_at_def [go_defs] LastIndex_def [go_defs]

lemma occurs_at_iff:
  "occurs_at sep s i \<and> i \<le> length s \<longleftrightarrow> (\<exists>p q. s = p @ sep @ q \<and> length p = i)"
proof
  assume A: "occurs_at sep s i \<and> i \<le> length s"
  then have "s = take i s @ sep @ drop (length sep) (drop i s)"
    unfolding occurs_at_def by (metis append_take_drop_id)
  moreover have "length (take i s) = i" using A by simp
  ultimately show "\<exists>p q. s = p @ sep @ q \<and> length p = i" by blast
next
  assume "\<exists>p q. s = p @ sep @ q \<and> length p = i"
  then show "occurs_at sep s i \<and> i \<le> length s" by (auto simp: occurs_at_def)
qed

lemma LastIndex_absent_iff: "LastIndex s sep = - 1 \<longleftrightarrow> \<not> sublist sep s"
proof -
  have "sublist sep s \<longleftrightarrow> (\<exists>i\<le>length s. occurs_at sep s i)"
    unfolding sublist_def using occurs_at_iff [of sep s] by metis
  then show ?thesis
    by (auto simp: LastIndex_def Let_def filter_empty_conv simp del: upt_Suc)
qed

lemma LastIndex_range: "- 1 \<le> LastIndex s sep"
  by (simp add: LastIndex_def Let_def)

lemma last_filter_upt_eq:
  assumes "P n" and "n < m" and "\<forall>i. n < i \<and> i < m \<longrightarrow> \<not> P i"
  shows "last (filter P [0..<m]) = n"
proof -
  have "[0..<m] = [0..<n] @ n # [Suc n..<m]"
    using assms(2) by (metis le_add2 less_imp_add_positive less_or_eq_imp_le upt_add_eq_append
        upt_conv_Cons add_0 le0 less_imp_le_nat)
  moreover have "filter P [Suc n..<m] = []"
    using assms(3) by (auto simp: filter_empty_conv)
  ultimately show ?thesis using assms(1) by simp
qed

lemma LastIndex_eqI:
  assumes "s = p @ sep @ q" and "\<forall>i. length p < i \<and> i \<le> length s \<longrightarrow> \<not> occurs_at sep s i"
  shows "LastIndex s sep = int (length p)"
proof -
  have at: "occurs_at sep s (length p)" and le: "length p < Suc (length s)"
    using assms(1) by (simp_all add: occurs_at_def)
  have "last (filter (occurs_at sep s) [0..<Suc (length s)]) = length p"
    using assms(2) by (intro last_filter_upt_eq at le) auto
  moreover have "filter (occurs_at sep s) [0..<Suc (length s)] \<noteq> []"
    using at le by (auto simp: filter_empty_conv simp del: upt_Suc)
  ultimately show ?thesis by (simp add: LastIndex_def Let_def del: upt_Suc)
qed

text \<open>
  A marker made of one repeated byte that does not occur after the marker: the marker is
  the last one.
\<close>

lemma LastIndex_marker:
  assumes "n > 0" and "c \<notin> set q"
  shows "LastIndex (p @ replicate n c @ q) (replicate n c) = int (length p)"
proof (rule LastIndex_eqI [OF refl], intro allI impI notI)
  let ?s = "p @ replicate n c @ q"
  fix i assume i: "length p < i \<and> i \<le> length ?s" and occ: "occurs_at (replicate n c) ?s i"
  define j where "j = i - length p"
  have j: "0 < j" "i = length p + j" using i by (auto simp: j_def)
  have "take n (drop j (replicate n c @ q)) = replicate n c"
    using occ j by (simp add: occurs_at_def)
  then have eq: "replicate (n - j) c @ take (n - (n - j)) (drop (j - n) q) = replicate n c"
    by simp
  have "length (replicate (n - j) c @ take (n - (n - j)) (drop (j - n) q)) = n"
    by (simp only: eq length_replicate)
  then have "take (n - (n - j)) (drop (j - n) q) \<noteq> []"
    using j(1) assms(1) by (auto simp: min_def split: if_splits)
  moreover have "set (take (n - (n - j)) (drop (j - n) q)) \<subseteq> {c}"
    using arg_cong [OF eq, of set] by auto
  moreover have "set (take (n - (n - j)) (drop (j - n) q)) \<subseteq> set q"
    by (meson order_trans set_drop_subset set_take_subset)
  ultimately show False using assms(2)
    by (metis (no_types) ex_in_conv set_empty singletonD subsetD)
qed

section \<open>Trimming\<close>

text \<open>
  \<open>strings.TrimSpace\<close> removes leading and trailing white space as \<open>unicode.IsSpace\<close>
  defines it: the byte sequences below are the UTF-8 encodings of those code points.
\<close>

definition white_space :: "string list" where
  "white_space =
     [[CHR 0x09], [CHR 0x0A], [CHR 0x0B], [CHR 0x0C], [CHR 0x0D], [CHR 0x20],
      [CHR 0xC2, CHR 0x85], [CHR 0xC2, CHR 0xA0], [CHR 0xE1, CHR 0x9A, CHR 0x80],
      [CHR 0xE2, CHR 0x80, CHR 0x80], [CHR 0xE2, CHR 0x80, CHR 0x81], [CHR 0xE2, CHR 0x80, CHR 0x82],
      [CHR 0xE2, CHR 0x80, CHR 0x83], [CHR 0xE2, CHR 0x80, CHR 0x84], [CHR 0xE2, CHR 0x80, CHR 0x85],
      [CHR 0xE2, CHR 0x80, CHR 0x86], [CHR 0xE2, CHR 0x80, CHR 0x87], [CHR 0xE2, CHR 0x80, CHR 0x88],
      [CHR 0xE2, CHR 0x80, CHR 0x89], [CHR 0xE2, CHR 0x80, CHR 0x8A], [CHR 0xE2, CHR 0x80, CHR 0xA8],
      [CHR 0xE2, CHR 0x80, CHR 0xA9], [CHR 0xE2, CHR 0x80, CHR 0xAF], [CHR 0xE2, CHR 0x81, CHR 0x9F],
      [CHR 0xE3, CHR 0x80, CHR 0x80]]"

function trim_front :: "string list \<Rightarrow> string \<Rightarrow> string" where
  "trim_front ps s =
     (case find (\<lambda>p. p \<noteq> [] \<and> prefix p s) ps of
        None \<Rightarrow> s
      | Some p \<Rightarrow> trim_front ps (drop (length p) s))"
  by pat_completeness auto
termination
proof (relation "measure (length \<circ> snd)")
  fix ps s p assume "find (\<lambda>p. p \<noteq> [] \<and> prefix p s) ps = Some p"
  then have "p \<noteq> []" "prefix p s" by (auto simp: find_Some_iff)
  then have "s \<noteq> []" "0 < length p" by auto
  then show "((ps, drop (length p) s), ps, s) \<in> measure (length \<circ> snd)" by simp
qed simp

declare trim_front.simps [simp del]

definition TrimSpace :: "string \<Rightarrow> string" where
  "TrimSpace s = rev (trim_front (map rev white_space) (rev (trim_front white_space s)))"

text \<open>A byte that is the first or the last byte of no white-space sequence.\<close>

definition solid :: "char \<Rightarrow> bool" where
  "solid c \<longleftrightarrow> (\<forall>p \<in> set white_space. hd p \<noteq> c \<and> last p \<noteq> c)"

lemma trim_front_id:
  assumes "\<forall>p \<in> set ps. p \<noteq> [] \<longrightarrow> \<not> prefix p s"
  shows "trim_front ps s = s"
proof -
  have "find (\<lambda>p. p \<noteq> [] \<and> prefix p s) ps = None"
    using assms by (auto simp: find_None_iff)
  then show ?thesis by (simp add: trim_front.simps)
qed

lemma trim_front_white:
  assumes "p \<in> set ps" and "p \<noteq> []" and "\<forall>q \<in> set ps. q \<noteq> [] \<and> prefix q (p @ s) \<longrightarrow> q = p"
  shows "trim_front ps (p @ s) = trim_front ps s"
proof -
  have "find (\<lambda>q. q \<noteq> [] \<and> prefix q (p @ s)) ps \<noteq> None"
    using assms by (auto simp: find_None_iff)
  then obtain q where q: "find (\<lambda>q. q \<noteq> [] \<and> prefix q (p @ s)) ps = Some q" by blast
  then have "q \<in> set ps" "q \<noteq> [] \<and> prefix q (p @ s)" by (auto simp: find_Some_iff)
  with assms(3) have "q = p" by blast
  with q show ?thesis by (simp add: trim_front.simps [of ps "p @ s"])
qed

lemma hd_neq_imp_not_prefix: "p \<noteq> [] \<Longrightarrow> s \<noteq> [] \<Longrightarrow> hd p \<noteq> hd s \<Longrightarrow> \<not> prefix p s"
  by (auto simp: prefix_def neq_Nil_conv)

lemma trim_front_solid: "s = [] \<or> solid (hd s) \<Longrightarrow> trim_front white_space s = s"
  by (rule trim_front_id) (metis hd_neq_imp_not_prefix prefix_Nil solid_def)

lemma trim_back_solid:
  "s = [] \<or> solid (last s) \<Longrightarrow> trim_front (map rev white_space) (rev s) = rev s"
proof (rule trim_front_id, intro ballI impI)
  fix p assume s: "s = [] \<or> solid (last s)" and p: "p \<in> set (map rev white_space)" "p \<noteq> []"
  then obtain w where w: "w \<in> set white_space" "p = rev w" by auto
  show "\<not> prefix p (rev s)"
  proof (cases "s = []")
    case False
    with s w have "last w \<noteq> last s" by (auto simp: solid_def)
    with w p False show ?thesis by (intro hd_neq_imp_not_prefix) (auto simp: hd_rev)
  qed (use p in simp)
qed

lemma TrimSpace_solid:
  "s = [] \<or> solid (hd s) \<and> solid (last s) \<Longrightarrow> TrimSpace s = s"
  using trim_front_solid [of s] trim_back_solid [of s] by (auto simp: TrimSpace_def)

lemma TrimSpace_Cons_newline: "TrimSpace (CHR 0x0A # s) = TrimSpace s"
proof -
  have "trim_front white_space ([CHR 0x0A] @ s) = trim_front white_space s"
    by (rule trim_front_white) (auto simp: white_space_def)
  then show ?thesis by (simp add: TrimSpace_def)
qed

section \<open>Joining and splitting\<close>

fun Join :: "string list \<Rightarrow> string \<Rightarrow> string" where
  "Join [] sep = []"
| "Join [s] sep = s"
| "Join (s # t # ss) sep = s @ sep @ Join (t # ss) sep"

text \<open>Splitting at one byte, as \<open>strings.Split\<close> with a one-byte separator does.\<close>

fun split_at :: "char \<Rightarrow> string \<Rightarrow> string list" where
  "split_at c [] = [[]]"
| "split_at c (x # xs) =
     (if x = c then [] # split_at c xs
      else (case split_at c xs of [] \<Rightarrow> [[x]] | y # ys \<Rightarrow> (x # y) # ys))"

lemma split_at_not_Nil [simp]: "split_at c s \<noteq> []"
  by (induction s) (auto split: list.splits)

lemma split_at_plain [simp]: "c \<notin> set s \<Longrightarrow> split_at c s = [s]"
  by (induction s) auto

lemma split_at_append: "c \<notin> set s \<Longrightarrow> split_at c (s @ c # t) = s # split_at c t"
  by (induction s) auto

lemma split_at_Join:
  "ss \<noteq> [] \<Longrightarrow> \<forall>s \<in> set ss. c \<notin> set s \<Longrightarrow> split_at c (Join ss [c]) = ss"
proof (induction ss)
  case (Cons s ss)
  then show ?case by (cases ss) (auto simp: split_at_append)
qed simp

lemma set_Join: "set (Join ss sep) \<subseteq> \<Union> (set ` set ss) \<union> set sep"
  by (induction ss sep rule: Join.induct) auto

section \<open>Decimal numbers\<close>

definition digit_char :: "nat \<Rightarrow> char" where
  "digit_char d = ''0123456789'' ! d"

fun nat_digits :: "nat \<Rightarrow> string" where
  "nat_digits n = (if n < 10 then [digit_char n] else nat_digits (n div 10) @ [digit_char (n mod 10)])"

declare nat_digits.simps [simp del]

text \<open>\<open>strconv.Itoa\<close> and \<open>strconv.FormatInt (\<dots>, 10)\<close>.\<close>

definition Itoa :: "int \<Rightarrow> string" where
  "Itoa i = (if i < 0 then CHR ''-'' # nat_digits (nat (- i)) else nat_digits (nat i))"

declare Itoa_def [go_defs] digit_char_def [go_defs]

definition digit_val :: "char \<Rightarrow> nat" where
  "digit_val c = of_char c - 48"

definition read_nat :: "string \<Rightarrow> nat" where
  "read_nat s = foldl (\<lambda>a c. a * 10 + digit_val c) 0 s"

lemma less_10_cases: "(d::nat) < 10 \<Longrightarrow> d = 0 \<or> d = 1 \<or> d = 2 \<or> d = 3 \<or> d = 4 \<or> d = 5 \<or> d = 6 \<or> d = 7 \<or> d = 8 \<or> d = 9"
  by arith

lemma digit_val_char [simp]: "d < 10 \<Longrightarrow> digit_val (digit_char d) = d"
  using less_10_cases [of d] by (auto simp: digit_val_def digit_char_def)

lemma digit_char_in: "d < 10 \<Longrightarrow> digit_char d \<in> set ''0123456789''"
  using nth_mem [of d "''0123456789''"] unfolding digit_char_def by simp

lemma read_nat_digits [simp]: "read_nat (nat_digits n) = n"
proof (induction n rule: nat_digits.induct)
  case (1 n)
  then show ?case
    by (cases "n < 10") (simp_all add: nat_digits.simps [of n] read_nat_def)
qed

lemma set_nat_digits: "set (nat_digits n) \<subseteq> set ''0123456789''"
proof (induction n rule: nat_digits.induct)
  case (1 n)
  show ?case
  proof (cases "n < 10")
    case True
    then show ?thesis using digit_char_in [of n] by (simp add: nat_digits.simps [of n])
  next
    case False
    then show ?thesis using 1 digit_char_in [of "n mod 10"]
      by (simp add: nat_digits.simps [of n])
  qed
qed

lemma nat_digits_not_Nil [simp]: "nat_digits n \<noteq> []"
  by (simp add: nat_digits.simps [of n])

lemma set_Itoa: "set (Itoa i) \<subseteq> set ''-0123456789''"
proof (cases "i < 0")
  case True
  then show ?thesis using set_nat_digits [of "nat (- i)"] by (simp add: Itoa_def subset_insertI2)
next
  case False
  then show ?thesis using set_nat_digits [of "nat i"] by (simp add: Itoa_def subset_insertI2)
qed

lemma nat_digits_inject [simp]: "nat_digits m = nat_digits n \<longleftrightarrow> m = n"
  by (metis read_nat_digits)

lemma minus_not_digits: "nat_digits n \<noteq> CHR ''-'' # s"
proof
  assume "nat_digits n = CHR ''-'' # s"
  then have "CHR ''-'' \<in> set (nat_digits n)" by simp
  then show False using set_nat_digits [of n] by auto
qed

lemma Itoa_inject [simp]: "Itoa i = Itoa j \<longleftrightarrow> i = j"
  by (auto simp: Itoa_def minus_not_digits minus_not_digits [symmetric])

section \<open>Line scanning\<close>

text \<open>
  \<open>bufio.Scanner\<close> with its default split function and buffer: a line is the text up to a
  newline or the end of the input, without a trailing carriage return.  A line that fills
  the buffer of \<open>MaxScanTokenSize\<close> bytes stops the scan (\<open>Scan\<close> returns false).
\<close>

definition MaxScanTokenSize :: nat where
  "MaxScanTokenSize = 64 * 1024"

definition dropCR :: "string \<Rightarrow> string" where
  "dropCR l = (if l \<noteq> [] \<and> last l = CHR 0x0D then butlast l else l)"

definition first_line :: "string \<Rightarrow> string" where
  "first_line s = takeWhile (\<lambda>c. c \<noteq> CHR 0x0A) s"

definition after_line :: "string \<Rightarrow> string" where
  "after_line s = tl (dropWhile (\<lambda>c. c \<noteq> CHR 0x0A) s)"

lemma length_after_line: "s \<noteq> [] \<Longrightarrow> length (after_line s) < length s"
proof -
  assume "s \<noteq> []"
  then have "0 < length s" by simp
  moreover have "length (dropWhile (\<lambda>c. c \<noteq> CHR 0x0A) s) \<le> length s"
    by (rule length_dropWhile_le)
  ultimately show ?thesis unfolding after_line_def length_tl by linarith
qed

function scan_lines :: "nat \<Rightarrow> string \<Rightarrow> string list" where
  "scan_lines mx s =
     (if s = [] then []
      else if mx \<le> length (first_line s) then []
      else dropCR (first_line s) # scan_lines mx (after_line s))"
  by pat_completeness auto
termination
  by (relation "measure (length \<circ> snd)") (auto simp: length_after_line)

declare scan_lines.simps [simp del]

lemma scan_lines_Nil [simp]: "scan_lines mx [] = []"
  by (simp add: scan_lines.simps)

lemma first_line_append:
  "CHR 0x0A \<notin> set l \<Longrightarrow> first_line (l @ CHR 0x0A # s) = l \<and> after_line (l @ CHR 0x0A # s) = s"
  by (induction l) (auto simp: first_line_def after_line_def)

lemma first_line_last:
  "CHR 0x0A \<notin> set l \<Longrightarrow> first_line l = l \<and> after_line l = []"
  by (induction l) (auto simp: first_line_def after_line_def)

lemma scan_lines_line:
  "CHR 0x0A \<notin> set l \<Longrightarrow> length l < mx \<Longrightarrow>
   scan_lines mx (l @ CHR 0x0A # s) = dropCR l # scan_lines mx s"
  using first_line_append [of l s] by (simp add: scan_lines.simps [of mx "l @ CHR 0x0A # s"])

lemma scan_lines_too_long:
  "CHR 0x0A \<notin> set l \<Longrightarrow> mx \<le> length l \<Longrightarrow> scan_lines mx (l @ CHR 0x0A # s) = []"
  using first_line_append [of l s] by (simp add: scan_lines.simps [of mx "l @ CHR 0x0A # s"])

text \<open>Newline-terminated lines come back one by one.\<close>

lemma scan_lines_unlines:
  assumes "\<forall>l \<in> set ls. CHR 0x0A \<notin> set l \<and> length l < mx \<and> dropCR l = l"
  shows "scan_lines mx (concat (map (\<lambda>l. l @ [CHR 0x0A]) ls)) = ls"
  using assms by (induction ls) (simp_all add: scan_lines_line)

section \<open>Paths and host names\<close>

fun clean_segments :: "bool \<Rightarrow> string list \<Rightarrow> string list \<Rightarrow> string list" where
  "clean_segments rooted acc [] = rev acc"
| "clean_segments rooted acc (x # xs) =
     (if x = [] \<or> x = ''.'' then clean_segments rooted acc xs
      else if x = ''..'' then
        (if acc \<noteq> [] \<and> hd acc \<noteq> ''..'' then clean_segments rooted (tl acc) xs
         else if rooted then clean_segments rooted acc xs
         else clean_segments rooted (x # acc) xs)
      else clean_segments rooted (x # acc) xs)"

definition path_Clean :: "string \<Rightarrow> string" where
  "path_Clean p =
     (if p = [] then ''.''
      else
        (let rooted = (hd p = CHR ''/'');
             r = Join (clean_segments rooted [] (split_at (CHR ''/'') p)) ''/''
         in if rooted then CHR ''/'' # r else if r = [] then ''.'' else r))"

definition path_Join :: "string list \<Rightarrow> string" where
  "path_Join elems =
     (let es = dropWhile (\<lambda>e. e = []) elems
      in if es = [] then [] else path_Clean (Join es ''/''))"

definition JoinHostPort :: "string \<Rightarrow> string \<Rightarrow> string" where
  "JoinHostPort host port =
     (if CHR '':'' \<in> set host then ''['' @ host @ '']:'' @ port else host @ '':'' @ port)"

declare path_Clean_def [go_defs] path_Join_def [go_defs] JoinHostPort_def [go_defs]

lemma JoinHostPort_inject [simp]: "JoinHostPort h p = JoinHostPort h q \<longleftrightarrow> p = q"
  by (auto simp: JoinHostPort_def)

end
