(* ===== verification/Api.thy ===== *)
theory Api
  imports GoStrings
begin

text \<open>
  The data model: the API package \<open>api/v1alpha1\<close> (constants, group and version, the
  \<open>DatamoverSession\<close> resource) and the fields of the Kubernetes objects that the code
  reads or writes.  Fields the code only passes on unchanged, without looking inside, have
  the type \<open>opaque\<close>.  A Go pointer is an \<open>option\<close>, a slice a list, a map a \<open>gomap\<close>
  (\<open>option\<close> where the code distinguishes nil), an \<open>int32\<close> a 32-bit word.
\<close>

section \<open>Constants\<close>

definition ProtocolsEnvVarName :: string where
  "ProtocolsEnvVarName = ''PROTOCOLS''"

definition ImplementationEnvVarName :: string where
  "ImplementationEnvVarName = ''DATAMOVER_NAME''"

definition DefaultContainerName :: string where
  "DefaultContainerName = ''main''"

definition DatamoverSessionSelectorLabel :: string where
  "DatamoverSessionSelectorLabel = ''datamover/service_label''"

definition DatamoverSessionLabel :: string where
  "DatamoverSessionLabel = ''datamover/session''"

definition DatamoverSessionKind :: string where
  "DatamoverSessionKind = ''DatamoverSession''"

record GroupVersion =
  gvGroup :: string
  gvVersion :: string

definition api_GroupVersion :: GroupVersion where
  "api_GroupVersion = \<lparr>gvGroup = ''dm.cr.kanister.io'', gvVersion = ''v1alpha1''\<rparr>"

text \<open>\<open>GroupVersion.String\<close>: group and version separated by a slash.\<close>

definition GroupVersion_String :: "GroupVersion \<Rightarrow> string" where
  "GroupVersion_String gv =
     (if gvGroup gv = [] then gvVersion gv else gvGroup gv @ ''/'' @ gvVersion gv)"

section \<open>Kubernetes objects\<close>

datatype opaque = Opaque string

abbreviation zero_opaque :: opaque where
  "zero_opaque \<equiv> Opaque []"

type_synonym int32 = "32 word"

datatype IntOrString = FromInt32 int32 | FromString string

record OwnerReference =
  orAPIVersion :: string
  orKind :: string
  orName :: string
  orUID :: string
  orController :: "bool option"

record ObjectMeta =
  omName :: string
  omGenerateName :: string
  omNamespace :: string
  omUID :: string
  omResourceVersion :: string
  omLabels :: "smap option"
  omAnnotations :: "smap option"
  omOwnerReferences :: "OwnerReference list"

definition zero_meta :: ObjectMeta where
  "zero_meta = \<lparr>omName = [], omGenerateName = [], omNamespace = [], omUID = [],
     omResourceVersion = [], omLabels = None, omAnnotations = None, omOwnerReferences = []\<rparr>"

record ConfigMapVolumeSource =
  cmvName :: string
  cmvRest :: opaque

record SecretVolumeSource =
  svSecretName :: string
  svRest :: opaque

record ServiceAccountTokenProjection =
  satpPath :: string
  satpExpirationSeconds :: "int option"
  satpAudience :: string

datatype VolumeSource =
    ConfigMapSource ConfigMapVolumeSource
  | SecretSource SecretVolumeSource
  | EmptyDirSource string
  | ProjectedSource "ServiceAccountTokenProjection list"
  | PersistentVolumeClaimSource string bool
  | OtherSource opaque

record Volume =
  volName :: string
  volSource :: VolumeSource

record VolumeMount =
  vmName :: string
  vmMountPath :: string
  vmRest :: opaque

record EnvVar =
  evName :: string
  evValue :: string
  evRest :: opaque

record Probe =
  prTimeoutSeconds :: int32
  prPeriodSeconds :: int32
  prExec :: "string list option"
  prRest :: opaque

record Container =
  ctName :: string
  ctImage :: string
  ctCommand :: "string list"
  ctArgs :: "string list"
  ctEnv :: "EnvVar list"
  ctVolumeMounts :: "VolumeMount list"
  ctVolumeDevices :: "opaque list"
  ctResources :: opaque
  ctReadinessProbe :: "Probe option"
  ctStartupProbe :: "Probe option"
  ctLivenessProbe :: "Probe option"
  ctSecurityContext :: "opaque option"
  ctImagePullPolicy :: string
  ctRestartPolicy :: "string option"
  ctRest :: opaque

definition zero_container :: Container where
  "zero_container = \<lparr>ctName = [], ctImage = [], ctCommand = [], ctArgs = [], ctEnv = [],
     ctVolumeMounts = [], ctVolumeDevices = [], ctResources = zero_opaque,
     ctReadinessProbe = None, ctStartupProbe = None, ctLivenessProbe = None,
     ctSecurityContext = None, ctImagePullPolicy = [], ctRestartPolicy = None,
     ctRest = zero_opaque\<rparr>"

record PodSpec =
  psVolumes :: "Volume list"
  psInitContainers :: "Container list"
  psContainers :: "Container list"
  psRestartPolicy :: string
  psServiceAccountName :: string
  psAutomountServiceAccountToken :: "bool option"
  psPriorityClassName :: string
  psSecurityContext :: "opaque option"
  psShareProcessNamespace :: "bool option"
  psRest :: opaque

record ContainerStateDetail =
  csdReason :: string
  csdMessage :: string

record ContainerState =
  csWaiting :: "ContainerStateDetail option"
  csTerminated :: "ContainerStateDetail option"

record ContainerStatus =
  cstName :: string
  cstReady :: bool
  cstStarted :: "bool option"
  cstState :: ContainerState

record PodStatus =
  pstPhase :: string
  pstContainerStatuses :: "ContainerStatus list"
  pstInitContainerStatuses :: "ContainerStatus list"

definition PodPending :: string where "PodPending = ''Pending''"
definition PodRunning :: string where "PodRunning = ''Running''"
definition PodSucceeded :: string where "PodSucceeded = ''Succeeded''"
definition PodFailed :: string where "PodFailed = ''Failed''"
definition RestartPolicyNever :: string where "RestartPolicyNever = ''Never''"
definition ContainerRestartPolicyAlways :: string where "ContainerRestartPolicyAlways = ''Always''"
definition StorageMediumMemory :: string where "StorageMediumMemory = ''Memory''"

record Pod =
  podMeta :: ObjectMeta
  podSpec :: PodSpec
  podStatus :: PodStatus

definition zero_pod_status :: PodStatus where
  "zero_pod_status = \<lparr>pstPhase = [], pstContainerStatuses = [], pstInitContainerStatuses = []\<rparr>"

record ServicePort =
  spName :: string
  spProtocol :: string
  spPort :: int32
  spTargetPort :: IntOrString
  spRest :: opaque

record Service =
  svcMeta :: ObjectMeta
  svcPorts :: "ServicePort list"
  svcSelector :: "smap option"
  svcClusterIP :: string

record NetworkPolicyPort =
  nppProtocol :: "string option"
  nppPort :: "IntOrString option"

record NetworkPolicyIngressRule =
  npiFrom :: "opaque list"
  npiPorts :: "NetworkPolicyPort list"

record NetworkPolicy =
  npMeta :: ObjectMeta
  npPodSelector :: "smap option"
  npIngress :: "NetworkPolicyIngressRule list"

section \<open>The DatamoverSession resource\<close>

record NetworkPolicyConfig =
  npcEnabled :: bool
  npcFrom :: "opaque list"

record PodOptions =
  poResources :: opaque
  poExtraVolumes :: "Volume list"
  poLabels :: "smap option"
  poAnnotations :: "smap option"
  poExtraContainers :: "Container list"
  poPriorityClassName :: string
  poPodSecurityContext :: "opaque option"
  poContainerSecurityContext :: "opaque option"
  poShareProcessNamespace :: "bool option"
  poServiceAccount :: string
  poImagePullPolicy :: string
  poPodOverride :: "opaque option"

record LifecycleConfig =
  lcImage :: string
  lcServicePorts :: "ServicePort list"
  lcNetworkPolicy :: NetworkPolicyConfig
  lcPodOptions :: PodOptions
  lcStartupProbe :: "Probe option"
  lcLivenessProbe :: "Probe option"

record DatamoverSessionSpec =
  dssImplementation :: string
  dssConfiguration :: "ConfigMapVolumeSource option"
  dssConfigurationSecrets :: "SecretVolumeSource gomap option"
  dssClientSecretRef :: "SecretVolumeSource option"
  dssEnv :: "smap option"
  dssLifecycleConfig :: "LifecycleConfig option"

record SessionInfo =
  siPodName :: string
  siServiceName :: string
  siSessionData :: string
  siPodErrors :: string

type_synonym DatamoverSessionProgress = string

definition ProgressNone :: DatamoverSessionProgress where
  "ProgressNone = ''''"

definition ProgressValidationFailed :: DatamoverSessionProgress where
  "ProgressValidationFailed = ''ValidationFailed''"

definition ProgressResourcesCreated :: DatamoverSessionProgress where
  "ProgressResourcesCreated = ''ResourcesCreated''"

definition ProgressReadinessFailure :: DatamoverSessionProgress where
  "ProgressReadinessFailure = ''ReadinessFailure''"

definition ProgressReady :: DatamoverSessionProgress where
  "ProgressReady = ''Ready''"

definition ProgressSessionFailure :: DatamoverSessionProgress where
  "ProgressSessionFailure = ''SessionFailure''"

record DatamoverSessionStatus =
  stSessionInfo :: SessionInfo
  stProgress :: DatamoverSessionProgress

record DatamoverSession =
  dsKind :: string
  dsAPIVersion :: string
  dsMeta :: ObjectMeta
  dsSpec :: DatamoverSessionSpec
  dsStatus :: DatamoverSessionStatus

lemmas progress_defs =
  ProgressNone_def ProgressValidationFailed_def ProgressResourcesCreated_def
  ProgressReadinessFailure_def ProgressReady_def ProgressSessionFailure_def

lemma progress_distinct [simp]:
  "ProgressNone \<noteq> ProgressValidationFailed" "ProgressNone \<noteq> ProgressResourcesCreated"
  "ProgressNone \<noteq> ProgressReadinessFailure" "ProgressNone \<noteq> ProgressReady"
  "ProgressNone \<noteq> ProgressSessionFailure"
  "ProgressValidationFailed \<noteq> ProgressNone" "ProgressValidationFailed \<noteq> ProgressResourcesCreated"
  "ProgressValidationFailed \<noteq> ProgressReadinessFailure" "ProgressValidationFailed \<noteq> ProgressReady"
  "ProgressValidationFailed \<noteq> ProgressSessionFailure"
  "ProgressResourcesCreated \<noteq> ProgressNone" "ProgressResourcesCreated \<noteq> ProgressValidationFailed"
  "ProgressResourcesCreated \<noteq> ProgressReadinessFailure" "ProgressResourcesCreated \<noteq> ProgressReady"
  "ProgressResourcesCreated \<noteq> ProgressSessionFailure"
  "ProgressReadinessFailure \<noteq> ProgressNone" "ProgressReadinessFailure \<noteq> ProgressValidationFailed"
  "ProgressReadinessFailure \<noteq> ProgressResourcesCreated" "ProgressReadinessFailure \<noteq> ProgressReady"
  "ProgressReadinessFailure \<noteq> ProgressSessionFailure"
  "ProgressReady \<noteq> ProgressNone" "ProgressReady \<noteq> ProgressValidationFailed"
  "ProgressReady \<noteq> ProgressResourcesCreated" "ProgressReady \<noteq> ProgressReadinessFailure"
  "ProgressReady \<noteq> ProgressSessionFailure"
  "ProgressSessionFailure \<noteq> ProgressNone" "ProgressSessionFailure \<noteq> ProgressValidationFailed"
  "ProgressSessionFailure \<noteq> ProgressResourcesCreated" "ProgressSessionFailure \<noteq> ProgressReadinessFailure"
  "ProgressSessionFailure \<noteq> ProgressReady"
  by (simp_all add: progress_defs)

lemma phase_distinct [simp]:
  "PodRunning \<noteq> PodFailed" "PodFailed \<noteq> PodRunning" "PodPending \<noteq> PodFailed" "PodFailed \<noteq> PodPending"
  "PodRunning \<noteq> PodPending" "PodPending \<noteq> PodRunning" "PodSucceeded \<noteq> PodFailed"
  "PodSucceeded \<noteq> PodRunning" "PodSucceeded \<noteq> PodPending" "PodFailed \<noteq> PodSucceeded"
  "PodRunning \<noteq> PodSucceeded" "PodPending \<noteq> PodSucceeded"
  by (simp_all add: PodRunning_def PodFailed_def PodPending_def PodSucceeded_def)

lemma labels_distinct [simp]:
  "DatamoverSessionSelectorLabel \<noteq> DatamoverSessionLabel"
  "DatamoverSessionLabel \<noteq> DatamoverSessionSelectorLabel"
  by (simp_all add: DatamoverSessionSelectorLabel_def DatamoverSessionLabel_def)

lemma env_names_distinct [simp]:
  "ProtocolsEnvVarName \<noteq> ImplementationEnvVarName"
  "ImplementationEnvVarName \<noteq> ProtocolsEnvVarName"
  by (simp_all add: ProtocolsEnvVarName_def ImplementationEnvVarName_def)

declare ProtocolsEnvVarName_def [api_defs] ImplementationEnvVarName_def [api_defs]
  DefaultContainerName_def [api_defs] DatamoverSessionSelectorLabel_def [api_defs]
  DatamoverSessionLabel_def [api_defs] DatamoverSessionKind_def [api_defs]
  api_GroupVersion_def [api_defs] progress_defs [api_defs]
  PodPending_def [api_defs] PodRunning_def [api_defs] PodSucceeded_def [api_defs]
  PodFailed_def [api_defs]

text \<open>Selectors for the parts of a session that the code uses most.\<close>

abbreviation dsName :: "DatamoverSession \<Rightarrow> string" where
  "dsName s \<equiv> omName (dsMeta s)"

abbreviation dsNamespace :: "DatamoverSession \<Rightarrow> string" where
  "dsNamespace s \<equiv> omNamespace (dsMeta s)"

abbreviation dsProgress :: "DatamoverSession \<Rightarrow> DatamoverSessionProgress" where
  "dsProgress s \<equiv> stProgress (dsStatus s)"

end
