(* ===== verification/Kube.thy ===== *)
theory Kube
  imports Api
begin

text \<open>
  What lies outside the repository, as parameters of the model.  \<open>lib\<close> collects the pure
  third-party functions the code calls (and the iteration order of Go maps); \<open>kube\<close>
  extends it with the calls to the Kubernetes API, each a function of the cluster state that
  may fail and may change that state in any way.  A run of the model threads a \<open>world\<close>: the
  cluster and the log of mutating requests issued so far.  The last part is a small Hoare
  logic for such runs; the documented laws of the parameters are predicates, assumed where a
  theorem needs them.
\<close>

section \<open>Third-party functions\<close>

text \<open>A JSON document, known by what it encodes.\<close>

datatype json =
    JSONOfPodSpec PodSpec
  | JSONOfOverride "opaque option"
  | JSONText string

record lib =
  lib_range :: "string list \<Rightarrow> string list"
  lib_IntValue :: "IntOrString \<Rightarrow> int"
  lib_GetControllerOf :: "ObjectMeta \<Rightarrow> OwnerReference option"
  lib_ParseGroupVersion :: "string \<Rightarrow> error + GroupVersion"
  lib_SetControllerReference :: "DatamoverSession \<Rightarrow> ObjectMeta \<Rightarrow> error + ObjectMeta"
  lib_IsNotFound :: "error \<Rightarrow> bool"
  lib_IsAlreadyExists :: "error \<Rightarrow> bool"
  lib_MarshalPodSpec :: "PodSpec \<Rightarrow> error + json"
  lib_MarshalOverride :: "opaque option \<Rightarrow> error + json"
  lib_StrategicMergePatch :: "json \<Rightarrow> json \<Rightarrow> error + json"
  lib_UnmarshalPodSpec :: "json \<Rightarrow> error + PodSpec"

text \<open>
  Documented laws of these functions.  \<open>SetControllerReference\<close> adds a controller owner
  reference that names the owner's kind, API version, name and UID and changes nothing else;
  \<open>GetControllerOf\<close> reads the owner references only; \<open>ParseGroupVersion\<close> undoes
  \<open>GroupVersion.String\<close>; the status predicates look through wrapped errors.
\<close>

definition owner_law :: "'z lib_scheme \<Rightarrow> bool" where
  "owner_law L \<longleftrightarrow>
     lib_ParseGroupVersion L (GroupVersion_String api_GroupVersion) = Inr api_GroupVersion \<and>
     (\<forall>m m'. omOwnerReferences m = omOwnerReferences m' \<longrightarrow> lib_GetControllerOf L m = lib_GetControllerOf L m') \<and>
     (\<forall>s m m'. lib_SetControllerReference L s m = Inr m' \<longrightarrow>
        m' = m\<lparr>omOwnerReferences := omOwnerReferences m'\<rparr> \<and>
        (\<exists>c. lib_GetControllerOf L m' = Some c \<and>
           orAPIVersion c = GroupVersion_String api_GroupVersion \<and> orKind c = DatamoverSessionKind \<and>
           orName c = dsName s \<and> orUID c = omUID (dsMeta s)))"

definition status_law :: "'z lib_scheme \<Rightarrow> bool" where
  "status_law L \<longleftrightarrow>
     (\<forall>e m. lib_IsNotFound L (WrapError e m) = lib_IsNotFound L e) \<and>
     (\<forall>e m. lib_IsAlreadyExists L (WrapError e m) = lib_IsAlreadyExists L e) \<and>
     (\<forall>m. \<not> lib_IsNotFound L (NewError m)) \<and> (\<forall>m. \<not> lib_IsAlreadyExists L (NewError m))"

section \<open>The Kubernetes API\<close>

text \<open>A log stream: the bytes it delivers before its end, and whether reading then fails.\<close>

record LogStream =
  lsData :: string
  lsFails :: bool

record 'w kube = lib +
  k_GetSession :: "string \<Rightarrow> string \<Rightarrow> 'w \<Rightarrow> (error + DatamoverSession) \<times> 'w"
  k_ListPods :: "string \<Rightarrow> string \<Rightarrow> string \<Rightarrow> 'w \<Rightarrow> (error + Pod list) \<times> 'w"
  k_GetPod :: "string \<Rightarrow> string \<Rightarrow> 'w \<Rightarrow> (error + Pod) \<times> 'w"
  k_GetService :: "string \<Rightarrow> string \<Rightarrow> 'w \<Rightarrow> (error + Service) \<times> 'w"
  k_GetNetworkPolicy :: "string \<Rightarrow> string \<Rightarrow> 'w \<Rightarrow> (error + NetworkPolicy) \<times> 'w"
  k_CreatePod :: "Pod \<Rightarrow> 'w \<Rightarrow> (error + unit) \<times> 'w"
  k_CreateService :: "Service \<Rightarrow> 'w \<Rightarrow> (error + unit) \<times> 'w"
  k_CreateNetworkPolicy :: "NetworkPolicy \<Rightarrow> 'w \<Rightarrow> (error + unit) \<times> 'w"
  k_DeletePod :: "Pod \<Rightarrow> 'w \<Rightarrow> (error + unit) \<times> 'w"
  k_DeleteService :: "Service \<Rightarrow> 'w \<Rightarrow> (error + unit) \<times> 'w"
  k_StatusUpdate :: "DatamoverSession \<Rightarrow> 'w \<Rightarrow> (error + unit) \<times> 'w"
  k_NewForConfig :: "error + unit"
  k_StreamLogs :: "string \<Rightarrow> string \<Rightarrow> string \<Rightarrow> 'w \<Rightarrow> (error + LogStream) \<times> 'w"

datatype request =
    CreatePodReq Pod
  | CreateServiceReq Service
  | CreateNetworkPolicyReq NetworkPolicy
  | DeletePodReq Pod
  | DeleteServiceReq Service
  | StatusUpdateReq DatamoverSession

record 'w world =
  cluster :: 'w
  requests :: "request list"

type_synonym ('w, 'a) kio = "'w world \<Rightarrow> 'a outcome \<times> 'w world"

definition returnK :: "'a \<Rightarrow> ('w, 'a) kio" where
  "returnK x = (\<lambda>w. (Ok x, w))"

definition errorK :: "error \<Rightarrow> ('w, 'a) kio" where
  "errorK e = (\<lambda>w. (Err e, w))"

definition panicK :: "string \<Rightarrow> ('w, 'a) kio" where
  "panicK m = (\<lambda>w. (Panic m, w))"

definition liftK :: "'a outcome \<Rightarrow> ('w, 'a) kio" where
  "liftK r = (\<lambda>w. (r, w))"

definition bindK :: "('w, 'a) kio \<Rightarrow> ('a \<Rightarrow> ('w, 'b) kio) \<Rightarrow> ('w, 'b) kio" where
  "bindK m f = (\<lambda>w. case m w of
      (Ok x, w') \<Rightarrow> f x w'
    | (Err e, w') \<Rightarrow> (Err e, w')
    | (Panic s, w') \<Rightarrow> (Panic s, w'))"

text \<open>Run a call and go on with its error, where the code inspects the error.\<close>

definition handleK :: "('w, 'a) kio \<Rightarrow> (error \<Rightarrow> ('w, 'b) kio) \<Rightarrow> ('a \<Rightarrow> ('w, 'b) kio) \<Rightarrow> ('w, 'b) kio" where
  "handleK m h f = (\<lambda>w. case m w of
      (Ok x, w') \<Rightarrow> f x w'
    | (Err e, w') \<Rightarrow> h e w'
    | (Panic s, w') \<Rightarrow> (Panic s, w'))"

definition readK :: "('w \<Rightarrow> (error + 'a) \<times> 'w) \<Rightarrow> ('w, 'a) kio" where
  "readK f = (\<lambda>w. case f (cluster w) of (r, c) \<Rightarrow> (of_sum r, w\<lparr>cluster := c\<rparr>))"

definition writeK :: "request \<Rightarrow> ('w \<Rightarrow> (error + 'a) \<times> 'w) \<Rightarrow> ('w, 'a) kio" where
  "writeK q f = (\<lambda>w. case f (cluster w) of
      (r, c) \<Rightarrow> (of_sum r, w\<lparr>cluster := c, requests := requests w @ [q]\<rparr>))"

lemmas kio_defs = returnK_def errorK_def panicK_def liftK_def bindK_def handleK_def readK_def writeK_def

lemma kio_apply [kio_simps]:
  "returnK x w = (Ok x, w)" "errorK e w = (Err e, w)" "panicK m w = (Panic m, w)"
  "liftK r w = (r, w)"
  "bindK (returnK x) f w = f x w" "bindK (errorK e) f w = (Err e, w)"
  "bindK (panicK m) f w = (Panic m, w)"
  "bindK (liftK (Ok x)) f w = f x w" "bindK (liftK (Err e)) f w = (Err e, w)"
  "bindK (liftK (Panic m)) f w = (Panic m, w)"
  by (simp_all add: kio_defs)

lemma bindK_Ok [kio_simps]: "m w = (Ok x, w') \<Longrightarrow> bindK m f w = f x w'"
  by (simp add: bindK_def)

lemma bindK_Err [kio_simps]: "m w = (Err e, w') \<Longrightarrow> bindK m f w = (Err e, w')"
  by (simp add: bindK_def)

lemma bindK_Panic [kio_simps]: "m w = (Panic s, w') \<Longrightarrow> bindK m f w = (Panic s, w')"
  by (simp add: bindK_def)

lemma handleK_Ok [kio_simps]: "m w = (Ok x, w') \<Longrightarrow> handleK m h f w = f x w'"
  by (simp add: handleK_def)

lemma handleK_Err [kio_simps]: "m w = (Err e, w') \<Longrightarrow> handleK m h f w = h e w'"
  by (simp add: handleK_def)

lemma bindK_cases:
  obtains (Ok) x w' where "m w = (Ok x, w')" "bindK m f w = f x w'"
  | (Err) e w' where "m w = (Err e, w')" "bindK m f w = (Err e, w')"
  | (Panic) s w' where "m w = (Panic s, w')" "bindK m f w = (Panic s, w')"
  by (cases "m w"; cases "fst (m w)") (auto simp: bindK_def)

section \<open>Reasoning about runs\<close>

text \<open>
  Four facts about a call, each with one rule per way to build a call, so that the facts of a
  composed operation follow from those of its parts:
  \<open>silent m\<close> (it issues no mutating request), \<open>keeps I m\<close> (it keeps the predicate \<open>I\<close> of
  the cluster), \<open>returns m Q\<close> (every value it returns satisfies \<open>Q\<close>) and \<open>safe m\<close> (it
  never panics).
\<close>

definition silent :: "('w, 'a) kio \<Rightarrow> bool" where
  "silent m \<longleftrightarrow> (\<forall>w r w'. m w = (r, w') \<longrightarrow> requests w' = requests w)"

definition keeps :: "('w \<Rightarrow> bool) \<Rightarrow> ('w, 'a) kio \<Rightarrow> bool" where
  "keeps I m \<longleftrightarrow> (\<forall>w r w'. m w = (r, w') \<longrightarrow> I (cluster w) \<longrightarrow> I (cluster w'))"

definition returns :: "('w, 'a) kio \<Rightarrow> ('a \<Rightarrow> bool) \<Rightarrow> bool" where
  "returns m Q \<longleftrightarrow> (\<forall>w x w'. m w = (Ok x, w') \<longrightarrow> Q x)"

definition safe :: "('w, 'a) kio \<Rightarrow> bool" where
  "safe m \<longleftrightarrow> (\<forall>w s w'. m w \<noteq> (Panic s, w'))"

definition op_keeps :: "('w \<Rightarrow> bool) \<Rightarrow> ('w \<Rightarrow> 'a \<times> 'w) \<Rightarrow> bool" where
  "op_keeps I f \<longleftrightarrow> (\<forall>c r c'. f c = (r, c') \<longrightarrow> I c \<longrightarrow> I c')"

lemma silentD: "silent m \<Longrightarrow> m w = (r, w') \<Longrightarrow> requests w' = requests w"
  by (auto simp: silent_def)

lemma keepsD: "keeps I m \<Longrightarrow> m w = (r, w') \<Longrightarrow> I (cluster w) \<Longrightarrow> I (cluster w')"
  by (auto simp: keeps_def)

lemma returnsD: "returns m Q \<Longrightarrow> m w = (Ok x, w') \<Longrightarrow> Q x"
  by (auto simp: returns_def)

lemma safeD: "safe m \<Longrightarrow> m w = (Panic s, w') \<Longrightarrow> False"
  by (auto simp: safe_def)

lemma silent_basic [run_intro]:
  "silent (returnK x)" "silent (errorK e)" "silent (panicK s)" "silent (liftK r)" "silent (readK f)"
  by (auto simp: silent_def kio_defs split: prod.splits)

lemma silent_bind [run_intro]: "silent m \<Longrightarrow> (\<And>x. silent (f x)) \<Longrightarrow> silent (bindK m f)"
  by (fastforce simp: silent_def bindK_def split: prod.splits outcome.splits)

lemma silent_handle [run_intro]:
  "silent m \<Longrightarrow> (\<And>e. silent (h e)) \<Longrightarrow> (\<And>x. silent (f x)) \<Longrightarrow> silent (handleK m h f)"
  by (fastforce simp: silent_def handleK_def split: prod.splits outcome.splits)

lemma keeps_basic [run_intro]:
  "keeps I (returnK x)" "keeps I (errorK e)" "keeps I (panicK s)" "keeps I (liftK r)"
  "op_keeps I f \<Longrightarrow> keeps I (readK f)" "op_keeps I f \<Longrightarrow> keeps I (writeK q f)"
  by (auto simp: keeps_def op_keeps_def kio_defs split: prod.splits)

lemma keeps_bind [run_intro]: "keeps I m \<Longrightarrow> (\<And>x. keeps I (f x)) \<Longrightarrow> keeps I (bindK m f)"
  by (fastforce simp: keeps_def bindK_def split: prod.splits outcome.splits)

lemma keeps_handle [run_intro]:
  "keeps I m \<Longrightarrow> (\<And>e. keeps I (h e)) \<Longrightarrow> (\<And>x. keeps I (f x)) \<Longrightarrow> keeps I (handleK m h f)"
  by (fastforce simp: keeps_def handleK_def split: prod.splits outcome.splits)

lemma returns_basic:
  "Q x \<Longrightarrow> returns (returnK x) Q" "returns (errorK e) Q" "returns (panicK s) Q"
  "(\<And>x. r = Ok x \<Longrightarrow> Q x) \<Longrightarrow> returns (liftK r) Q"
  "(\<And>c x c'. f c = (Inr x, c') \<Longrightarrow> Q x) \<Longrightarrow> returns (readK f) Q"
  "(\<And>c x c'. f c = (Inr x, c') \<Longrightarrow> Q x) \<Longrightarrow> returns (writeK q f) Q"
  by (auto simp: returns_def kio_defs split: prod.splits)

lemma returns_bind:
  "returns m A \<Longrightarrow> (\<And>x. A x \<Longrightarrow> returns (f x) Q) \<Longrightarrow> returns (bindK m f) Q"
  by (fastforce simp: returns_def bindK_def split: prod.splits outcome.splits)

lemma returns_handle:
  "returns m A \<Longrightarrow> (\<And>e. returns (h e) Q) \<Longrightarrow> (\<And>x. A x \<Longrightarrow> returns (f x) Q) \<Longrightarrow> returns (handleK m h f) Q"
  by (fastforce simp: returns_def handleK_def split: prod.splits outcome.splits)

lemma returns_True: "returns m (\<lambda>_. True)"
  by (simp add: returns_def)

lemma safe_basic [run_intro]:
  "safe (returnK x)" "safe (errorK e)" "safe (readK f)" "safe (writeK q f)"
  "(\<And>s. r \<noteq> Panic s) \<Longrightarrow> safe (liftK r)"
  by (auto simp: safe_def kio_defs split: prod.splits)

lemma safe_bind: "returns m A \<Longrightarrow> safe m \<Longrightarrow> (\<And>x. A x \<Longrightarrow> safe (f x)) \<Longrightarrow> safe (bindK m f)"
  by (fastforce simp: safe_def returns_def bindK_def split: prod.splits outcome.splits)

lemma safe_handle:
  "returns m A \<Longrightarrow> safe m \<Longrightarrow> (\<And>e. safe (h e)) \<Longrightarrow> (\<And>x. A x \<Longrightarrow> safe (f x)) \<Longrightarrow> safe (handleK m h f)"
  by (fastforce simp: safe_def returns_def handleK_def split: prod.splits outcome.splits)

lemmas safe_bind_any [run_intro] = safe_bind [OF returns_True]
lemmas safe_handle_any [run_intro] = safe_handle [OF returns_True]

lemma run_if [run_intro]:
  "(b \<Longrightarrow> silent m) \<Longrightarrow> (\<not> b \<Longrightarrow> silent n) \<Longrightarrow> silent (if b then m else n)"
  "(b \<Longrightarrow> keeps I m) \<Longrightarrow> (\<not> b \<Longrightarrow> keeps I n) \<Longrightarrow> keeps I (if b then m else n)"
  "(b \<Longrightarrow> safe m) \<Longrightarrow> (\<not> b \<Longrightarrow> safe n) \<Longrightarrow> safe (if b then m else n)"
  by simp_all

lemma run_option [run_intro]:
  "(v = None \<Longrightarrow> silent m) \<Longrightarrow> (\<And>x. v = Some x \<Longrightarrow> silent (f x)) \<Longrightarrow> silent (case v of None \<Rightarrow> m | Some x \<Rightarrow> f x)"
  "(v = None \<Longrightarrow> keeps I m) \<Longrightarrow> (\<And>x. v = Some x \<Longrightarrow> keeps I (f x)) \<Longrightarrow> keeps I (case v of None \<Rightarrow> m | Some x \<Rightarrow> f x)"
  "(v = None \<Longrightarrow> safe m) \<Longrightarrow> (\<And>x. v = Some x \<Longrightarrow> safe (f x)) \<Longrightarrow> safe (case v of None \<Rightarrow> m | Some x \<Rightarrow> f x)"
  by (simp_all split: option.splits)

lemma run_sum [run_intro]:
  "(\<And>e. v = Inl e \<Longrightarrow> silent (m e)) \<Longrightarrow> (\<And>x. v = Inr x \<Longrightarrow> silent (f x)) \<Longrightarrow> silent (case v of Inl e \<Rightarrow> m e | Inr x \<Rightarrow> f x)"
  "(\<And>e. v = Inl e \<Longrightarrow> keeps I (m e)) \<Longrightarrow> (\<And>x. v = Inr x \<Longrightarrow> keeps I (f x)) \<Longrightarrow> keeps I (case v of Inl e \<Rightarrow> m e | Inr x \<Rightarrow> f x)"
  "(\<And>e. v = Inl e \<Longrightarrow> safe (m e)) \<Longrightarrow> (\<And>x. v = Inr x \<Longrightarrow> safe (f x)) \<Longrightarrow> safe (case v of Inl e \<Rightarrow> m e | Inr x \<Rightarrow> f x)"
  by (simp_all split: sum.splits)

end
