(* ===== verification/Validate.thy ===== *)
theory Validate
  imports Kube
begin

text \<open>
  Session validation, \<open>pkg/session/validate.go\<close>.  A Go function that returns an \<open>error\<close>
  and nothing else has the outcome \<open>Ok ()\<close> for nil.  Every validator dereferences
  \<open>LifecycleConfig\<close>; on a nil pointer it panics.
\<close>

section \<open>Operations\<close>

definition deref_lifecycle :: "DatamoverSession \<Rightarrow> LifecycleConfig outcome" where
  "deref_lifecycle s = (case dssLifecycleConfig (dsSpec s) of
      None \<Rightarrow> Panic ''nil pointer dereference: LifecycleConfig''
    | Some lc \<Rightarrow> Ok lc)"

definition validatePodLabels :: "DatamoverSession \<Rightarrow> unit outcome" where
  "validatePodLabels s = bindO (deref_lifecycle s) (\<lambda>lc.
     if map_get (poLabels (lcPodOptions lc)) DatamoverSessionSelectorLabel \<noteq> []
     then Err (NewError (''Label '' @ DatamoverSessionSelectorLabel @ '' not allowed''))
     else if map_get (poLabels (lcPodOptions lc)) DatamoverSessionLabel \<noteq> []
     then Err (NewError (''Label '' @ DatamoverSessionLabel @ '' not allowed''))
     else Ok ())"

definition validateEnvs :: "DatamoverSession \<Rightarrow> unit outcome" where
  "validateEnvs s =
     (if map_get (dssEnv (dsSpec s)) ProtocolsEnvVarName \<noteq> []
      then Err (NewError (''Env '' @ ProtocolsEnvVarName @ '' not allowed''))
      else Ok ())"

definition validateNetworkPolicyConfig :: "DatamoverSession \<Rightarrow> unit outcome" where
  "validateNetworkPolicyConfig s = bindO (deref_lifecycle s) (\<lambda>lc.
     if npcEnabled (lcNetworkPolicy lc) then
       (if length (lcServicePorts lc) = 0
        then Err (NewError ''ServicePorts should be set to create a network policy'')
        else Ok ())
     else Ok ())"

definition ValidateSessionForPod :: "DatamoverSession \<Rightarrow> unit outcome" where
  "ValidateSessionForPod s =
     (case dssLifecycleConfig (dsSpec s) of
        None \<Rightarrow> Err (NewError ''Can only create pods for lifecycle session'')
      | Some lc \<Rightarrow>
          let image = lcImage lc; implementation = dssImplementation (dsSpec s) in
          if implementation = [] then Err (NewError ''Session must have implementation set'')
          else if image = [] then Err (NewError ''Session must have lifecycle.image set'')
          else Ok ())"

definition ValidateSession :: "DatamoverSession \<Rightarrow> unit outcome" where
  "ValidateSession s =
     (if dssLifecycleConfig (dsSpec s) \<noteq> None then
        bindO (validateEnvs s) (\<lambda>_.
        bindO (validatePodLabels s) (\<lambda>_.
        bindO (ValidateSessionForPod s) (\<lambda>_.
        bindO (validateNetworkPolicyConfig s) (\<lambda>_. Ok ()))))
      else Ok ())"

lemmas validate_defs = ValidateSession_def validateEnvs_def validatePodLabels_def
  ValidateSessionForPod_def validateNetworkPolicyConfig_def deref_lifecycle_def

section \<open>What validation accepts\<close>

text \<open>The specification: the conditions on a session that validation stands for.\<close>

definition valid_lifecycle :: "DatamoverSessionSpec \<Rightarrow> LifecycleConfig \<Rightarrow> bool" where
  "valid_lifecycle spec lc \<longleftrightarrow>
     dssImplementation spec \<noteq> [] \<and> lcImage lc \<noteq> [] \<and>
     map_get (dssEnv spec) ProtocolsEnvVarName = [] \<and>
     map_get (poLabels (lcPodOptions lc)) DatamoverSessionSelectorLabel = [] \<and>
     map_get (poLabels (lcPodOptions lc)) DatamoverSessionLabel = [] \<and>
     (npcEnabled (lcNetworkPolicy lc) \<longrightarrow> lcServicePorts lc \<noteq> [])"

lemma ValidateSession_no_lifecycle:
  "dssLifecycleConfig (dsSpec s) = None \<Longrightarrow> ValidateSession s = Ok ()"
  by (simp add: ValidateSession_def)

lemma ValidateSession_lifecycle:
  "dssLifecycleConfig (dsSpec s) = Some lc \<Longrightarrow>
   ValidateSession s = Ok () \<longleftrightarrow> valid_lifecycle (dsSpec s) lc"
  by (auto simp: validate_defs valid_lifecycle_def bindO_Ok_iff Let_def split: if_splits)

lemma ValidateSession_no_panic: "ValidateSession s \<noteq> Panic m"
  by (auto simp: validate_defs bindO_Panic_iff Let_def split: if_splits option.splits)

text \<open>
  C15: Validation is exactly the specification of a usable session.  A session without a
  lifecycle is accepted; a lifecycle session is accepted if and only if the implementation
  and the image are set, the reserved environment variable and the two reserved pod labels
  are absent (or empty), and service ports are given whenever a network policy is asked for;
  otherwise validation returns an error and never panics.
\<close>

theorem ValidateSession_correct:
  "(ValidateSession s = Ok () \<longleftrightarrow>
      (case dssLifecycleConfig (dsSpec s) of
         None \<Rightarrow> True
       | Some lc \<Rightarrow> valid_lifecycle (dsSpec s) lc))
   \<and> ValidateSession s \<noteq> Panic m"
  using ValidateSession_lifecycle [of s] ValidateSession_no_panic [of s m]
  by (auto simp: ValidateSession_no_lifecycle split: option.splits)

end
