(* ===== verification/PodOverrides.thy ===== *)
theory PodOverrides
  imports Kube
begin

text \<open>
  \<open>pkg/podoverride/podoverride.go\<close>: merging a JSON override into a pod specification.
  JSON encoding of the Kubernetes types and the strategic merge are third-party functions.
\<close>

definition strategicMergeJSONPatch :: "'z lib_scheme \<Rightarrow> PodSpec \<Rightarrow> opaque option \<Rightarrow> json outcome" where
  "strategicMergeJSONPatch L original override =
     bindO (of_sum (lib_MarshalOverride L override)) (\<lambda>overrideJSON.
     bindO (of_sum (lib_MarshalPodSpec L original)) (\<lambda>originalJSON.
     bindO (of_sum (lib_StrategicMergePatch L originalJSON overrideJSON)) (\<lambda>mergedPatch.
     Ok mergedPatch)))"

definition OverridePodSpec :: "'z lib_scheme \<Rightarrow> PodSpec \<Rightarrow> opaque option \<Rightarrow> PodSpec outcome" where
  "OverridePodSpec L spec override =
     bindO (strategicMergeJSONPatch L spec override) (\<lambda>mergedPatch.
     bindO (of_sum (lib_UnmarshalPodSpec L mergedPatch)) (\<lambda>newPodSpec.
     Ok newPodSpec))"

text \<open>
  The law of the merge that the code relies on when no override is given: encoding, merging
  the encoded nil override and decoding return the specification.
\<close>

definition nil_override_law :: "'z lib_scheme \<Rightarrow> bool" where
  "nil_override_law L \<longleftrightarrow> (\<forall>spec. \<exists>j n m.
     lib_MarshalPodSpec L spec = Inr j \<and> lib_MarshalOverride L None = Inr n \<and>
     lib_StrategicMergePatch L j n = Inr m \<and> lib_UnmarshalPodSpec L m = Inr spec)"

lemma OverridePodSpec_nil:
  assumes "nil_override_law L"
  shows "OverridePodSpec L spec None = Ok spec"
proof -
  obtain j n m where "lib_MarshalPodSpec L spec = Inr j" "lib_MarshalOverride L None = Inr n"
    "lib_StrategicMergePatch L j n = Inr m" "lib_UnmarshalPodSpec L m = Inr spec"
    using assms unfolding nil_override_law_def by blast
  then show ?thesis by (simp add: OverridePodSpec_def strategicMergeJSONPatch_def)
qed

lemma OverridePodSpec_no_panic [simp]: "OverridePodSpec L spec ov \<noteq> Panic m"
  by (auto simp: OverridePodSpec_def strategicMergeJSONPatch_def bindO_Panic_iff)

end
