(* ===== verification/Readiness.thy ===== *)
theory Readiness
  imports Kube
begin

text \<open>
  \<open>internal/controller/readiness.go\<close>: whether the session pod is ready, what the session
  published through its side-car container's log, and what went wrong in a failed pod.
\<close>

section \<open>Constants\<close>

definition sessionDataContainerName :: string where
  "sessionDataContainerName = ''session-data-read''"

definition sessionDataContainerImage :: string where
  "sessionDataContainerImage = ''busybox:latest''"

definition sessionDataVolumeName :: string where
  "sessionDataVolumeName = ''session-data''"

definition sessionDataVolumeMountPoint :: string where
  "sessionDataVolumeMountPoint = ''/etc/session''"

definition sessionDataReadinessTimeout :: int32 where
  "sessionDataReadinessTimeout = 600"

definition sessionDataReadinessInterval :: int32 where
  "sessionDataReadinessInterval = 1"

section \<open>Readiness of the pod\<close>

text \<open>\<open>*containerStatus.Started \<and> containerStatus.Ready\<close>; \<open>Started\<close> is a pointer.\<close>

definition started_and_ready :: "ContainerStatus \<Rightarrow> bool outcome" where
  "started_and_ready st = (case cstStarted st of
      None \<Rightarrow> Panic ''nil pointer dereference: Started''
    | Some b \<Rightarrow> Ok (b \<and> cstReady st))"

fun containerReady :: "string \<Rightarrow> ContainerStatus list \<Rightarrow> bool outcome" where
  "containerReady name [] = Ok False"
| "containerReady name (st # sts) =
     (if cstName st = name then started_and_ready st else containerReady name sts)"

definition mainContainerReady :: "Pod \<Rightarrow> bool outcome" where
  "mainContainerReady pod = containerReady DefaultContainerName (pstContainerStatuses (podStatus pod))"

definition sidecarContainerReady :: "Pod \<Rightarrow> bool outcome" where
  "sidecarContainerReady pod =
     containerReady sessionDataContainerName (pstInitContainerStatuses (podStatus pod))"

definition isPodReady :: "Pod \<Rightarrow> bool outcome" where
  "isPodReady pod =
     (if pstPhase (podStatus pod) = PodRunning
      then bindO (mainContainerReady pod) (\<lambda>m. if m then sidecarContainerReady pod else Ok False)
      else Ok False)"

section \<open>Session data\<close>

text \<open>\<open>logs[lo:hi]\<close>: a slice expression panics when its bounds are out of order or out of range.\<close>

definition slice :: "string \<Rightarrow> int \<Rightarrow> int \<Rightarrow> string outcome" where
  "slice s lo hi =
     (if 0 \<le> lo \<and> lo \<le> hi \<and> hi \<le> int (length s)
      then Ok (take (nat (hi - lo)) (drop (nat lo) s))
      else Panic ''slice bounds out of range'')"

definition getDataFromLogs :: "string \<Rightarrow> string option outcome" where
  "getDataFromLogs logs =
     (let start = LastIndex logs ''---''; end' = LastIndex logs ''___'' in
      if start = - 1 \<or> end' = - 1 then Ok None
      else bindO (slice logs (start + 3) end') (\<lambda>d. Ok (Some (TrimSpace d))))"

definition getContainerLogsReader :: "'w kube \<Rightarrow> string \<Rightarrow> string \<Rightarrow> string \<Rightarrow> ('w, LogStream) kio" where
  "getContainerLogsReader K podName podNamespace containerName =
     (case k_NewForConfig K of
        Inl e \<Rightarrow> errorK e
      | Inr _ \<Rightarrow>
          handleK (readK (k_StreamLogs K podNamespace podName containerName))
            (\<lambda>e. errorK (NewError ''error in opening stream''))
            returnK)"

definition getContainerLogs :: "'w kube \<Rightarrow> string \<Rightarrow> string \<Rightarrow> string \<Rightarrow> ('w, string) kio" where
  "getContainerLogs K podName podNamespace containerName =
     bindK (getContainerLogsReader K podName podNamespace containerName) (\<lambda>podLogs.
       if lsFails podLogs
       then errorK (NewError ''error in copy information from podLogs to buf'')
       else returnK (lsData podLogs))"

fun fetchFromStatuses :: "'w kube \<Rightarrow> Pod \<Rightarrow> ContainerStatus list \<Rightarrow> ('w, string option) kio" where
  "fetchFromStatuses K pod [] = returnK None"
| "fetchFromStatuses K pod (st # sts) =
     (if cstName st = sessionDataContainerName then
        handleK (getContainerLogs K (omName (podMeta pod)) (omNamespace (podMeta pod)) sessionDataContainerName)
          (\<lambda>e. errorK (WrapError e ''Failed to read pod logs''))
          (\<lambda>logs. liftK (getDataFromLogs logs))
      else fetchFromStatuses K pod sts)"

definition fetchSessionDataUsingSidecar :: "'w kube \<Rightarrow> Pod \<Rightarrow> ('w, string option) kio" where
  "fetchSessionDataUsingSidecar K pod =
     fetchFromStatuses K pod (pstInitContainerStatuses (podStatus pod))"

definition fetchSessionData :: "'w kube \<Rightarrow> Pod \<Rightarrow> ('w, string option) kio" where
  "fetchSessionData K pod = fetchSessionDataUsingSidecar K pod"

section \<open>Errors of a failed pod\<close>

definition isErrorLine :: "string \<Rightarrow> bool" where
  "isErrorLine line = Contains line ''ERROR''"

text \<open>The last main-container status that is not ready decides the message.\<close>

definition containerErrorsStep :: "string \<Rightarrow> ContainerStatus \<Rightarrow> string" where
  "containerErrorsStep errs st =
     (if cstName st = DefaultContainerName \<and> \<not> cstReady st then
        (let errs1 = (case csWaiting (cstState st) of
                        None \<Rightarrow> errs
                      | Some d \<Rightarrow> ''Waiting to run main container: '' @ csdReason d @ '' '' @ csdMessage d)
         in (case csTerminated (cstState st) of
               None \<Rightarrow> errs1
             | Some d \<Rightarrow> ''Main container terminated: '' @ csdReason d @ '' '' @ csdMessage d))
      else errs)"

definition containerErrors :: "ContainerStatus list \<Rightarrow> string" where
  "containerErrors sts = foldl containerErrorsStep [] sts"

definition errorLines :: "LogStream \<Rightarrow> string list" where
  "errorLines podLogs = filter isErrorLine (scan_lines MaxScanTokenSize (lsData podLogs))"

text \<open>
  The Go function returns a string and an error together: a failing log read still gives the
  container errors.  The pair is the model's result value.
\<close>

definition getPodErrors :: "'w kube \<Rightarrow> string \<Rightarrow> string \<Rightarrow> ('w, string \<times> error option) kio" where
  "getPodErrors K podName podNamespace =
     handleK (readK (k_GetPod K podNamespace podName))
       (\<lambda>e. returnK ([], Some e))
       (\<lambda>pod. let errs = containerErrors (pstContainerStatuses (podStatus pod)) in
          handleK (getContainerLogsReader K podName podNamespace DefaultContainerName)
            (\<lambda>e. returnK (errs, Some e))
            (\<lambda>podLogs. returnK (errs @ [CHR 0x0A] @ Join (errorLines podLogs) [CHR 0x0A], None)))"

section \<open>The side-car container\<close>

definition sessionDataVolumeMount :: VolumeMount where
  "sessionDataVolumeMount = \<lparr>vmName = sessionDataVolumeName,
     vmMountPath = sessionDataVolumeMountPoint, vmRest = zero_opaque\<rparr>"

definition sessionDataVolume :: "Volume list \<times> VolumeMount list" where
  "sessionDataVolume =
     ([\<lparr>volName = sessionDataVolumeName, volSource = EmptyDirSource StorageMediumMemory\<rparr>],
      [sessionDataVolumeMount])"

definition readinessProbe :: Probe where
  "readinessProbe = \<lparr>prTimeoutSeconds = sessionDataReadinessTimeout,
     prPeriodSeconds = sessionDataReadinessInterval,
     prExec = Some [''cat'', ''/etc/session/ready''], prRest = zero_opaque\<rparr>"

definition sessionDataContainer :: Container where
  "sessionDataContainer = zero_container\<lparr>
     ctName := sessionDataContainerName,
     ctImage := sessionDataContainerImage,
     ctCommand := [''sh'', ''-c'',
       ''echo '' @ [CHR 0x27] @ ''---'' @ [CHR 0x27] @ '' ; while [ ! -f /etc/session/ready ];'' @
       '' do sleep 1; done;'' @
       ''if [ -f /etc/session/data ]; then cat /etc/session/data | base64 -w0; fi;'' @
       '' echo '' @ [CHR 0x27] @ ''___'' @ [CHR 0x27] @ '';'' @
       '' tail -f /dev/null ''],
     ctVolumeMounts := [sessionDataVolumeMount],
     ctRestartPolicy := Some ContainerRestartPolicyAlways,
     ctReadinessProbe := Some readinessProbe\<rparr>"

section \<open>Properties of the readiness check\<close>

definition first_status :: "string \<Rightarrow> ContainerStatus list \<Rightarrow> ContainerStatus option" where
  "first_status name sts = find (\<lambda>st. cstName st = name) sts"

lemma containerReady_first:
  "containerReady name sts =
     (case first_status name sts of None \<Rightarrow> Ok False | Some st \<Rightarrow> started_and_ready st)"
  by (induction name sts rule: containerReady.induct) (auto simp: first_status_def)

lemma containerReady_True_iff:
  "containerReady name sts = Ok True \<longleftrightarrow>
     (\<exists>st. first_status name sts = Some st \<and> cstStarted st = Some True \<and> cstReady st)"
  by (auto simp: containerReady_first started_and_ready_def split: option.splits)

lemma containerReady_not_Err [simp]: "containerReady name sts \<noteq> Err e"
  by (auto simp: containerReady_first started_and_ready_def split: option.splits)

lemma isPodReady_not_Err [simp]: "isPodReady pod \<noteq> Err e"
  by (auto simp: isPodReady_def mainContainerReady_def sidecarContainerReady_def bindO_Err_iff)

lemma isPodReady_True_iff:
  "isPodReady pod = Ok True \<longleftrightarrow>
     pstPhase (podStatus pod) = PodRunning \<and>
     (\<exists>st. first_status DefaultContainerName (pstContainerStatuses (podStatus pod)) = Some st
        \<and> cstStarted st = Some True \<and> cstReady st) \<and>
     (\<exists>st. first_status sessionDataContainerName (pstInitContainerStatuses (podStatus pod)) = Some st
        \<and> cstStarted st = Some True \<and> cstReady st)"
  by (auto simp: isPodReady_def mainContainerReady_def sidecarContainerReady_def bindO_Ok_iff
      containerReady_True_iff)

text \<open>Every status of the two containers the check looks at carries its \<open>Started\<close> flag.\<close>

definition started_set :: "Pod \<Rightarrow> bool" where
  "started_set pod \<longleftrightarrow>
     (\<forall>st \<in> set (pstContainerStatuses (podStatus pod)) \<union> set (pstInitContainerStatuses (podStatus pod)).
        cstStarted st \<noteq> None)"

lemma first_status_in: "first_status name sts = Some st \<Longrightarrow> st \<in> set sts \<and> cstName st = name"
  by (auto simp: first_status_def find_Some_iff)

lemma containerReady_Panic:
  "containerReady name sts = Panic m \<Longrightarrow> \<exists>st \<in> set sts. cstName st = name \<and> cstStarted st = None"
  by (auto simp: containerReady_first started_and_ready_def split: option.splits dest: first_status_in)

lemma isPodReady_no_panic: "started_set pod \<Longrightarrow> isPodReady pod \<noteq> Panic m"
  unfolding isPodReady_def mainContainerReady_def sidecarContainerReady_def started_set_def
  by (auto simp: bindO_Panic_iff ball_Un split: if_splits dest!: containerReady_Panic)

text \<open>
  C16: The pod counts as ready exactly when it runs and both the main container and the
  session-data side-car (the first status that carries each name) report that they started
  and pass their readiness probe; and the check does not crash when every container status
  has its \<open>Started\<close> flag.
\<close>

theorem isPodReady_correct:
  "(isPodReady pod = Ok True \<longleftrightarrow>
      pstPhase (podStatus pod) = PodRunning \<and>
      (\<exists>st. first_status DefaultContainerName (pstContainerStatuses (podStatus pod)) = Some st
         \<and> cstStarted st = Some True \<and> cstReady st) \<and>
      (\<exists>st. first_status sessionDataContainerName (pstInitContainerStatuses (podStatus pod)) = Some st
         \<and> cstStarted st = Some True \<and> cstReady st))
   \<and> (started_set pod \<longrightarrow> (\<exists>b. isPodReady pod = Ok b))"
  using isPodReady_True_iff [of pod] isPodReady_no_panic [of pod] isPodReady_not_Err [of pod]
  by (cases "isPodReady pod") auto

definition ready_status :: "string \<Rightarrow> ContainerStatus" where
  "ready_status n = \<lparr>cstName = n, cstReady = True, cstStarted = Some True,
     cstState = \<lparr>csWaiting = None, csTerminated = None\<rparr>\<rparr>"

definition ready_pod_status :: PodStatus where
  "ready_pod_status = \<lparr>pstPhase = PodRunning,
     pstContainerStatuses = [ready_status DefaultContainerName],
     pstInitContainerStatuses = [ready_status sessionDataContainerName]\<rparr>"

definition empty_pod_spec :: PodSpec where
  "empty_pod_spec = \<lparr>psVolumes = [], psInitContainers = [], psContainers = [], psRestartPolicy = [],
     psServiceAccountName = [], psAutomountServiceAccountToken = None, psPriorityClassName = [],
     psSecurityContext = None, psShareProcessNamespace = None, psRest = zero_opaque\<rparr>"

definition sample_ready_pod :: Pod where
  "sample_ready_pod = \<lparr>podMeta = zero_meta, podSpec = empty_pod_spec, podStatus = ready_pod_status\<rparr>"

theorem isPodReady_correct_witness:
  "started_set sample_ready_pod \<and> (\<exists>b. isPodReady sample_ready_pod = Ok b)"
  using isPodReady_correct [of sample_ready_pod]
  by (auto simp: started_set_def sample_ready_pod_def ready_pod_status_def ready_status_def)

section \<open>Properties of the session data\<close>

lemma LastIndex_dashes: "CHR ''-'' \<notin> set q \<Longrightarrow> LastIndex (p @ ''---'' @ q) ''---'' = int (length p)"
  using LastIndex_marker [of 3 "CHR ''-''" q p] by (simp add: numeral_3_eq_3)

lemma LastIndex_underscores: "CHR ''_'' \<notin> set q \<Longrightarrow> LastIndex (p @ ''___'' @ q) ''___'' = int (length p)"
  using LastIndex_marker [of 3 "CHR ''_''" q p] by (simp add: numeral_3_eq_3)

lemma getDataFromLogs_framed:
  assumes "CHR ''-'' \<notin> set d" "CHR ''-'' \<notin> set post" "CHR ''_'' \<notin> set post"
  shows "getDataFromLogs (pre @ ''---'' @ d @ ''___'' @ post) = Ok (Some (TrimSpace d))"
proof -
  let ?s = "pre @ ''---'' @ d @ ''___'' @ post"
  have start: "LastIndex ?s ''---'' = int (length pre)"
    using assms by (intro LastIndex_dashes) auto
  have "LastIndex ((pre @ ''---'' @ d) @ ''___'' @ post) ''___'' = int (length (pre @ ''---'' @ d))"
    using assms by (intro LastIndex_underscores)
  then have stop: "LastIndex ?s ''___'' = int (length pre + 3 + length d)" by simp
  have "slice ?s (int (length pre) + 3) (int (length pre + 3 + length d)) = Ok d"
    by (simp add: slice_def nat_add_distrib)
  then show ?thesis unfolding getDataFromLogs_def Let_def start stop by simp
qed

lemma getDataFromLogs_unframed:
  "\<not> sublist ''---'' s \<or> \<not> sublist ''___'' s \<Longrightarrow> getDataFromLogs s = Ok None"
  by (auto simp: getDataFromLogs_def Let_def LastIndex_absent_iff)

text \<open>
  What the side-car writes: the opening marker and a newline at once, then, when the session
  is ready, the base64 encoding of its data on one line, the closing marker and a newline.
\<close>

definition base64_alphabet :: "char set" where
  "base64_alphabet = set ''ABCDEFGHIJKLMNOPQRSTUVWXYZabcdefghijklmnopqrstuvwxyz0123456789+/=''"

definition sidecar_log :: "string \<Rightarrow> string" where
  "sidecar_log d = ''---'' @ [CHR 0x0A] @ d @ ''___'' @ [CHR 0x0A]"

lemma base64_solid: "c \<in> base64_alphabet \<Longrightarrow> solid c \<and> c \<noteq> CHR ''-'' \<and> c \<noteq> CHR ''_'' \<and> c \<noteq> CHR 0x0A"
  by (auto simp: base64_alphabet_def solid_def white_space_def)

lemma TrimSpace_base64:
  assumes "set d \<subseteq> base64_alphabet"
  shows "TrimSpace d = d"
proof (rule TrimSpace_solid)
  show "d = [] \<or> solid (hd d) \<and> solid (last d)"
    using assms base64_solid hd_in_set last_in_set by (metis subsetD)
qed

lemma base64_no_markers:
  assumes "set d \<subseteq> base64_alphabet"
  shows "CHR ''-'' \<notin> set d" "CHR ''_'' \<notin> set d"
  using assms base64_solid by blast+

lemma getDataFromLogs_sidecar:
  assumes "set d \<subseteq> base64_alphabet"
  shows "getDataFromLogs (pre @ sidecar_log d) = Ok (Some d)"
proof -
  have "getDataFromLogs (pre @ ''---'' @ ([CHR 0x0A] @ d) @ ''___'' @ [CHR 0x0A])
      = Ok (Some (TrimSpace ([CHR 0x0A] @ d)))"
    using base64_no_markers [OF assms] by (intro getDataFromLogs_framed) auto
  then show ?thesis
    by (simp add: sidecar_log_def TrimSpace_Cons_newline TrimSpace_base64 [OF assms])
qed

text \<open>
  C17: Session data survives the trip through the side-car's log: whatever the container
  printed before, after a complete side-car log for base64 data \<open>d\<close> the reader returns
  exactly \<open>d\<close>.
\<close>

theorem session_data_roundtrip:
  assumes "set d \<subseteq> base64_alphabet"
  shows "getDataFromLogs (pre @ sidecar_log d) = Ok (Some d)"
  using assms by (rule getDataFromLogs_sidecar)

theorem session_data_roundtrip_witness:
  "set ''aGVsbG8='' \<subseteq> base64_alphabet \<and>
   getDataFromLogs (''x --- ___ y'' @ sidecar_log ''aGVsbG8='') = Ok (Some ''aGVsbG8='')"
proof -
  have h: "set ''aGVsbG8='' \<subseteq> base64_alphabet" by (simp add: base64_alphabet_def)
  show ?thesis using h session_data_roundtrip [OF h] by blast
qed

lemma sublist_underscores_count:
  assumes "sublist ''___'' p"
  shows "3 \<le> length (filter (\<lambda>c. c = CHR ''_'') p)"
  using assms by (auto simp: sublist_def)

lemma prefix_open_log:
  assumes "CHR ''_'' \<notin> set a" and "prefix p (a @ ''__'')"
  shows "\<not> sublist ''___'' p"
proof
  assume "sublist ''___'' p"
  then have "3 \<le> length (filter (\<lambda>c. c = CHR ''_'') p)" by (rule sublist_underscores_count)
  also have "\<dots> \<le> length (filter (\<lambda>c. c = CHR ''_'') (a @ ''__''))"
  proof -
    obtain q where "a @ ''__'' = p @ q" using assms(2) by (auto simp: prefix_def)
    then show ?thesis by simp
  qed
  also have "\<dots> = 2"
    using assms(1) by (auto simp: filter_empty_conv)
  finally show False by simp
qed

lemma getDataFromLogs_sidecar_prefix:
  assumes d: "set d \<subseteq> base64_alphabet" and p: "prefix p (sidecar_log d)"
  shows "getDataFromLogs p = Ok None \<or> getDataFromLogs p = Ok (Some d)"
proof -
  let ?a = "''---'' @ [CHR 0x0A] @ d"
  have "sidecar_log d = (?a @ ''__'') @ [CHR ''_'', CHR 0x0A]" by (simp add: sidecar_log_def)
  with p have "prefix p ((?a @ ''__'') @ [CHR ''_'', CHR 0x0A])" by simp
  then have "prefix p (?a @ ''__'') \<or> p = (?a @ ''__'') @ [CHR ''_''] \<or> p = sidecar_log d"
    by (simp only: prefix_append) (auto simp: prefix_Cons sidecar_log_def)
  then show ?thesis
  proof (elim disjE)
    assume "prefix p (?a @ ''__'')"
    then have "\<not> sublist ''___'' p"
      using base64_no_markers [OF d] by (intro prefix_open_log [where a = ?a]) auto
    then show ?thesis by (simp add: getDataFromLogs_unframed)
  next
    assume "p = (?a @ ''__'') @ [CHR ''_'']"
    then show ?thesis
      using getDataFromLogs_framed [of "[CHR 0x0A] @ d" "[]" "[]"] base64_no_markers [OF d]
      by (simp add: TrimSpace_Cons_newline TrimSpace_base64 [OF d])
  next
    assume "p = sidecar_log d"
    then show ?thesis using getDataFromLogs_sidecar [OF d, of "[]"] by simp
  qed
qed

text \<open>
  C18: Reading the log while the side-car is still writing it is safe: every prefix of a
  side-car log gives either no data yet or the complete data, never part of it, and the
  reader does not crash.
\<close>

theorem session_data_partial_log:
  assumes "set d \<subseteq> base64_alphabet" and "prefix p (sidecar_log d)"
  shows "getDataFromLogs p = Ok None \<or> getDataFromLogs p = Ok (Some d)"
  using assms by (rule getDataFromLogs_sidecar_prefix)

theorem session_data_partial_log_witness:
  "getDataFromLogs (''---'' @ [CHR 0x0A] @ ''aG'') = Ok None
   \<or> getDataFromLogs (''---'' @ [CHR 0x0A] @ ''aG'') = Ok (Some ''aGk='')"
  by (rule session_data_partial_log) (simp_all add: base64_alphabet_def sidecar_log_def)

lemma LastIndex_upper: "LastIndex s sep \<le> int (length s)"
proof (cases "filter (occurs_at sep s) [0..<Suc (length s)] = []")
  case False
  then have "last (filter (occurs_at sep s) [0..<Suc (length s)]) \<in> set [0..<Suc (length s)]"
    by (metis filter_is_subset last_in_set subsetD)
  with False show ?thesis by (simp add: LastIndex_def Let_def del: upt_Suc)
qed (simp add: LastIndex_def Let_def del: upt_Suc)

lemma getDataFromLogs_panic_iff:
  "(\<exists>m. getDataFromLogs l = Panic m) \<longleftrightarrow>
     sublist ''---'' l \<and> sublist ''___'' l \<and> LastIndex l ''___'' < LastIndex l ''---'' + 3"
  using LastIndex_range [of l "''---''"] LastIndex_upper [of l "''___''"]
    LastIndex_absent_iff [of l "''---''"] LastIndex_absent_iff [of l "''___''"]
  by (auto simp: getDataFromLogs_def Let_def slice_def)

text \<open>
  C19: The reader crashes on exactly the logs that hold both markers with the last closing
  marker starting before the end of the last opening marker; such logs exist.
\<close>

theorem getDataFromLogs_panic:
  "((\<exists>m. getDataFromLogs logs = Panic m) \<longleftrightarrow>
      sublist ''---'' logs \<and> sublist ''___'' logs \<and> LastIndex logs ''___'' < LastIndex logs ''---'' + 3)
   \<and> (\<exists>m. getDataFromLogs (''___'' @ [CHR 0x0A] @ ''---'') = Panic m)"
proof -
  let ?l = "''___'' @ [CHR 0x0A] @ ''---''"
  have "LastIndex ([] @ ''___'' @ ([CHR 0x0A] @ ''---'')) ''___'' = int (length ([]::string))"
    by (rule LastIndex_underscores) simp
  moreover have "LastIndex ((''___'' @ [CHR 0x0A]) @ ''---'' @ []) ''---'' = int (length (''___'' @ [CHR 0x0A]))"
    by (rule LastIndex_dashes) simp
  moreover have "sublist ''---'' ?l" "sublist ''___'' ?l"
    by (simp_all add: sublist_Cons_right)
  ultimately have "\<exists>m. getDataFromLogs ?l = Panic m"
    unfolding getDataFromLogs_panic_iff by simp
  then show ?thesis using getDataFromLogs_panic_iff by blast
qed

section \<open>Properties of the error report\<close>

text \<open>A log given by its lines, each ended by a newline.\<close>

definition log_of_lines :: "string list \<Rightarrow> string" where
  "log_of_lines ls = concat (map (\<lambda>l. l @ [CHR 0x0A]) ls)"

definition short_line :: "string \<Rightarrow> bool" where
  "short_line l \<longleftrightarrow> CHR 0x0A \<notin> set l \<and> length l < MaxScanTokenSize"

text \<open>
  The lines a report can draw on: all lines of the log, the last one ended or not; or the lines
  in front of the first that is too long for the scanner.
\<close>

definition lines_in :: "string \<Rightarrow> string list \<Rightarrow> bool" where
  "lines_in d ls \<longleftrightarrow> (\<forall>l \<in> set ls. short_line l) \<and>
     (d = log_of_lines ls \<or> (\<exists>ls' l. ls = ls' @ [l] \<and> l \<noteq> [] \<and> d = log_of_lines ls' @ l) \<or>
      (\<exists>long rest. CHR 0x0A \<notin> set long \<and> MaxScanTokenSize \<le> length long \<and> (rest = [] \<or> hd rest = CHR 0x0A)
         \<and> d = log_of_lines ls @ long @ rest))"

lemma scan_lines_log:
  assumes "\<forall>l \<in> set ls. short_line l"
  shows "scan_lines MaxScanTokenSize (log_of_lines ls @ rest) = map dropCR ls @ scan_lines MaxScanTokenSize rest"
  using assms
proof (induction ls)
  case (Cons l ls)
  then have "scan_lines MaxScanTokenSize (l @ CHR 0x0A # (log_of_lines ls @ rest))
      = dropCR l # scan_lines MaxScanTokenSize (log_of_lines ls @ rest)"
    by (intro scan_lines_line) (auto simp: short_line_def)
  with Cons show ?case by (simp add: log_of_lines_def)
qed (simp add: log_of_lines_def)

lemma scan_lines_last:
  "CHR 0x0A \<notin> set l \<Longrightarrow> l \<noteq> [] \<Longrightarrow>
   scan_lines mx l = (if mx \<le> length l then [] else [dropCR l])"
  using first_line_last [of l] by (simp add: scan_lines.simps [of mx l])

lemma scan_lines_in:
  assumes "lines_in d ls"
  shows "scan_lines MaxScanTokenSize d = map dropCR ls"
proof -
  have short: "\<forall>l \<in> set ls. short_line l" using assms by (simp add: lines_in_def)
  from assms consider "d = log_of_lines ls @ []"
    | (last) ls' l where "ls = ls' @ [l]" "l \<noteq> []" "d = log_of_lines ls' @ l"
    | (long) long rest where "CHR 0x0A \<notin> set long" "MaxScanTokenSize \<le> length long"
        "rest = [] \<or> hd rest = CHR 0x0A" "d = log_of_lines ls @ long @ rest"
    unfolding lines_in_def by auto
  then show ?thesis
  proof cases
    case 1
    then show ?thesis using scan_lines_log [OF short, of "[]"] by simp
  next
    case last
    then show ?thesis using short scan_lines_log [of ls' l] scan_lines_last [of l MaxScanTokenSize]
      by (simp add: short_line_def)
  next
    case long
    have "0 < MaxScanTokenSize" by (simp add: MaxScanTokenSize_def)
    then have "long \<noteq> []" using long(2) by auto
    then have "scan_lines MaxScanTokenSize (long @ rest) = []"
      using long scan_lines_too_long [of long MaxScanTokenSize "tl rest"] scan_lines_last [of long MaxScanTokenSize]
      by (cases rest) auto
    then show ?thesis using long scan_lines_log [OF short, of "long @ rest"] by simp
  qed
qed

text \<open>Every log has such lines.\<close>

lemma lines_in_exists: "\<exists>ls. lines_in d ls"
proof (induction d rule: measure_induct_rule [of length])
  case (less d)
  define l where "l = takeWhile (\<lambda>c. c \<noteq> CHR 0x0A) d"
  define r where "r = dropWhile (\<lambda>c. c \<noteq> CHR 0x0A) d"
  have d: "d = l @ r" and l: "CHR 0x0A \<notin> set l" and r: "r = [] \<or> hd r = CHR 0x0A"
    using hd_dropWhile [of "\<lambda>c. c \<noteq> CHR 0x0A" d] set_takeWhileD [of "CHR 0x0A" "\<lambda>c. c \<noteq> CHR 0x0A" d]
    by (auto simp: l_def r_def)
  consider "MaxScanTokenSize \<le> length l" | (nil) "short_line l" "r = []" "l = []" | (end_line) "short_line l" "r = []" "l \<noteq> []"
    | (step) x where "short_line l" "r = CHR 0x0A # x"
    using l r by (cases r; cases "MaxScanTokenSize \<le> length l"; cases "l = []") (auto simp: short_line_def not_le)
  then show ?case
  proof cases
    case 1
    then have "lines_in d []" using d l r unfolding lines_in_def by (auto simp: log_of_lines_def)
    then show ?thesis ..
  next
    case nil
    then have "lines_in d []" using d by (simp add: lines_in_def log_of_lines_def)
    then show ?thesis ..
  next
    case end_line
    then have "lines_in d ([] @ [l])" using d unfolding lines_in_def by (auto simp: log_of_lines_def)
    then show ?thesis ..
  next
    case step
    then obtain ls where "lines_in x ls" using less [of x] d by auto
    then have "lines_in d (l # ls)"
      using step d by (auto simp: lines_in_def log_of_lines_def)
    then show ?thesis ..
  qed
qed

text \<open>
  The failure of the main container that is reported: the last of its statuses that is not
  ready and says why, with the reason of a termination before that of waiting.
\<close>

definition failure_message :: "ContainerState \<Rightarrow> string option" where
  "failure_message st = (case (csTerminated st, csWaiting st) of
      (Some d, _) \<Rightarrow> Some (''Main container terminated: '' @ csdReason d @ '' '' @ csdMessage d)
    | (None, Some d) \<Rightarrow> Some (''Waiting to run main container: '' @ csdReason d @ '' '' @ csdMessage d)
    | (None, None) \<Rightarrow> None)"

definition failure_messages :: "Pod \<Rightarrow> string list" where
  "failure_messages pod = List.map_filter (\<lambda>st. failure_message (cstState st))
     (filter (\<lambda>st. cstName st = DefaultContainerName \<and> \<not> cstReady st) (pstContainerStatuses (podStatus pod)))"

definition reported_failure :: "Pod \<Rightarrow> string" where
  "reported_failure pod = (if failure_messages pod = [] then [] else last (failure_messages pod))"

lemma containerErrors_reported: "containerErrors (pstContainerStatuses (podStatus pod)) = reported_failure pod"
proof -
  have "foldl containerErrorsStep e sts = last (e # List.map_filter (\<lambda>st. failure_message (cstState st))
      (filter (\<lambda>st. cstName st = DefaultContainerName \<and> \<not> cstReady st) sts))" for e sts
    by (induction sts arbitrary: e)
      (auto simp: containerErrorsStep_def failure_message_def List.map_filter_def split: option.split)
  then show ?thesis by (simp add: containerErrors_def reported_failure_def failure_messages_def)
qed

text \<open>What a report says when the pod cannot be read, its log cannot be opened, and otherwise.\<close>

lemma getPodErrors_no_pod:
  assumes "k_GetPod K ns n (cluster w) = (Inl e, c1)"
  shows "getPodErrors K n ns w = (Ok ([], Some e), w\<lparr>cluster := c1\<rparr>)"
  by (simp add: getPodErrors_def kio_defs assms)

lemma getPodErrors_no_client:
  assumes "k_GetPod K ns n (cluster w) = (Inr pod, c1)" and "k_NewForConfig K = Inl e"
  shows "getPodErrors K n ns w = (Ok (reported_failure pod, Some e), w\<lparr>cluster := c1\<rparr>)"
  by (simp add: getPodErrors_def getContainerLogsReader_def kio_defs assms containerErrors_reported Let_def)

lemma getPodErrors_no_stream:
  assumes "k_GetPod K ns n (cluster w) = (Inr pod, c1)" and "k_NewForConfig K = Inr x"
    and "k_StreamLogs K ns n DefaultContainerName c1 = (Inl e, c2)"
  shows "getPodErrors K n ns w = (Ok (reported_failure pod, Some (NewError ''error in opening stream'')), w\<lparr>cluster := c2\<rparr>)"
  by (simp add: getPodErrors_def getContainerLogsReader_def kio_defs assms containerErrors_reported Let_def)

lemma getPodErrors_report:
  assumes "k_GetPod K ns n (cluster w) = (Inr pod, c1)" and "k_NewForConfig K = Inr x"
    and "k_StreamLogs K ns n DefaultContainerName c1 = (Inr podLogs, c2)" and "lines_in (lsData podLogs) ls"
  shows "getPodErrors K n ns w = (Ok (reported_failure pod @ [CHR 0x0A]
    @ Join (filter (\<lambda>l. \<exists>u v. l = u @ ''ERROR'' @ v) (map dropCR ls)) [CHR 0x0A], None), w\<lparr>cluster := c2\<rparr>)"
proof -
  have "isErrorLine = (\<lambda>l. \<exists>u v. l = u @ ''ERROR'' @ v)"
    by (simp add: fun_eq_iff isErrorLine_def Contains_def sublist_def)
  then have "errorLines podLogs = filter (\<lambda>l. \<exists>u v. l = u @ ''ERROR'' @ v) (map dropCR ls)"
    using scan_lines_in [OF assms(4)] by (simp add: errorLines_def)
  then show ?thesis
    using assms(1-3) by (simp add: getPodErrors_def getContainerLogsReader_def kio_defs containerErrors_reported Let_def)
qed

end
