(* ===== verification/Volumes.thy ===== *)
theory Volumes
  imports Kube
begin

text \<open>
  The contract shared by every function that contributes volumes to a pod: it returns volumes
  together with the mounts for them, one mount per volume under the volume's name.  The
  session pod (\<open>internal/controller/pod.go\<close>) and the client pod (\<open>pkg/client\<close>) both
  concatenate such contributions, and rely on the contract to know that no container mounts
  a volume the pod does not have.
\<close>

type_synonym contribution = "Volume list \<times> VolumeMount list"

definition matched :: "contribution \<Rightarrow> bool" where
  "matched vm \<longleftrightarrow> map vmName (snd vm) = map volName (fst vm)"

definition concat_contributions :: "contribution list \<Rightarrow> contribution" where
  "concat_contributions cs = (concat (map fst cs), concat (map snd cs))"

lemma matched_concat: "\<forall>c \<in> set cs. matched c \<Longrightarrow> matched (concat_contributions cs)"
  by (induction cs) (auto simp: matched_def concat_contributions_def)

lemma matched_names: "matched vm \<Longrightarrow> vmName ` set (snd vm) = volName ` set (fst vm)"
  unfolding matched_def by (metis list.set_map)

locale volume_builder =
  fixes build :: "'a \<Rightarrow> Volume list \<times> VolumeMount list"
  assumes matched_build: "matched (build x)"
begin

lemma mount_has_volume:
  "m \<in> set (snd (build x)) \<Longrightarrow> \<exists>v \<in> set (fst (build x)). volName v = vmName m"
  using matched_names [OF matched_build, of x] by (metis image_iff)

lemma volume_has_mount:
  "v \<in> set (fst (build x)) \<Longrightarrow> \<exists>m \<in> set (snd (build x)). vmName m = volName v"
  using matched_names [OF matched_build, of x] by (metis image_iff)

lemma same_length: "length (snd (build x)) = length (fst (build x))"
  using matched_build [of x] unfolding matched_def by (metis length_map)

end

end
