(* ===== verification/Reference.thy ===== *)
theory Reference
  imports Kube
begin

text \<open>
  A concrete instance of the model's parameters, on which the theorems are exercised: the
  third-party functions as documented, and a small API server that stores sessions, pods,
  services and network policies in memory, assigns names and resource versions from a
  counter, and serves reads from the stored state.
\<close>

section \<open>Third-party functions\<close>

definition ref_IntValue :: "IntOrString \<Rightarrow> int" where
  "ref_IntValue v = (case v of
      FromInt32 n \<Rightarrow> sint n
    | FromString s \<Rightarrow> if s \<noteq> [] \<and> list_all (\<lambda>c. c \<in> set ''0123456789'') s then int (read_nat s) else 0)"

definition ref_GetControllerOf :: "ObjectMeta \<Rightarrow> OwnerReference option" where
  "ref_GetControllerOf m = find (\<lambda>r. orController r = Some True) (omOwnerReferences m)"

definition ref_ParseGroupVersion :: "string \<Rightarrow> error + GroupVersion" where
  "ref_ParseGroupVersion s = (case split_at (CHR ''/'') s of
      [v] \<Rightarrow> Inr \<lparr>gvGroup = [], gvVersion = v\<rparr>
    | [g, v] \<Rightarrow> Inr \<lparr>gvGroup = g, gvVersion = v\<rparr>
    | _ \<Rightarrow> Inl (NewError (''unexpected GroupVersion string: '' @ s)))"

definition ref_SetControllerReference :: "DatamoverSession \<Rightarrow> ObjectMeta \<Rightarrow> error + ObjectMeta" where
  "ref_SetControllerReference s m = (case ref_GetControllerOf m of
      Some c \<Rightarrow> Inl (NewError ''object is already owned by another controller'')
    | None \<Rightarrow> Inr (m\<lparr>omOwnerReferences := omOwnerReferences m @
         [\<lparr>orAPIVersion = GroupVersion_String api_GroupVersion, orKind = DatamoverSessionKind,
           orName = dsName s, orUID = omUID (dsMeta s), orController = Some True\<rparr>]\<rparr>))"

fun ref_reason :: "error \<Rightarrow> string" where
  "ref_reason (StatusError r m) = r"
| "ref_reason (NewError m) = []"
| "ref_reason (WrapError e m) = ref_reason e"

definition ref_lib :: lib where
  "ref_lib = \<lparr>lib_range = rev,
     lib_IntValue = ref_IntValue,
     lib_GetControllerOf = ref_GetControllerOf,
     lib_ParseGroupVersion = ref_ParseGroupVersion,
     lib_SetControllerReference = ref_SetControllerReference,
     lib_IsNotFound = (\<lambda>e. ref_reason e = ''NotFound''),
     lib_IsAlreadyExists = (\<lambda>e. ref_reason e = ''AlreadyExists''),
     lib_MarshalPodSpec = (\<lambda>spec. Inr (JSONOfPodSpec spec)),
     lib_MarshalOverride = (\<lambda>ov. Inr (JSONOfOverride ov)),
     lib_StrategicMergePatch = (\<lambda>j p. if p = JSONOfOverride None then Inr j
        else Inl (NewError ''overrides are not supported'')),
     lib_UnmarshalPodSpec = (\<lambda>j. case j of JSONOfPodSpec spec \<Rightarrow> Inr spec
        | _ \<Rightarrow> Inl (NewError ''not a pod spec''))\<rparr>"

section \<open>The API server\<close>

type_synonym key = "string \<times> string"

record server =
  srvSessions :: "key \<rightharpoonup> DatamoverSession"
  srvPods :: "Pod list"
  srvServices :: "key \<rightharpoonup> Service"
  srvPolicies :: "key \<rightharpoonup> NetworkPolicy"
  srvLogs :: "key \<Rightarrow> string \<Rightarrow> string"
  srvCounter :: nat
  srvPast :: "key \<Rightarrow> string \<Rightarrow> DatamoverSession option"

definition not_found :: "'a \<Rightarrow> error" where
  "not_found x = StatusError ''NotFound'' ''not found''"

definition srv_get :: "(server \<Rightarrow> key \<rightharpoonup> 'a) \<Rightarrow> string \<Rightarrow> string \<Rightarrow> server \<Rightarrow> (error + 'a) \<times> server" where
  "srv_get store ns name c = (case store c (ns, name) of
      None \<Rightarrow> (Inl (not_found ()), c) | Some x \<Rightarrow> (Inr x, c))"

definition srv_GetSession :: "string \<Rightarrow> string \<Rightarrow> server \<Rightarrow> (error + DatamoverSession) \<times> server" where
  "srv_GetSession ns name c = (case srvSessions c (ns, name) of
      None \<Rightarrow> (Inl (not_found ()), c)
    | Some s \<Rightarrow> if (dsNamespace s, dsName s) = (ns, name) then (Inr s, c) else (Inl (not_found ()), c))"

definition pod_key :: "Pod \<Rightarrow> key" where
  "pod_key p = (omNamespace (podMeta p), omName (podMeta p))"

definition srv_find_pod :: "server \<Rightarrow> key \<rightharpoonup> Pod" where
  "srv_find_pod c k = find (\<lambda>p. pod_key p = k) (srvPods c)"

definition srv_ListPods :: "string \<Rightarrow> string \<Rightarrow> string \<Rightarrow> server \<Rightarrow> (error + Pod list) \<times> server" where
  "srv_ListPods ns k v c =
     (Inr (filter (\<lambda>p. omNamespace (podMeta p) = ns \<and>
        (case omLabels (podMeta p) of None \<Rightarrow> False | Some al \<Rightarrow> map_of al k = Some v)) (srvPods c)), c)"

definition assign_meta :: "nat \<Rightarrow> ObjectMeta \<Rightarrow> ObjectMeta" where
  "assign_meta n m = m\<lparr>omName := (if omName m = [] then omGenerateName m @ nat_digits n else omName m),
     omUID := ''uid-'' @ nat_digits n, omResourceVersion := nat_digits n\<rparr>"

definition srv_CreatePod :: "Pod \<Rightarrow> server \<Rightarrow> (error + unit) \<times> server" where
  "srv_CreatePod p c =
     (let n = srvCounter c;
          p' = p\<lparr>podMeta := assign_meta n (podMeta p), podStatus := zero_pod_status\<lparr>pstPhase := PodPending\<rparr>\<rparr>
      in (Inr (), c\<lparr>srvPods := srvPods c @ [p'], srvCounter := Suc n\<rparr>))"

definition srv_CreateService :: "Service \<Rightarrow> server \<Rightarrow> (error + unit) \<times> server" where
  "srv_CreateService svc c =
     (let n = srvCounter c; k = (omNamespace (svcMeta svc), omName (svcMeta svc)) in
      if srvServices c k \<noteq> None then (Inl (StatusError ''AlreadyExists'' ''service exists''), c)
      else (Inr (), c\<lparr>srvServices := (srvServices c)(k \<mapsto>
             svc\<lparr>svcMeta := assign_meta n (svcMeta svc), svcClusterIP := ''10.0.0.1''\<rparr>), srvCounter := Suc n\<rparr>))"

definition srv_CreateNetworkPolicy :: "NetworkPolicy \<Rightarrow> server \<Rightarrow> (error + unit) \<times> server" where
  "srv_CreateNetworkPolicy np c =
     (let n = srvCounter c; k = (omNamespace (npMeta np), omName (npMeta np)) in
      if srvPolicies c k \<noteq> None then (Inl (StatusError ''AlreadyExists'' ''network policy exists''), c)
      else (Inr (), c\<lparr>srvPolicies := (srvPolicies c)(k \<mapsto>
             np\<lparr>npMeta := assign_meta n (npMeta np)\<rparr>), srvCounter := Suc n\<rparr>))"

definition srv_DeletePod :: "Pod \<Rightarrow> server \<Rightarrow> (error + unit) \<times> server" where
  "srv_DeletePod p c = (Inr (), c\<lparr>srvPods := filter (\<lambda>q. pod_key q \<noteq> pod_key p) (srvPods c)\<rparr>)"

definition srv_DeleteService :: "Service \<Rightarrow> server \<Rightarrow> (error + unit) \<times> server" where
  "srv_DeleteService svc c =
     (Inr (), c\<lparr>srvServices := (srvServices c)((omNamespace (svcMeta svc), omName (svcMeta svc)) := None)\<rparr>)"

text \<open>
  Updates carry the resource version they are based on; a stale one is a conflict.  The new
  version is one the object never had, and the old content stays known under its version.
\<close>

definition srv_StatusUpdate :: "DatamoverSession \<Rightarrow> server \<Rightarrow> (error + unit) \<times> server" where
  "srv_StatusUpdate s c =
     (let k = (dsNamespace s, dsName s); n = srvCounter c; v = nat_digits n in
      case srvSessions c k of
        None \<Rightarrow> (Inl (not_found ()), c)
      | Some cur \<Rightarrow>
          if omResourceVersion (dsMeta cur) \<noteq> omResourceVersion (dsMeta s)
          then (Inl (StatusError ''Conflict'' ''the object has been modified''), c)
          else if v = omResourceVersion (dsMeta cur) \<or> srvPast c k v \<noteq> None
          then (Inl (StatusError ''InternalError'' ''version in use''), c)
          else (Inr (), c\<lparr>srvSessions := (srvSessions c)(k \<mapsto> cur\<lparr>dsStatus := dsStatus s,
                  dsMeta := (dsMeta cur)\<lparr>omResourceVersion := v\<rparr>\<rparr>), srvCounter := Suc n,
                srvPast := (srvPast c)(k := (srvPast c k)(omResourceVersion (dsMeta cur) \<mapsto> cur))\<rparr>))"

definition srv_StreamLogs :: "string \<Rightarrow> string \<Rightarrow> string \<Rightarrow> server \<Rightarrow> (error + LogStream) \<times> server" where
  "srv_StreamLogs ns name ct c = (Inr \<lparr>lsData = srvLogs c (ns, name) ct, lsFails = False\<rparr>, c)"

definition ref_kube :: "server kube" where
  "ref_kube = lib.extend ref_lib (kube.fields
     srv_GetSession srv_ListPods (srv_get srv_find_pod) (srv_get srvServices) (srv_get srvPolicies)
     srv_CreatePod srv_CreateService srv_CreateNetworkPolicy srv_DeletePod srv_DeleteService
     srv_StatusUpdate (Inr ()) srv_StreamLogs)"

lemmas srv_defs = srv_get_def srv_GetSession_def srv_ListPods_def srv_find_pod_def srv_CreatePod_def srv_CreateService_def
  srv_CreateNetworkPolicy_def srv_DeletePod_def srv_DeleteService_def srv_StatusUpdate_def srv_StreamLogs_def

lemma ref_kube_fields [simp]:
  "lib_range ref_kube = rev" "lib_IntValue ref_kube = ref_IntValue"
  "lib_GetControllerOf ref_kube = ref_GetControllerOf"
  "lib_ParseGroupVersion ref_kube = ref_ParseGroupVersion"
  "lib_SetControllerReference ref_kube = ref_SetControllerReference"
  "lib_IsNotFound ref_kube e \<longleftrightarrow> ref_reason e = ''NotFound''"
  "lib_IsAlreadyExists ref_kube e \<longleftrightarrow> ref_reason e = ''AlreadyExists''"
  "lib_MarshalPodSpec ref_kube spec = Inr (JSONOfPodSpec spec)"
  "lib_MarshalOverride ref_kube ov = Inr (JSONOfOverride ov)"
  "lib_StrategicMergePatch ref_kube j p =
     (if p = JSONOfOverride None then Inr j else Inl (NewError ''overrides are not supported''))"
  "lib_UnmarshalPodSpec ref_kube j =
     (case j of JSONOfPodSpec spec \<Rightarrow> Inr spec | _ \<Rightarrow> Inl (NewError ''not a pod spec''))"
  "k_GetSession ref_kube = srv_GetSession" "k_ListPods ref_kube = srv_ListPods"
  "k_GetPod ref_kube = srv_get srv_find_pod" "k_GetService ref_kube = srv_get srvServices"
  "k_GetNetworkPolicy ref_kube = srv_get srvPolicies" "k_CreatePod ref_kube = srv_CreatePod"
  "k_CreateService ref_kube = srv_CreateService"
  "k_CreateNetworkPolicy ref_kube = srv_CreateNetworkPolicy"
  "k_DeletePod ref_kube = srv_DeletePod" "k_DeleteService ref_kube = srv_DeleteService"
  "k_StatusUpdate ref_kube = srv_StatusUpdate" "k_NewForConfig ref_kube = Inr ()"
  "k_StreamLogs ref_kube = srv_StreamLogs"
  by (simp_all add: ref_kube_def ref_lib_def lib.extend_def kube.fields_def)

lemma ref_GetControllerOf_append:
  "ref_GetControllerOf m = None \<Longrightarrow> orController r = Some True \<Longrightarrow>
   ref_GetControllerOf (m\<lparr>omOwnerReferences := omOwnerReferences m @ [r]\<rparr>) = Some r"
  by (auto simp: ref_GetControllerOf_def find_None_iff find_Some_iff nth_append
      intro!: exI [of _ "length (omOwnerReferences m)"])

lemma ref_SetControllerReference_law:
  assumes "ref_SetControllerReference s m = Inr m'"
  shows "m' = m\<lparr>omOwnerReferences := omOwnerReferences m'\<rparr> \<and>
    (\<exists>c. ref_GetControllerOf m' = Some c \<and>
       orAPIVersion c = GroupVersion_String api_GroupVersion \<and> orKind c = DatamoverSessionKind \<and>
       orName c = dsName s \<and> orUID c = omUID (dsMeta s))"
  using assms
  by (auto simp: ref_SetControllerReference_def ref_GetControllerOf_append split: option.splits)

lemma ref_owner_law: "owner_law ref_kube"
  unfolding owner_law_def ref_kube_fields
proof (intro conjI allI impI)
  show "ref_ParseGroupVersion (GroupVersion_String api_GroupVersion) = Inr api_GroupVersion"
    by (simp add: ref_ParseGroupVersion_def GroupVersion_String_def api_GroupVersion_def)
next
  fix m m' :: ObjectMeta
  assume "omOwnerReferences m = omOwnerReferences m'"
  then show "ref_GetControllerOf m = ref_GetControllerOf m'" by (simp add: ref_GetControllerOf_def)
qed (use ref_SetControllerReference_law in blast)+

lemma ref_status_law: "status_law ref_kube"
  by (simp add: status_law_def)

lemma ref_range_order: "range_order (lib_range ref_kube)"
  by (simp add: range_order_def)

section \<open>A sample session\<close>

definition sample_port :: ServicePort where
  "sample_port = \<lparr>spName = ''kopia'', spProtocol = ''TCP'', spPort = 51515,
     spTargetPort = FromInt32 0, spRest = zero_opaque\<rparr>"

definition sample_options :: PodOptions where
  "sample_options = \<lparr>poResources = zero_opaque, poExtraVolumes = [], poLabels = Some [(''team'', ''x'')],
     poAnnotations = None, poExtraContainers = [], poPriorityClassName = [], poPodSecurityContext = None,
     poContainerSecurityContext = None, poShareProcessNamespace = None, poServiceAccount = [],
     poImagePullPolicy = [], poPodOverride = None\<rparr>"

definition sample_lifecycle :: LifecycleConfig where
  "sample_lifecycle = \<lparr>lcImage = ''img'', lcServicePorts = [sample_port],
     lcNetworkPolicy = \<lparr>npcEnabled = True, npcFrom = []\<rparr>, lcPodOptions = sample_options,
     lcStartupProbe = None, lcLivenessProbe = None\<rparr>"

definition empty_info :: SessionInfo where
  "empty_info = \<lparr>siPodName = [], siServiceName = [], siSessionData = [], siPodErrors = []\<rparr>"

definition sample_session :: DatamoverSession where
  "sample_session = \<lparr>dsKind = DatamoverSessionKind, dsAPIVersion = ''dm.cr.kanister.io/v1alpha1'',
     dsMeta = zero_meta\<lparr>omName := ''s1'', omNamespace := ''ns'', omUID := ''u1'', omResourceVersion := ''1''\<rparr>,
     dsSpec = \<lparr>dssImplementation = ''kopia'', dssConfiguration = None, dssConfigurationSecrets = None,
       dssClientSecretRef = None, dssEnv = Some [(''A'', ''1'')], dssLifecycleConfig = Some sample_lifecycle\<rparr>,
     dsStatus = \<lparr>stSessionInfo = empty_info, stProgress = ProgressNone\<rparr>\<rparr>"

lemma sample_simps [simp]:
  "dsName sample_session = ''s1''" "dsNamespace sample_session = ''ns''"
  "omUID (dsMeta sample_session) = ''u1''" "omGenerateName (dsMeta sample_session) = ''''"
  "omResourceVersion (dsMeta sample_session) = ''1''"
  "dsStatus sample_session = \<lparr>stSessionInfo = empty_info, stProgress = ProgressNone\<rparr>"
  "dssLifecycleConfig (dsSpec sample_session) = Some sample_lifecycle"
  "dssImplementation (dsSpec sample_session) = ''kopia''"
  "dssEnv (dsSpec sample_session) = Some [(''A'', ''1'')]"
  "dssConfiguration (dsSpec sample_session) = None"
  "dssConfigurationSecrets (dsSpec sample_session) = None"
  "dssClientSecretRef (dsSpec sample_session) = None"
  "lcImage sample_lifecycle = ''img''" "lcServicePorts sample_lifecycle = [sample_port]"
  "npcEnabled (lcNetworkPolicy sample_lifecycle)" "lcPodOptions sample_lifecycle = sample_options"
  "poLabels sample_options = Some [(''team'', ''x'')]" "poPodOverride sample_options = None"
  "siSessionData empty_info = ''''"
  by (simp_all add: sample_session_def sample_lifecycle_def sample_options_def zero_meta_def empty_info_def)

end
