(* ===== verification/Pods.thy ===== *)
theory Pods
  imports Validate PodOverrides Readiness Volumes Reference
begin

text \<open>
  \<open>internal/controller/pod.go\<close>: the pod that runs a session.  \<open>MakePodSpec\<close> takes the
  session by value, but writes into its label and environment maps, which the caller's
  session shares: the model returns the session as the caller sees it afterwards.
\<close>

section \<open>Volumes\<close>

definition getConfigMapVolume :: "string \<Rightarrow> ConfigMapVolumeSource \<Rightarrow> Volume" where
  "getConfigMapVolume name ref = \<lparr>volName = name, volSource = ConfigMapSource ref\<rparr>"

definition getSecretVolume :: "string \<Rightarrow> SecretVolumeSource \<Rightarrow> Volume" where
  "getSecretVolume name ref = \<lparr>volName = name, volSource = SecretSource ref\<rparr>"

definition mount :: "string \<Rightarrow> string \<Rightarrow> VolumeMount" where
  "mount name path = \<lparr>vmName = name, vmMountPath = path, vmRest = zero_opaque\<rparr>"

definition podOptionsVolumeMounts :: "Volume list \<Rightarrow> VolumeMount list" where
  "podOptionsVolumeMounts volumes =
     map (\<lambda>vol. mount (volName vol) (''/mnt/volumes/'' @ volName vol)) volumes"

definition configSecretVolumes :: "'z lib_scheme \<Rightarrow> SecretVolumeSource gomap option \<Rightarrow> contribution" where
  "configSecretVolumes L secretsMap =
     (let entries = (case secretsMap of None \<Rightarrow> [] | Some m \<Rightarrow> map_range (lib_range L) m)
      in (map (\<lambda>(name, secret). getSecretVolume name secret) entries,
          map (\<lambda>(name, secret). mount name (''/etc/secrets/'' @ name)) entries))"

definition configMapVolume :: "ConfigMapVolumeSource option \<Rightarrow> contribution" where
  "configMapVolume ref =
     (case ref of
        None \<Rightarrow> ([], [])
      | Some r \<Rightarrow> ([getConfigMapVolume ''config'' r], [mount ''config'' ''/etc/config'']))"

definition clientSecretVolume :: "SecretVolumeSource option \<Rightarrow> contribution" where
  "clientSecretVolume ref =
     (case ref of
        None \<Rightarrow> ([], [])
      | Some r \<Rightarrow> ([getSecretVolume ''client-creds'' r], [mount ''client-creds'' ''/etc/client_credentials'']))"

definition makePodVolumes :: "'z lib_scheme \<Rightarrow> DatamoverSession \<Rightarrow> LifecycleConfig \<Rightarrow> contribution" where
  "makePodVolumes L s lc =
     (let extraVolumes = poExtraVolumes (lcPodOptions lc);
          extraVolumeMounts = podOptionsVolumeMounts extraVolumes
      in concat_contributions
           [(extraVolumes, extraVolumeMounts),
            configMapVolume (dssConfiguration (dsSpec s)),
            clientSecretVolume (dssClientSecretRef (dsSpec s)),
            sessionDataVolume,
            configSecretVolumes L (dssConfigurationSecrets (dsSpec s))])"

section \<open>Environment and labels\<close>

definition portNumber :: "'z lib_scheme \<Rightarrow> ServicePort \<Rightarrow> int" where
  "portNumber L port =
     (let portNum = lib_IntValue L (spTargetPort port)
      in if portNum = 0 then sint (spPort port) else portNum)"

definition formatProtocolsVar :: "'z lib_scheme \<Rightarrow> ServicePort list \<Rightarrow> string" where
  "formatProtocolsVar L ports =
     Join (map (\<lambda>port. spName port @ '':'' @ Itoa (portNumber L port)) ports) '';''"

definition map_or_new :: "smap option \<Rightarrow> smap" where
  "map_or_new m = (case m of None \<Rightarrow> [] | Some al \<Rightarrow> al)"

definition podLabels :: "DatamoverSession \<Rightarrow> LifecycleConfig \<Rightarrow> smap" where
  "podLabels s lc =
     AList.update DatamoverSessionLabel (dsName s)
       (AList.update DatamoverSessionSelectorLabel (dsName s)
         (map_or_new (poLabels (lcPodOptions lc))))"

definition podEnv :: "'z lib_scheme \<Rightarrow> DatamoverSession \<Rightarrow> LifecycleConfig \<Rightarrow> smap" where
  "podEnv L s lc =
     AList.update ProtocolsEnvVarName (formatProtocolsVar L (lcServicePorts lc))
       (AList.update ImplementationEnvVarName (dssImplementation (dsSpec s))
         (map_or_new (dssEnv (dsSpec s))))"

definition envVars :: "'z lib_scheme \<Rightarrow> smap \<Rightarrow> EnvVar list" where
  "envVars L env =
     map (\<lambda>(key, val). \<lparr>evName = key, evValue = val, evRest = zero_opaque\<rparr>) (map_range (lib_range L) env)"

text \<open>
  The writes through the shared maps: a nil map is replaced by a fresh one the caller does
  not see, a non-nil map is updated in place.
\<close>

definition share_maps :: "'z lib_scheme \<Rightarrow> DatamoverSession \<Rightarrow> LifecycleConfig \<Rightarrow> DatamoverSession" where
  "share_maps L s lc =
     (let opts = (lcPodOptions lc)\<lparr>poLabels := map_option (\<lambda>_. podLabels s lc) (poLabels (lcPodOptions lc))\<rparr>
      in s\<lparr>dsSpec := (dsSpec s)\<lparr>dssEnv := map_option (\<lambda>_. podEnv L s lc) (dssEnv (dsSpec s)),
             dssLifecycleConfig := Some (lc\<lparr>lcPodOptions := opts\<rparr>)\<rparr>\<rparr>)"

section \<open>The pod\<close>

definition mainContainer :: "'z lib_scheme \<Rightarrow> DatamoverSession \<Rightarrow> LifecycleConfig \<Rightarrow> Container" where
  "mainContainer L s lc = zero_container\<lparr>
     ctName := DefaultContainerName,
     ctImage := lcImage lc,
     ctImagePullPolicy := poImagePullPolicy (lcPodOptions lc),
     ctVolumeMounts := snd (makePodVolumes L s lc),
     ctReadinessProbe := Some readinessProbe,
     ctStartupProbe := lcStartupProbe lc,
     ctLivenessProbe := lcLivenessProbe lc,
     ctEnv := envVars L (podEnv L s lc),
     ctResources := poResources (lcPodOptions lc),
     ctSecurityContext := poContainerSecurityContext (lcPodOptions lc)\<rparr>"

definition basePodSpec :: "'z lib_scheme \<Rightarrow> DatamoverSession \<Rightarrow> LifecycleConfig \<Rightarrow> PodSpec" where
  "basePodSpec L s lc =
     (let serviceAccountName = poServiceAccount (lcPodOptions lc) in
      \<lparr>psVolumes = fst (makePodVolumes L s lc),
       psInitContainers = [sessionDataContainer],
       psContainers = poExtraContainers (lcPodOptions lc) @ [mainContainer L s lc],
       psRestartPolicy = RestartPolicyNever,
       psServiceAccountName = serviceAccountName,
       psAutomountServiceAccountToken = Some (serviceAccountName \<noteq> []),
       psPriorityClassName = poPriorityClassName (lcPodOptions lc),
       psSecurityContext = poPodSecurityContext (lcPodOptions lc),
       psShareProcessNamespace = poShareProcessNamespace (lcPodOptions lc),
       psRest = zero_opaque\<rparr>)"

definition genPodName :: "DatamoverSession \<Rightarrow> string" where
  "genPodName s = (if omGenerateName (dsMeta s) = [] then dsName s else omGenerateName (dsMeta s))"

definition podObjectMeta :: "DatamoverSession \<Rightarrow> LifecycleConfig \<Rightarrow> ObjectMeta" where
  "podObjectMeta s lc = zero_meta\<lparr>omGenerateName := genPodName s,
     omNamespace := dsNamespace s,
     omLabels := Some (podLabels s lc),
     omAnnotations := poAnnotations (lcPodOptions lc)\<rparr>"

definition MakePodSpec :: "'z lib_scheme \<Rightarrow> DatamoverSession \<Rightarrow> Pod outcome \<times> DatamoverSession" where
  "MakePodSpec L s =
     (case ValidateSessionForPod s of
        Err e \<Rightarrow> (Err (WrapError e ''Session spec is invalid for pod creation''), s)
      | Panic m \<Rightarrow> (Panic m, s)
      | Ok _ \<Rightarrow>
          (case deref_lifecycle s of
             Err e \<Rightarrow> (Err e, s)
           | Panic m \<Rightarrow> (Panic m, s)
           | Ok lc \<Rightarrow>
               (bindO (OverridePodSpec L (basePodSpec L s lc) (poPodOverride (lcPodOptions lc))) (\<lambda>spec.
                  Ok \<lparr>podMeta = podObjectMeta s lc, podSpec = spec, podStatus = zero_pod_status\<rparr>),
                share_maps L s lc)))"

definition CreatePod :: "'w kube \<Rightarrow> DatamoverSession \<Rightarrow> ('w, DatamoverSession) kio" where
  "CreatePod K s =
     (case MakePodSpec K s of (made, s') \<Rightarrow>
        bindK (liftK made) (\<lambda>pod.
        bindK (liftK (of_sum (lib_SetControllerReference K s' (podMeta pod)))) (\<lambda>meta.
          let pod' = pod\<lparr>podMeta := meta\<rparr> in
          handleK (writeK (CreatePodReq pod') (k_CreatePod K pod'))
            (\<lambda>e. errorK (WrapError e ''Failed to create pod''))
            (\<lambda>_. returnK s'))))"

definition DeletePod :: "'w kube \<Rightarrow> Pod \<Rightarrow> ('w, unit) kio" where
  "DeletePod K pod = writeK (DeletePodReq pod) (k_DeletePod K pod)"

section \<open>Volumes and mounts agree\<close>

lemmas mount_defs = mount_def getConfigMapVolume_def getSecretVolume_def

interpretation config_map: volume_builder configMapVolume
  by unfold_locales (auto simp: matched_def configMapVolume_def mount_defs split: option.splits)

interpretation client_secret: volume_builder clientSecretVolume
  by unfold_locales (auto simp: matched_def clientSecretVolume_def mount_defs split: option.splits)

interpretation config_secrets: volume_builder "configSecretVolumes L" for L
  by unfold_locales
    (auto simp: matched_def configSecretVolumes_def mount_defs Let_def split: option.splits)

interpretation extra_volumes: volume_builder "\<lambda>vs. (vs, podOptionsVolumeMounts vs)"
  by unfold_locales (simp add: matched_def podOptionsVolumeMounts_def mount_defs)

interpretation session_data: volume_builder "\<lambda>_::unit. sessionDataVolume"
  by unfold_locales (simp add: matched_def sessionDataVolume_def sessionDataVolumeMount_def)

interpretation pod_volumes: volume_builder "\<lambda>(s, lc). makePodVolumes L s lc" for L
proof (unfold_locales, clarify)
  fix s lc
  show "matched (makePodVolumes L s lc)"
    unfolding makePodVolumes_def Let_def
    by (rule matched_concat)
      (simp add: config_map.matched_build client_secret.matched_build session_data.matched_build
        config_secrets.matched_build extra_volumes.matched_build)
qed

section \<open>Results of MakePodSpec\<close>

lemma MakePodSpec_Ok:
  assumes "MakePodSpec L s = (Ok pod, s')"
  obtains lc where "dssLifecycleConfig (dsSpec s) = Some lc"
    "ValidateSessionForPod s = Ok ()" "s' = share_maps L s lc"
    "OverridePodSpec L (basePodSpec L s lc) (poPodOverride (lcPodOptions lc)) = Ok (podSpec pod)"
    "podMeta pod = podObjectMeta s lc"
    "podStatus pod = zero_pod_status"
  using assms
  by (auto simp: MakePodSpec_def deref_lifecycle_def bindO_Ok_iff split: outcome.splits option.splits)

lemma MakePodSpec_valid:
  assumes "ValidateSession s = Ok ()" and "dssLifecycleConfig (dsSpec s) = Some lc"
    and "OverridePodSpec L (basePodSpec L s lc) (poPodOverride (lcPodOptions lc)) = Ok spec"
  shows "\<exists>pod. MakePodSpec L s = (Ok pod, share_maps L s lc) \<and> podSpec pod = spec"
proof -
  have "ValidateSessionForPod s = Ok ()"
    using ValidateSession_lifecycle [OF assms(2)] assms(1,2)
    by (simp add: ValidateSessionForPod_def valid_lifecycle_def)
  with assms show ?thesis by (simp add: MakePodSpec_def deref_lifecycle_def)
qed

lemma MakePodSpec_no_panic: "fst (MakePodSpec L s) \<noteq> Panic m"
  by (auto simp: MakePodSpec_def ValidateSessionForPod_def deref_lifecycle_def bindO_Panic_iff Let_def
      split: outcome.splits option.splits if_splits)

lemma share_maps_simps [simp]:
  "dsMeta (share_maps L s lc) = dsMeta s" "dsStatus (share_maps L s lc) = dsStatus s"
  "dsKind (share_maps L s lc) = dsKind s" "dsAPIVersion (share_maps L s lc) = dsAPIVersion s"
  "dssImplementation (dsSpec (share_maps L s lc)) = dssImplementation (dsSpec s)"
  by (simp_all add: share_maps_def Let_def)

lemma share_maps_lifecycle:
  "\<exists>lc'. dssLifecycleConfig (dsSpec (share_maps L s lc)) = Some lc'
     \<and> lcServicePorts lc' = lcServicePorts lc \<and> lcNetworkPolicy lc' = lcNetworkPolicy lc"
  by (simp add: share_maps_def Let_def)

lemma podLabels_lookup [simp]:
  "map_of (podLabels s lc) DatamoverSessionLabel = Some (dsName s)"
  "map_of (podLabels s lc) DatamoverSessionSelectorLabel = Some (dsName s)"
  by (simp_all add: podLabels_def update_conv')

lemma podLabels_user:
  "k \<noteq> DatamoverSessionLabel \<Longrightarrow> k \<noteq> DatamoverSessionSelectorLabel \<Longrightarrow>
   map_of (podLabels s lc) k = map_of (map_or_new (poLabels (lcPodOptions lc))) k"
  by (simp add: podLabels_def update_conv')

lemma podEnv_lookup:
  "map_of (podEnv L s lc) k =
     (if k = ProtocolsEnvVarName then Some (formatProtocolsVar L (lcServicePorts lc))
      else if k = ImplementationEnvVarName then Some (dssImplementation (dsSpec s))
      else map_of (map_or_new (dssEnv (dsSpec s))) k)"
  by (simp add: podEnv_def update_conv')

lemma distinct_podEnv: "map_wf (dssEnv (dsSpec s)) \<Longrightarrow> distinct (map fst (podEnv L s lc))"
  by (auto simp: podEnv_def map_or_new_def split: option.splits)

lemma set_envVars:
  assumes "range_order (lib_range L)" and "distinct (map fst env)"
  shows "set (envVars L env) = (\<lambda>(k, v). \<lparr>evName = k, evValue = v, evRest = zero_opaque\<rparr>) ` set env"
    and "distinct (map evName (envVars L env))"
proof -
  show "set (envVars L env) = (\<lambda>(k, v). \<lparr>evName = k, evValue = v, evRest = zero_opaque\<rparr>) ` set env"
    using set_map_range [OF assms] by (simp add: envVars_def)
  have "map evName (envVars L env) = map fst (map_range (lib_range L) env)"
    by (simp add: envVars_def split_def comp_def)
  then show "distinct (map evName (envVars L env))"
    using distinct_keys_map_range [OF assms] by simp
qed

lemma envVars_member:
  assumes "range_order (lib_range L)" and "distinct (map fst env)"
  shows "\<lparr>evName = k, evValue = v, evRest = zero_opaque\<rparr> \<in> set (envVars L env) \<longleftrightarrow> map_of env k = Some v"
  using assms(2) by (force simp: set_envVars(1) [OF assms] image_iff split_def)

lemma ref_nil_override: "nil_override_law ref_kube"
  by (simp add: nil_override_law_def)

lemma MakePodSpec_sample:
  "\<exists>pod. MakePodSpec ref_kube sample_session = (Ok pod, share_maps ref_kube sample_session sample_lifecycle)"
proof -
  have "ValidateSession sample_session = Ok ()"
    by (simp add: validate_defs Let_def api_defs)
  then show ?thesis
    using MakePodSpec_valid [of sample_session sample_lifecycle ref_kube] OverridePodSpec_nil [OF ref_nil_override]
    by auto
qed

text \<open>
  C21: The session pod is wired consistently.  A made pod has the result of the override as its
  specification: without an override, the very specification \<open>base\<close> the code builds (an
  override may change all of it).  In \<open>base\<close> the user's extra containers come first and the main
  container, with the session's image, last; the main container mounts exactly the pod's volumes
  under their own names and in their order; the one init container is the side-car, and its mount
  is one of those volumes; the pod never restarts its containers, and a service account token is
  mounted only if an account is named.
\<close>

theorem session_pod_volumes:
  assumes "nil_override_law L" and "MakePodSpec L s = (Ok pod, s')"
  shows "\<exists>lc base main. dssLifecycleConfig (dsSpec s) = Some lc \<and>
    OverridePodSpec L base (poPodOverride (lcPodOptions lc)) = Ok (podSpec pod) \<and>
    (poPodOverride (lcPodOptions lc) = None \<longrightarrow> podSpec pod = base) \<and>
    psContainers base = poExtraContainers (lcPodOptions lc) @ [main] \<and>
    ctName main = DefaultContainerName \<and> ctImage main = lcImage lc \<and>
    map vmName (ctVolumeMounts main) = map volName (psVolumes base) \<and>
    psInitContainers base = [sessionDataContainer] \<and> ctVolumeMounts sessionDataContainer \<noteq> [] \<and>
    vmName ` set (ctVolumeMounts sessionDataContainer) \<subseteq> volName ` set (psVolumes base) \<and>
    psRestartPolicy base = RestartPolicyNever \<and>
    psAutomountServiceAccountToken base = Some (poServiceAccount (lcPodOptions lc) \<noteq> [])"
proof -
  from assms(2) obtain lc where lc: "dssLifecycleConfig (dsSpec s) = Some lc"
    "OverridePodSpec L (basePodSpec L s lc) (poPodOverride (lcPodOptions lc)) = Ok (podSpec pod)"
    by (rule MakePodSpec_Ok)
  have "matched (makePodVolumes L s lc)" using pod_volumes.matched_build [of L "(s, lc)"] by simp
  moreover have "sessionDataVolumeName \<in> volName ` set (fst (makePodVolumes L s lc))"
    by (simp add: makePodVolumes_def concat_contributions_def Let_def sessionDataVolume_def)
  moreover have "poPodOverride (lcPodOptions lc) = None \<longrightarrow> podSpec pod = basePodSpec L s lc"
    using lc(2) OverridePodSpec_nil [OF assms(1)] by auto
  ultimately show ?thesis
    by (intro exI [of _ lc] exI [of _ "basePodSpec L s lc"] exI [of _ "mainContainer L s lc"] conjI lc)
      (simp_all add: basePodSpec_def mainContainer_def matched_def Let_def sessionDataContainer_def
        sessionDataVolumeMount_def)
qed

theorem session_pod_volumes_witness:
  "\<exists>pod main. fst (MakePodSpec ref_kube sample_session) = Ok pod \<and> psContainers (podSpec pod) = [main] \<and>
     map vmName (ctVolumeMounts main) = map volName (psVolumes (podSpec pod)) \<and>
     vmName ` set (ctVolumeMounts sessionDataContainer) \<subseteq> volName ` set (psVolumes (podSpec pod))"
proof -
  obtain pod where made: "MakePodSpec ref_kube sample_session
      = (Ok pod, share_maps ref_kube sample_session sample_lifecycle)"
    using MakePodSpec_sample by blast
  obtain lc base main where base: "dssLifecycleConfig (dsSpec sample_session) = Some lc"
      "poPodOverride (lcPodOptions lc) = None \<longrightarrow> podSpec pod = base"
      "psContainers base = poExtraContainers (lcPodOptions lc) @ [main]"
      "map vmName (ctVolumeMounts main) = map volName (psVolumes base)"
      "vmName ` set (ctVolumeMounts sessionDataContainer) \<subseteq> volName ` set (psVolumes base)"
    using session_pod_volumes [OF ref_nil_override made] by (elim exE conjE) (rule that)
  have "lc = sample_lifecycle" using base(1) by simp
  then have "podSpec pod = base" "psContainers base = [main]" using base(2,3) by (simp_all add: sample_options_def)
  then show ?thesis using base(4,5) made by (intro exI [of _ pod] exI [of _ main]) simp
qed

text \<open>
  C22: The environment of the session container does not depend on the order in which the map
  is visited: every variable occurs once, the two reserved variables carry the implementation
  and the protocol list whatever the user set, and every other variable is the user's.
\<close>

theorem session_pod_env:
  assumes "range_order (lib_range L)" and "map_wf (dssEnv (dsSpec s))"
  shows "distinct (map evName (ctEnv (mainContainer L s lc))) \<and>
    (\<lparr>evName = k, evValue = v, evRest = zero_opaque\<rparr> \<in> set (ctEnv (mainContainer L s lc)) \<longleftrightarrow>
       (if k = ProtocolsEnvVarName then v = formatProtocolsVar L (lcServicePorts lc)
        else if k = ImplementationEnvVarName then v = dssImplementation (dsSpec s)
        else map_of (map_or_new (dssEnv (dsSpec s))) k = Some v))"
proof -
  have d: "distinct (map fst (podEnv L s lc))" using assms(2) by (rule distinct_podEnv)
  have "\<lparr>evName = k, evValue = v, evRest = zero_opaque\<rparr> \<in> set (ctEnv (mainContainer L s lc))
      \<longleftrightarrow> map_of (podEnv L s lc) k = Some v"
    using envVars_member [OF assms(1) d] by (simp add: mainContainer_def)
  then show ?thesis
    using set_envVars(2) [OF assms(1) d] by (auto simp: mainContainer_def podEnv_lookup)
qed

theorem session_pod_env_witness:
  "\<lparr>evName = ''PROTOCOLS'', evValue = ''kopia:51515'', evRest = zero_opaque\<rparr>
     \<in> set (ctEnv (mainContainer ref_kube sample_session sample_lifecycle))"
proof -
  have fmt: "formatProtocolsVar ref_kube (lcServicePorts sample_lifecycle) = ''kopia:51515''"
    by (simp add: formatProtocolsVar_def portNumber_def sample_port_def ref_IntValue_def go_defs
        nat_digits.simps)
  have wf: "map_wf (dssEnv (dsSpec sample_session))" by simp
  show ?thesis
    using session_pod_env [OF ref_range_order wf, of sample_lifecycle "''PROTOCOLS''" "''kopia:51515''"] fmt
    by (simp add: ProtocolsEnvVarName_def)
qed

text \<open>
  Building the pod leaves marks on the session object: where the user's label map is not
  nil and the session has a name, the caller's session carries the reserved labels afterwards,
  and validating that same object again fails.
\<close>

theorem MakePodSpec_marks_session:
  assumes "MakePodSpec L s = (Ok pod, s')" and "dssLifecycleConfig (dsSpec s) = Some lc"
    and "poLabels (lcPodOptions lc) \<noteq> None" and "dsName s \<noteq> []"
  shows "\<exists>e. ValidateSession s' = Err e"
proof -
  obtain lc' where lc': "dssLifecycleConfig (dsSpec s) = Some lc'" and s': "s' = share_maps L s lc'"
    using assms(1) by (rule MakePodSpec_Ok)
  then have [simp]: "lc' = lc" using assms(2) by simp
  obtain lcn where new: "dssLifecycleConfig (dsSpec s') = Some lcn"
    "poLabels (lcPodOptions lcn) = Some (podLabels s lc)"
    using assms(3) by (auto simp: s' share_maps_def Let_def)
  then have "\<not> valid_lifecycle (dsSpec s') lcn"
    using assms(4) by (simp add: valid_lifecycle_def)
  then have "ValidateSession s' \<noteq> Ok ()" using ValidateSession_lifecycle [OF new(1)] by simp
  then show ?thesis using ValidateSession_no_panic by (cases "ValidateSession s'") auto
qed

theorem MakePodSpec_marks_session_witness:
  "\<exists>e. ValidateSession (snd (MakePodSpec ref_kube sample_session)) = Err e"
proof -
  obtain pod s' where made: "MakePodSpec ref_kube sample_session = (Ok pod, s')"
    using MakePodSpec_sample by blast
  show ?thesis using MakePodSpec_marks_session [OF made, of sample_lifecycle] made by simp
qed

section \<open>The protocol list can be read back\<close>

text \<open>A reader of the protocol list: fields separated by semicolons, name and port by a colon.\<close>

definition read_protocols :: "string \<Rightarrow> (string \<times> string) list" where
  "read_protocols v =
     (if v = [] then [] else
      map (\<lambda>f. (takeWhile (\<lambda>c. c \<noteq> CHR '':'') f, tl (dropWhile (\<lambda>c. c \<noteq> CHR '':'') f)))
        (split_at (CHR '';'') v))"

definition plain_name :: "string \<Rightarrow> bool" where
  "plain_name n \<longleftrightarrow> CHR '';'' \<notin> set n \<and> CHR '':'' \<notin> set n"

lemma read_field:
  "CHR '':'' \<notin> set n \<Longrightarrow> takeWhile (\<lambda>c. c \<noteq> CHR '':'') (n @ '':'' @ p) = n
     \<and> tl (dropWhile (\<lambda>c. c \<noteq> CHR '':'') (n @ '':'' @ p)) = p"
  by (induction n) auto

lemma Itoa_no_separator: "CHR '';'' \<notin> set (Itoa i)" "CHR '':'' \<notin> set (Itoa i)"
  using set_Itoa [of i] by auto

lemma read_protocols_fields:
  assumes "fs \<noteq> []" and "\<forall>(n, i) \<in> set fs. plain_name n"
  shows "read_protocols (Join (map (\<lambda>(n, i). n @ '':'' @ Itoa i) fs) '';'') = map (\<lambda>(n, i). (n, Itoa i)) fs"
proof -
  let ?fs = "map (\<lambda>(n, i). n @ '':'' @ Itoa i) fs"
  have split: "split_at (CHR '';'') (Join ?fs [CHR '';'']) = ?fs"
    using assms Itoa_no_separator by (intro split_at_Join) (auto simp: plain_name_def)
  moreover have "Join ?fs [CHR '';''] \<noteq> []"
    using assms(1) by (cases fs rule: list.exhaust; cases "tl fs") (auto simp: split_def)
  moreover have "map (\<lambda>f. (takeWhile (\<lambda>c. c \<noteq> CHR '':'') f, tl (dropWhile (\<lambda>c. c \<noteq> CHR '':'') f))) ?fs
      = map (\<lambda>(n, i). (n, Itoa i)) fs"
    using assms(2) read_field by (fastforce simp: plain_name_def)
  ultimately show ?thesis by (simp add: read_protocols_def)
qed

text \<open>
  C23: The protocol list the session pod receives can be read back: when no port name holds a
  separator, splitting the variable gives every port's name with the decimal number of its
  target port, or of its service port where the target port has no number, in order.
\<close>

theorem formatProtocolsVar_roundtrip:
  assumes "\<forall>p \<in> set ports. plain_name (spName p)"
  shows "read_protocols (formatProtocolsVar L ports) = map (\<lambda>p. (spName p, Itoa (portNumber L p))) ports"
proof (cases "ports = []")
  case False
  have "map (\<lambda>port. spName port @ '':'' @ Itoa (portNumber L port)) ports
      = map (\<lambda>(n, i). n @ '':'' @ Itoa i) (map (\<lambda>p. (spName p, portNumber L p)) ports)"
    by simp
  then show ?thesis
    using False assms read_protocols_fields [of "map (\<lambda>p. (spName p, portNumber L p)) ports"]
    by (auto simp: formatProtocolsVar_def comp_def)
qed (simp add: formatProtocolsVar_def read_protocols_def)

theorem formatProtocolsVar_roundtrip_witness:
  "read_protocols (formatProtocolsVar ref_kube [sample_port, sample_port\<lparr>spName := ''web''\<rparr>])
     = [(''kopia'', Itoa 51515), (''web'', Itoa 51515)]"
proof -
  have "\<forall>p \<in> set [sample_port, sample_port\<lparr>spName := ''web''\<rparr>]. plain_name (spName p)"
    by (simp add: plain_name_def sample_port_def)
  then show ?thesis
    using formatProtocolsVar_roundtrip [of "[sample_port, sample_port\<lparr>spName := ''web''\<rparr>]" ref_kube]
    by (simp add: sample_port_def portNumber_def ref_IntValue_def)
qed

end
