(* ===== verification/Ownership.thy ===== *)
theory Ownership
  imports Reference
begin

text \<open>
  Which objects belong to a session: \<open>isOwnedBy\<close> of \<open>internal/controller/state_machine.go\<close>,
  and the contract of the three functions that build objects for a session (pod, service,
  network policy).  An object that keeps the contract, once it has been given its controller
  reference, is recognised as the session's own.
\<close>

definition isOwnedBy :: "'z lib_scheme \<Rightarrow> ObjectMeta \<Rightarrow> DatamoverSession \<Rightarrow> bool" where
  "isOwnedBy L controlled owner =
     (case lib_GetControllerOf L controlled of
        None \<Rightarrow> False
      | Some controller \<Rightarrow>
          (case lib_ParseGroupVersion L (orAPIVersion controller) of
             Inl _ \<Rightarrow> False
           | Inr controllerGV \<Rightarrow>
               gvGroup controllerGV = gvGroup api_GroupVersion \<and>
               gvVersion controllerGV = gvVersion api_GroupVersion \<and>
               orKind controller = DatamoverSessionKind \<and>
               orName controller = dsName owner \<and>
               orUID controller = omUID (dsMeta owner)))"

lemma isOwnedBy_reference:
  assumes "owner_law L" and "lib_SetControllerReference L s m = Inr m'"
  shows "isOwnedBy L m' s"
proof -
  obtain c where "lib_GetControllerOf L m' = Some c"
    "orAPIVersion c = GroupVersion_String api_GroupVersion" "orKind c = DatamoverSessionKind"
    "orName c = dsName s" "orUID c = omUID (dsMeta s)"
    using assms unfolding owner_law_def by meson
  moreover have "lib_ParseGroupVersion L (GroupVersion_String api_GroupVersion) = Inr api_GroupVersion"
    using assms(1) by (simp add: owner_law_def)
  ultimately show ?thesis by (simp add: isOwnedBy_def)
qed

lemma SetControllerReference_frame:
  assumes "owner_law L" and "lib_SetControllerReference L s m = Inr m'"
  shows "omName m' = omName m" "omGenerateName m' = omGenerateName m"
    "omNamespace m' = omNamespace m" "omLabels m' = omLabels m"
proof -
  have eq: "m' = m\<lparr>omOwnerReferences := omOwnerReferences m'\<rparr>"
    using assms unfolding owner_law_def by meson
  show "omName m' = omName m" "omGenerateName m' = omGenerateName m"
    "omNamespace m' = omNamespace m" "omLabels m' = omLabels m"
    by (subst eq, simp)+
qed

text \<open>Ownership depends on the owner references and on the owner's name and UID only.\<close>

lemma isOwnedBy_cong:
  assumes "owner_law L" and "omOwnerReferences m = omOwnerReferences m'"
    and "dsName s = dsName s'" and "omUID (dsMeta s) = omUID (dsMeta s')"
  shows "isOwnedBy L m s = isOwnedBy L m' s'"
proof -
  have "lib_GetControllerOf L m = lib_GetControllerOf L m'"
    using assms(1,2) unfolding owner_law_def by blast
  then show ?thesis using assms(3,4)
    by (auto simp: isOwnedBy_def split: option.splits sum.splits)
qed

text \<open>An object has one controller: it is never owned by two sessions with different UIDs.\<close>

lemma isOwnedBy_unique:
  "isOwnedBy L m s \<Longrightarrow> isOwnedBy L m s' \<Longrightarrow> dsName s = dsName s' \<and> omUID (dsMeta s) = omUID (dsMeta s')"
  by (auto simp: isOwnedBy_def split: option.splits sum.splits)

locale session_object =
  fixes sess :: "'a \<Rightarrow> DatamoverSession" and meta_of :: "'a \<Rightarrow> ObjectMeta"
  assumes same_namespace: "omNamespace (meta_of x) = dsNamespace (sess x)"
    and session_label: "map_get (omLabels (meta_of x)) DatamoverSessionLabel = dsName (sess x)"
begin

lemma owned_when_referenced:
  assumes "owner_law L" and "lib_SetControllerReference L (sess x) (meta_of x) = Inr m'"
  shows "isOwnedBy L m' (sess x) \<and> omNamespace m' = dsNamespace (sess x)
    \<and> map_get (omLabels m') DatamoverSessionLabel = dsName (sess x)"
  using isOwnedBy_reference [OF assms] SetControllerReference_frame [OF assms]
    same_namespace session_label by simp

end

end
