(* ===== verification/Services.thy ===== *)
theory Services
  imports Pods Ownership
begin

text \<open>
  \<open>internal/controller/service.go\<close> and \<open>internal/controller/network_policy.go\<close>: the
  service in front of the session pod and the policy that admits traffic to it.
\<close>

section \<open>Service\<close>

definition GetServiceName :: "DatamoverSession \<Rightarrow> string" where
  "GetServiceName s = dsName s @ ''-service''"

definition makeServiceSpec :: "DatamoverSession \<Rightarrow> LifecycleConfig \<Rightarrow> string \<Rightarrow> Service" where
  "makeServiceSpec s lc serviceName =
     \<lparr>svcMeta = zero_meta\<lparr>omName := serviceName, omNamespace := dsNamespace s,
        omLabels := Some [(''name'', serviceName), (DatamoverSessionLabel, dsName s)]\<rparr>,
      svcPorts = lcServicePorts lc,
      svcSelector = Some [(DatamoverSessionSelectorLabel, dsName s)],
      svcClusterIP = []\<rparr>"

definition CreateService :: "'w kube \<Rightarrow> DatamoverSession \<Rightarrow> ('w, unit) kio" where
  "CreateService K s = bindK (liftK (deref_lifecycle s)) (\<lambda>lc.
     if length (lcServicePorts lc) < 1
     then errorK (NewError ''ServicePorts should be set to create service'')
     else
       let serviceName = GetServiceName s; svc = makeServiceSpec s lc serviceName in
       bindK (liftK (of_sum (lib_SetControllerReference K s (svcMeta svc)))) (\<lambda>meta.
         let svc' = svc\<lparr>svcMeta := meta\<rparr> in
         handleK (writeK (CreateServiceReq svc') (k_CreateService K svc'))
           (\<lambda>e. errorK (WrapError e ''Failed to create service''))
           returnK))"

definition DeleteService :: "'w kube \<Rightarrow> Service \<Rightarrow> ('w, unit) kio" where
  "DeleteService K svc = writeK (DeleteServiceReq svc) (k_DeleteService K svc)"

section \<open>Network policy\<close>

definition networkPolicyPorts :: "LifecycleConfig \<Rightarrow> NetworkPolicyPort list" where
  "networkPolicyPorts lc =
     map (\<lambda>port. \<lparr>nppProtocol = Some (spProtocol port), nppPort = Some (FromInt32 (spPort port))\<rparr>)
       (lcServicePorts lc)"

definition makeNetworkPolicySpec :: "DatamoverSession \<Rightarrow> LifecycleConfig \<Rightarrow> NetworkPolicy" where
  "makeNetworkPolicySpec s lc =
     \<lparr>npMeta = zero_meta\<lparr>omName := dsName s, omNamespace := dsNamespace s,
        omLabels := Some [(''name'', dsName s), (DatamoverSessionLabel, dsName s),
          (DatamoverSessionSelectorLabel, GetServiceName s)]\<rparr>,
      npPodSelector = Some [(DatamoverSessionSelectorLabel, dsName s), (DatamoverSessionLabel, dsName s)],
      npIngress = [\<lparr>npiFrom = npcFrom (lcNetworkPolicy lc), npiPorts = networkPolicyPorts lc\<rparr>]\<rparr>"

definition CreateNetworkPolicy :: "'w kube \<Rightarrow> DatamoverSession \<Rightarrow> ('w, unit) kio" where
  "CreateNetworkPolicy K s = bindK (liftK (deref_lifecycle s)) (\<lambda>lc.
     if length (lcServicePorts lc) < 1
     then errorK (NewError ''ServicePorts should be set to create a network policy'')
     else if \<not> npcEnabled (lcNetworkPolicy lc)
     then errorK (NewError ''NetworkPolicy is disabled'')
     else
       let np = makeNetworkPolicySpec s lc in
       bindK (liftK (of_sum (lib_SetControllerReference K s (npMeta np)))) (\<lambda>meta.
         let np' = np\<lparr>npMeta := meta\<rparr> in
         handleK (writeK (CreateNetworkPolicyReq np') (k_CreateNetworkPolicy K np'))
           (\<lambda>e. errorK (WrapError e ''Failed to create network policy''))
           returnK))"

text \<open>The function takes, and deletes, a service.\<close>

definition DeleteNetworkPolicy :: "'w kube \<Rightarrow> Service \<Rightarrow> ('w, unit) kio" where
  "DeleteNetworkPolicy K svc = writeK (DeleteServiceReq svc) (k_DeleteService K svc)"

section \<open>The three objects are the session's own\<close>

lemma name_not_label [simp]: "''name'' \<noteq> DatamoverSessionLabel" "DatamoverSessionLabel \<noteq> ''name''"
  "''name'' \<noteq> DatamoverSessionSelectorLabel"
  by (simp_all add: api_defs)

interpretation pod_object: session_object fst "\<lambda>(s, lc). podObjectMeta s lc"
  by unfold_locales (auto simp: podObjectMeta_def)

interpretation service_object: session_object fst "\<lambda>(s, lc). svcMeta (makeServiceSpec s lc (GetServiceName s))"
  by unfold_locales (auto simp: makeServiceSpec_def)

interpretation policy_object: session_object fst "\<lambda>(s, lc). npMeta (makeNetworkPolicySpec s lc)"
  by unfold_locales (auto simp: makeNetworkPolicySpec_def)

section \<open>Traffic reaches the session pod\<close>

text \<open>A label selector matches an object's labels when every pair of it is among them.\<close>

definition selects :: "smap option \<Rightarrow> smap \<Rightarrow> bool" where
  "selects sel labels \<longleftrightarrow> (\<forall>(k, v) \<in> set (map_or_new sel). map_of labels k = Some v)"

lemma service_selects_iff:
  "selects (svcSelector (makeServiceSpec s lc n)) (podLabels s' lc') \<longleftrightarrow> dsName s = dsName s'"
  by (auto simp: selects_def makeServiceSpec_def map_or_new_def)

lemma policy_selects_iff:
  "selects (npPodSelector (makeNetworkPolicySpec s lc)) (podLabels s' lc') \<longleftrightarrow> dsName s = dsName s'"
  by (auto simp: selects_def makeNetworkPolicySpec_def map_or_new_def)

text \<open>
  C24: Service and network policy select exactly the session's own pod: whatever labels the
  users gave, the pod built for one session is selected by the service and by the policy of a
  session if and only if the two sessions have the same name.
\<close>

theorem session_traffic:
  assumes "MakePodSpec L s' = (Ok pod, s'')"
  shows "\<exists>labels. omLabels (podMeta pod) = Some labels \<and>
    (selects (svcSelector (makeServiceSpec s lc (GetServiceName s))) labels \<longleftrightarrow> dsName s = dsName s') \<and>
    (selects (npPodSelector (makeNetworkPolicySpec s lc)) labels \<longleftrightarrow> dsName s = dsName s')"
  using assms
  by (rule MakePodSpec_Ok) (simp add: podObjectMeta_def service_selects_iff policy_selects_iff)

theorem session_traffic_witness:
  "\<exists>pod labels. fst (MakePodSpec ref_kube sample_session) = Ok pod \<and> omLabels (podMeta pod) = Some labels \<and>
     selects (svcSelector (makeServiceSpec sample_session sample_lifecycle (GetServiceName sample_session))) labels"
proof -
  obtain pod s' where made: "MakePodSpec ref_kube sample_session = (Ok pod, s')"
    using MakePodSpec_sample by blast
  show ?thesis using session_traffic [OF made, of sample_session sample_lifecycle] made by auto
qed

text \<open>
  C25: The policy admits the service ports, not the ports the pod was told to serve: it admits
  the port number given to the pod for every port exactly when each target port is absent (or
  has no number) or equals the service port; a target port that differs is not admitted.
\<close>

theorem policy_admits_pod_ports:
  "list_all2 (\<lambda>q p. nppPort q = Some (FromInt32 (spPort p)) \<and> nppProtocol q = Some (spProtocol p))
     (networkPolicyPorts lc) (lcServicePorts lc)
   \<and> (list_all2 (\<lambda>q p. \<exists>n. nppPort q = Some (FromInt32 n) \<and> sint n = portNumber L p)
        (networkPolicyPorts lc) (lcServicePorts lc)
      \<longleftrightarrow> list_all (\<lambda>p. lib_IntValue L (spTargetPort p) = 0
            \<or> lib_IntValue L (spTargetPort p) = sint (spPort p)) (lcServicePorts lc))"
  by (induction "lcServicePorts lc" arbitrary: lc)
    (auto simp: networkPolicyPorts_def list_all2_map1 list_all2_same portNumber_def Let_def list_all_iff
      split: if_splits)

end
