(* ===== verification/StateMachine.thy ===== *)
theory StateMachine
  imports Services
begin

text \<open>
  \<open>internal/controller/state_machine.go\<close> and the reconciler of
  \<open>internal/controller/datamoversession_controller.go\<close>.  A reconciliation reads the session
  and the objects it owns, classifies what it sees into a \<open>State\<close>, and performs the one
  action of that state.  Log output is left out.
\<close>

section \<open>State, resources, readiness\<close>

datatype State =
    None_State
  | Init
  | ValidationFailed
  | CreateResourcesSuccess
  | CreateResourcesInProgress
  | ReadinessWait
  | ReadinessSuccess
  | ReadinessResourcesMissing
  | ReadinessResourcesFailure
  | ReadinessFailedDirty
  | ReadinessFailedClean
  | SessionRunning
  | SessionResourcesFailure
  | SessionFailedDirty
  | SessionFailedClean

record readiness =
  rdReady :: bool
  rdData :: string

record resources =
  rsPod :: "Pod option"
  rsPodReadiness :: "readiness option"
  rsService :: "Service option"
  rsNeedService :: bool
  rsNetworkPolicy :: "NetworkPolicy option"
  rsNeedNetworkPolicy :: bool

record Result =
  resRequeue :: bool
  resRequeueAfter :: int

definition noRequeue :: Result where
  "noRequeue = \<lparr>resRequeue = False, resRequeueAfter = 0\<rparr>"

definition time_Second :: int where
  "time_Second = 1000000000"

definition requeue_wait_sec :: "int \<Rightarrow> Result" where
  "requeue_wait_sec sec = \<lparr>resRequeue = True, resRequeueAfter = time_Second * sec\<rparr>"

section \<open>Predicates on resources\<close>

definition podFailed :: "Pod \<Rightarrow> bool" where
  "podFailed pod \<longleftrightarrow> pstPhase (podStatus pod) = PodFailed"

definition podAlive :: "Pod \<Rightarrow> bool" where
  "podAlive pod \<longleftrightarrow> pstPhase (podStatus pod) = PodRunning \<or> pstPhase (podStatus pod) = PodPending"

definition podExists :: "resources \<Rightarrow> bool" where
  "podExists rs \<longleftrightarrow> rsPod rs \<noteq> None"

definition serviceOk :: "resources \<Rightarrow> bool" where
  "serviceOk rs \<longleftrightarrow> \<not> rsNeedService rs \<or> rsService rs \<noteq> None"

definition networkPolicyOk :: "resources \<Rightarrow> bool" where
  "networkPolicyOk rs \<longleftrightarrow> \<not> rsNeedNetworkPolicy rs \<or> rsNetworkPolicy rs \<noteq> None"

definition resourcesEmpty :: "resources \<Rightarrow> bool" where
  "resourcesEmpty rs \<longleftrightarrow> rsPod rs = None \<and> rsService rs = None"

definition resourcesCleanedUp :: "resources \<Rightarrow> bool" where
  "resourcesCleanedUp rs =
     (if resourcesEmpty rs then True
      else if rsService rs \<noteq> None then False
      else (case rsPod rs of Some pod \<Rightarrow> \<not> podAlive pod | None \<Rightarrow> True))"

definition resourcesExist :: "resources \<Rightarrow> bool" where
  "resourcesExist rs \<longleftrightarrow> podExists rs \<and> serviceOk rs \<and> networkPolicyOk rs"

definition resourcesReady :: "resources \<Rightarrow> bool" where
  "resourcesReady rs \<longleftrightarrow> resourcesExist rs \<and>
     (case rsPodReadiness rs of None \<Rightarrow> False | Some rd \<Rightarrow> rdReady rd)"

definition resourcesFailed :: "resources \<Rightarrow> bool" where
  "resourcesFailed rs \<longleftrightarrow> (case rsPod rs of None \<Rightarrow> False | Some pod \<Rightarrow> podFailed pod)"

section \<open>Reading the resources\<close>

definition getPod :: "'w kube \<Rightarrow> DatamoverSession \<Rightarrow> ('w, Pod option) kio" where
  "getPod K s =
     bindK (readK (k_ListPods K (dsNamespace s) DatamoverSessionLabel (dsName s))) (\<lambda>items.
       let matchingPods = filter (\<lambda>pod. isOwnedBy K (podMeta pod) s) items in
       case matchingPods of
         [] \<Rightarrow> returnK None
       | [pod] \<Rightarrow> returnK (Some pod)
       | _ \<Rightarrow> errorK (NewError (''found multiple pods for '' @ dsName s)))"

definition getService :: "'w kube \<Rightarrow> DatamoverSession \<Rightarrow> ('w, Service option) kio" where
  "getService K s =
     handleK (readK (k_GetService K (dsNamespace s) (GetServiceName s)))
       (\<lambda>e. if \<not> lib_IsNotFound K e then errorK e else returnK None)
       (\<lambda>svc. if isOwnedBy K (svcMeta svc) s then returnK (Some svc)
          else errorK (NewError (''Found service not matching owner reference of the session. Service ''
             @ GetServiceName s @ '' in namespace '' @ dsNamespace s @ '', session '' @ dsName s)))"

definition getNetworkPolicy :: "'w kube \<Rightarrow> DatamoverSession \<Rightarrow> ('w, NetworkPolicy option) kio" where
  "getNetworkPolicy K s =
     handleK (readK (k_GetNetworkPolicy K (dsNamespace s) (dsName s)))
       (\<lambda>e. if \<not> lib_IsNotFound K e then errorK e else returnK None)
       (\<lambda>np. if isOwnedBy K (npMeta np) s then returnK (Some np)
          else errorK (NewError (''Found network policy not matching owner reference of the session. In namespace ''
             @ dsNamespace s @ '', session '' @ dsName s)))"

definition getReadiness :: "'w kube \<Rightarrow> Pod \<Rightarrow> ('w, readiness) kio" where
  "getReadiness K pod =
     bindK (liftK (isPodReady pod)) (\<lambda>ready.
       if ready then
         bindK (fetchSessionData K pod) (\<lambda>data.
           case data of
             Some d \<Rightarrow> returnK \<lparr>rdReady = True, rdData = d\<rparr>
           | None \<Rightarrow> returnK \<lparr>rdReady = False, rdData = []\<rparr>)
       else returnK \<lparr>rdReady = False, rdData = []\<rparr>)"

definition getResources :: "'w kube \<Rightarrow> DatamoverSession \<Rightarrow> ('w, resources) kio" where
  "getResources K s =
     bindK (getPod K s) (\<lambda>pod.
     bindK (case pod of
              None \<Rightarrow> returnK None
            | Some p \<Rightarrow> bindK (getReadiness K p) (\<lambda>rd. returnK (Some rd))) (\<lambda>podReadiness.
     bindK (liftK (deref_lifecycle s)) (\<lambda>lc.
     let needService = length (lcServicePorts lc) > 0 in
     bindK (if needService then getService K s else returnK None) (\<lambda>service.
     let needNetworkPolicy = npcEnabled (lcNetworkPolicy lc) in
     bindK (if needNetworkPolicy then getNetworkPolicy K s else returnK None) (\<lambda>networkPolicy.
     returnK \<lparr>rsPod = pod, rsPodReadiness = podReadiness, rsService = service,
       rsNeedService = needService, rsNetworkPolicy = networkPolicy,
       rsNeedNetworkPolicy = needNetworkPolicy\<rparr>)))))"

section \<open>Classification\<close>

definition classify :: "DatamoverSession \<Rightarrow> resources \<Rightarrow> (State \<times> resources option) outcome" where
  "classify s rs =
     (if dsProgress s = ProgressNone then
        (if siSessionData (stSessionInfo (dsStatus s)) \<noteq> []
         then Err (NewError ''Invalid state. Session data should be empty if progress not set'')
         else if resourcesEmpty rs then Ok (Init, Some rs)
         else if resourcesExist rs then Ok (CreateResourcesSuccess, Some rs)
         else Ok (CreateResourcesInProgress, Some rs))
      else if dsProgress s = ProgressValidationFailed then Ok (ValidationFailed, None)
      else if dsProgress s = ProgressResourcesCreated then
        (if \<not> resourcesExist rs then Ok (ReadinessResourcesMissing, Some rs)
         else if resourcesFailed rs then Ok (ReadinessResourcesFailure, Some rs)
         else if resourcesReady rs then Ok (ReadinessSuccess, Some rs)
         else Ok (ReadinessWait, Some rs))
      else if dsProgress s = ProgressReadinessFailure then
        (if resourcesCleanedUp rs then Ok (ReadinessFailedClean, Some rs)
         else Ok (ReadinessFailedDirty, Some rs))
      else if dsProgress s = ProgressReady then
        (if \<not> resourcesExist rs then Ok (SessionResourcesFailure, Some rs)
         else if resourcesFailed rs then Ok (SessionResourcesFailure, Some rs)
         else if resourcesReady rs then Ok (SessionRunning, Some rs)
         else Err (NewError ''Invalid state. Resources should be failed or ready in ready state''))
      else if dsProgress s = ProgressSessionFailure then
        (if resourcesCleanedUp rs then Ok (SessionFailedClean, Some rs)
         else Ok (SessionFailedDirty, Some rs))
      else Err (NewError (''Invalid state. Unknown state progress: '' @ dsProgress s)))"

definition GetState :: "'w kube \<Rightarrow> DatamoverSession \<Rightarrow> ('w, State \<times> resources option) kio" where
  "GetState K s =
     handleK (getResources K s)
       (\<lambda>e. errorK (WrapError e ''Error while getting resources''))
       (\<lambda>rs. liftK (classify s rs))"

section \<open>Actions\<close>

definition deref_resources :: "resources option \<Rightarrow> resources outcome" where
  "deref_resources r = (case r of None \<Rightarrow> Panic ''nil pointer dereference: resources'' | Some rs \<Rightarrow> Ok rs)"

definition CreateResources :: "'w kube \<Rightarrow> DatamoverSession \<Rightarrow> resources option \<Rightarrow> ('w, unit) kio" where
  "CreateResources K s r =
     bindK (liftK (deref_resources r)) (\<lambda>rs.
     bindK (if rsPod rs = None then CreatePod K s else returnK s) (\<lambda>s1.
     bindK (if rsService rs = None \<and> rsNeedService rs then CreateService K s1 else returnK ()) (\<lambda>_.
     bindK (if rsNetworkPolicy rs = None \<and> rsNeedNetworkPolicy rs
            then CreateNetworkPolicy K s1 else returnK ()) (\<lambda>_.
     returnK ()))))"

definition tryCreateResources :: "'w kube \<Rightarrow> DatamoverSession \<Rightarrow> resources option \<Rightarrow> ('w, unit) kio" where
  "tryCreateResources K s r =
     handleK (CreateResources K s r)
       (\<lambda>e. if lib_IsAlreadyExists K e then returnK () else errorK e)
       returnK"

definition CleanupService :: "'w kube \<Rightarrow> DatamoverSession \<Rightarrow> resources option \<Rightarrow> ('w, unit) kio" where
  "CleanupService K s r =
     (case r of
        None \<Rightarrow> returnK ()
      | Some rs \<Rightarrow> (case rsService rs of None \<Rightarrow> returnK () | Some svc \<Rightarrow> DeleteService K svc))"

definition CleanupPod :: "'w kube \<Rightarrow> DatamoverSession \<Rightarrow> resources option \<Rightarrow> ('w, unit) kio" where
  "CleanupPod K s r =
     (case r of
        None \<Rightarrow> returnK ()
      | Some rs \<Rightarrow> (case rsPod rs of None \<Rightarrow> returnK () | Some pod \<Rightarrow> DeletePod K pod))"

definition statusUpdate :: "'w kube \<Rightarrow> DatamoverSession \<Rightarrow> ('w, unit) kio" where
  "statusUpdate K s = writeK (StatusUpdateReq s) (k_StatusUpdate K s)"

definition set_progress :: "DatamoverSession \<Rightarrow> DatamoverSessionProgress \<Rightarrow> DatamoverSession" where
  "set_progress s p = s\<lparr>dsStatus := (dsStatus s)\<lparr>stProgress := p\<rparr>\<rparr>"

definition set_info :: "DatamoverSession \<Rightarrow> SessionInfo \<Rightarrow> DatamoverSession" where
  "set_info s i = s\<lparr>dsStatus := (dsStatus s)\<lparr>stSessionInfo := i\<rparr>\<rparr>"

definition UpdateStatus :: "'w kube \<Rightarrow> DatamoverSession \<Rightarrow> DatamoverSessionProgress \<Rightarrow> ('w, unit) kio" where
  "UpdateStatus K s status = statusUpdate K (set_progress s status)"

definition serviceNameOf :: "Service option \<Rightarrow> string \<Rightarrow> string" where
  "serviceNameOf svc dflt = (case svc of None \<Rightarrow> dflt | Some x \<Rightarrow> omName (svcMeta x))"

definition UpdateStatusResources ::
  "'w kube \<Rightarrow> DatamoverSession \<Rightarrow> DatamoverSessionProgress \<Rightarrow> resources \<Rightarrow> ('w, unit) kio" where
  "UpdateStatusResources K s status rs =
     (let serviceName = serviceNameOf (rsService rs) [] in
      case rsPod rs of
        None \<Rightarrow> errorK (NewError ''Invalid state. Pod should exist at this point'')
      | Some pod \<Rightarrow> statusUpdate K (set_info (set_progress s status)
          \<lparr>siPodName = omName (podMeta pod), siServiceName = serviceName,
           siSessionData = [], siPodErrors = []\<rparr>))"

definition UpdateStatusFailure ::
  "'w kube \<Rightarrow> DatamoverSession \<Rightarrow> DatamoverSessionProgress \<Rightarrow> resources option \<Rightarrow> ('w, unit) kio" where
  "UpdateStatusFailure K s status r =
     (let info = stSessionInfo (dsStatus s);
          serviceName = (case r of None \<Rightarrow> siServiceName info
            | Some rs \<Rightarrow> serviceNameOf (rsService rs) (siServiceName info));
          pod = (case r of None \<Rightarrow> None | Some rs \<Rightarrow> rsPod rs)
      in bindK (case pod of
                  None \<Rightarrow> returnK (siPodName info, siPodErrors info)
                | Some p \<Rightarrow> bindK (getPodErrors K (omName (podMeta p)) (dsNamespace s)) (\<lambda>(podErrors, err).
                    returnK (omName (podMeta p), podErrors))) (\<lambda>(podName, podErrors).
         statusUpdate K (set_info (set_progress s status)
           (info\<lparr>siPodName := podName, siServiceName := serviceName, siPodErrors := podErrors\<rparr>))))"

definition UpdateStatusData ::
  "'w kube \<Rightarrow> DatamoverSession \<Rightarrow> DatamoverSessionProgress \<Rightarrow> resources \<Rightarrow> ('w, unit) kio" where
  "UpdateStatusData K s status rs =
     (case rsPodReadiness rs of
        None \<Rightarrow> errorK (NewError ''Invalid state. PodReadiness cannot be empty at this point'')
      | Some rd \<Rightarrow>
          let serviceName = serviceNameOf (rsService rs) [] in
          (case rsPod rs of
             None \<Rightarrow> panicK ''nil pointer dereference: pod''
           | Some pod \<Rightarrow> statusUpdate K (set_info (set_progress s status)
               \<lparr>siPodName = omName (podMeta pod), siServiceName = serviceName,
                siSessionData = rdData rd, siPodErrors = []\<rparr>)))"

section \<open>One reconciliation\<close>

definition act :: "'w kube \<Rightarrow> DatamoverSession \<Rightarrow> State \<Rightarrow> resources option \<Rightarrow> ('w, Result) kio" where
  "act K s state r =
     (case state of
        Init \<Rightarrow>
          (case ValidateSession s of
             Panic m \<Rightarrow> panicK m
           | Err e \<Rightarrow> bindK (UpdateStatus K s ProgressValidationFailed) (\<lambda>_. returnK noRequeue)
           | Ok _ \<Rightarrow> bindK (tryCreateResources K s r) (\<lambda>_. returnK (requeue_wait_sec 20)))
      | ValidationFailed \<Rightarrow> returnK noRequeue
      | CreateResourcesInProgress \<Rightarrow> bindK (tryCreateResources K s r) (\<lambda>_. returnK noRequeue)
      | CreateResourcesSuccess \<Rightarrow>
          bindK (liftK (deref_resources r)) (\<lambda>rs.
          bindK (UpdateStatusResources K s ProgressResourcesCreated rs) (\<lambda>_. returnK noRequeue))
      | ReadinessWait \<Rightarrow> returnK (requeue_wait_sec 20)
      | ReadinessResourcesMissing \<Rightarrow> bindK (UpdateStatus K s ProgressReadinessFailure) (\<lambda>_. returnK noRequeue)
      | ReadinessResourcesFailure \<Rightarrow>
          bindK (UpdateStatusFailure K s ProgressReadinessFailure r) (\<lambda>_. returnK noRequeue)
      | ReadinessFailedDirty \<Rightarrow> bindK (CleanupService K s r) (\<lambda>_. returnK noRequeue)
      | ReadinessFailedClean \<Rightarrow> returnK noRequeue
      | ReadinessSuccess \<Rightarrow>
          (case r of
             None \<Rightarrow> errorK (NewError ''Invalid state. Resources cannot be empty in ReadinessSuccess'')
           | Some rs \<Rightarrow> bindK (UpdateStatusData K s ProgressReady rs) (\<lambda>_. returnK noRequeue))
      | SessionRunning \<Rightarrow> returnK noRequeue
      | SessionResourcesFailure \<Rightarrow>
          bindK (UpdateStatusFailure K s ProgressSessionFailure r) (\<lambda>_. returnK noRequeue)
      | SessionFailedDirty \<Rightarrow> bindK (CleanupService K s r) (\<lambda>_. returnK noRequeue)
      | SessionFailedClean \<Rightarrow> returnK noRequeue
      | None_State \<Rightarrow>
          errorK (NewError ''Invalid state. Unknown state None. Should have returned an error from GetState''))"

definition Run :: "'w kube \<Rightarrow> DatamoverSession \<Rightarrow> ('w, Result) kio" where
  "Run K s = bindK (GetState K s) (\<lambda>(state, r). act K s state r)"

definition Reconcile :: "'w kube \<Rightarrow> string \<Rightarrow> string \<Rightarrow> ('w, Result) kio" where
  "Reconcile K ns name =
     handleK (readK (k_GetSession K ns name))
       (\<lambda>e. if lib_IsNotFound K e then returnK noRequeue else errorK e)
       (\<lambda>s. if dssLifecycleConfig (dsSpec s) \<noteq> None then Run K s else returnK noRequeue)"

end
