(* ===== verification/Lifecycle.thy ===== *)
theory Lifecycle
  imports StateMachine
begin

text \<open>
  Facts about one reconciliation, for every behaviour of the cluster between and during its
  calls: which requests it issues, what it returns, when it panics, and what the resources it
  reads are.
\<close>

section \<open>Reads\<close>

text \<open>A predicate of the cluster that no read changes, and one that no object write changes.\<close>

definition reads_keep :: "'w kube \<Rightarrow> ('w \<Rightarrow> bool) \<Rightarrow> bool" where
  "reads_keep K I \<longleftrightarrow>
     (\<forall>ns n. op_keeps I (k_GetSession K ns n) \<and> op_keeps I (k_GetPod K ns n) \<and>
        op_keeps I (k_GetService K ns n) \<and> op_keeps I (k_GetNetworkPolicy K ns n)) \<and>
     (\<forall>ns k v. op_keeps I (k_ListPods K ns k v)) \<and>
     (\<forall>ns n ct. op_keeps I (k_StreamLogs K ns n ct))"

definition objects_keep :: "'w kube \<Rightarrow> ('w \<Rightarrow> bool) \<Rightarrow> bool" where
  "objects_keep K I \<longleftrightarrow>
     (\<forall>p. op_keeps I (k_CreatePod K p) \<and> op_keeps I (k_DeletePod K p)) \<and>
     (\<forall>svc. op_keeps I (k_CreateService K svc) \<and> op_keeps I (k_DeleteService K svc)) \<and>
     (\<forall>np. op_keeps I (k_CreateNetworkPolicy K np))"

lemma reads_keepD:
  assumes "reads_keep K I"
  shows "op_keeps I (k_GetSession K ns n)" "op_keeps I (k_GetPod K ns n)"
    "op_keeps I (k_GetService K ns n)" "op_keeps I (k_GetNetworkPolicy K ns n)"
    "op_keeps I (k_ListPods K ns k v)" "op_keeps I (k_StreamLogs K ns n ct)"
  using assms by (auto simp: reads_keep_def)

lemma objects_keepD:
  assumes "objects_keep K I"
  shows "op_keeps I (k_CreatePod K p)" "op_keeps I (k_DeletePod K p)"
    "op_keeps I (k_CreateService K svc)" "op_keeps I (k_DeleteService K svc)"
    "op_keeps I (k_CreateNetworkPolicy K np)"
  using assms by (auto simp: objects_keep_def)

lemma silent_logs [run_intro]:
  "silent (getContainerLogsReader K p ns ct)" "silent (getContainerLogs K p ns ct)"
  "silent (fetchFromStatuses K pod sts)" "silent (fetchSessionData K pod)"
proof -
  show reader: "silent (getContainerLogsReader K p ns ct)" for p ns ct
    unfolding getContainerLogsReader_def by (intro run_intro)
  show logs: "silent (getContainerLogs K p ns ct)" for p ns ct
    unfolding getContainerLogs_def by (intro run_intro reader)
  show fetch: "silent (fetchFromStatuses K pod sts)" for sts
    by (induction sts) (auto intro!: run_intro logs)
  show "silent (fetchSessionData K pod)"
    unfolding fetchSessionData_def fetchSessionDataUsingSidecar_def by (rule fetch)
qed

lemma keeps_logs:
  assumes "reads_keep K I"
  shows "keeps I (getContainerLogsReader K p ns ct)" "keeps I (getContainerLogs K p ns ct)"
    "keeps I (fetchFromStatuses K pod sts)" "keeps I (fetchSessionData K pod)"
proof -
  note [run_intro] = reads_keepD [OF assms]
  show reader: "keeps I (getContainerLogsReader K p ns ct)" for p ns ct
    unfolding getContainerLogsReader_def by (intro run_intro)
  show logs: "keeps I (getContainerLogs K p ns ct)" for p ns ct
    unfolding getContainerLogs_def by (intro run_intro reader)
  show fetch: "keeps I (fetchFromStatuses K pod sts)" for sts
    by (induction sts) (auto intro!: run_intro logs)
  show "keeps I (fetchSessionData K pod)"
    unfolding fetchSessionData_def fetchSessionDataUsingSidecar_def by (rule fetch)
qed

lemma silent_getPodErrors [run_intro]: "silent (getPodErrors K n ns)"
  unfolding getPodErrors_def Let_def by (intro run_intro)

lemma keeps_getPodErrors: "reads_keep K I \<Longrightarrow> keeps I (getPodErrors K n ns)"
  unfolding getPodErrors_def Let_def by (intro run_intro keeps_logs reads_keepD)

lemma silent_gets [run_intro]:
  "silent (getPod K s)" "silent (getService K s)" "silent (getNetworkPolicy K s)" "silent (getReadiness K pod)"
proof -
  show "silent (getPod K s)"
    unfolding getPod_def Let_def by (intro run_intro) (auto intro: run_intro split: list.splits)
  show "silent (getService K s)" unfolding getService_def by (intro run_intro)
  show "silent (getNetworkPolicy K s)" unfolding getNetworkPolicy_def by (intro run_intro)
  show "silent (getReadiness K pod)" unfolding getReadiness_def by (intro run_intro)
qed

lemma keeps_gets:
  assumes "reads_keep K I"
  shows "keeps I (getPod K s)" "keeps I (getService K s)" "keeps I (getNetworkPolicy K s)"
    "keeps I (getReadiness K pod)"
proof -
  note [run_intro] = reads_keepD [OF assms] keeps_logs [OF assms]
  show "keeps I (getPod K s)"
    unfolding getPod_def Let_def by (intro run_intro) (auto intro: run_intro split: list.splits)
  show "keeps I (getService K s)" unfolding getService_def by (intro run_intro)
  show "keeps I (getNetworkPolicy K s)" unfolding getNetworkPolicy_def by (intro run_intro)
  show "keeps I (getReadiness K pod)" unfolding getReadiness_def by (intro run_intro)
qed

lemma silent_getResources [run_intro]: "silent (getResources K s)" "silent (GetState K s)"
proof -
  show "silent (getResources K s)"
    unfolding getResources_def Let_def by (intro run_intro)
  then show "silent (GetState K s)"
    unfolding GetState_def by (intro run_intro)
qed

lemma keeps_getResources:
  assumes "reads_keep K I"
  shows "keeps I (getResources K s)" "keeps I (GetState K s)"
proof -
  note [run_intro] = keeps_gets [OF assms]
  show "keeps I (getResources K s)"
    unfolding getResources_def Let_def by (intro run_intro)
  then show "keeps I (GetState K s)"
    unfolding GetState_def by (intro run_intro)
qed

section \<open>What the resources are\<close>

text \<open>The pod's side-car log was read and framed exactly the data \<open>d\<close>.\<close>

definition published :: "'w kube \<Rightarrow> Pod \<Rightarrow> string \<Rightarrow> bool" where
  "published K pod d \<longleftrightarrow> (\<exists>c ls c'.
     k_StreamLogs K (omNamespace (podMeta pod)) (omName (podMeta pod)) sessionDataContainerName c = (Inr ls, c')
     \<and> \<not> lsFails ls \<and> getDataFromLogs (lsData ls) = Ok (Some d))"

definition resources_wf :: "'w kube \<Rightarrow> DatamoverSession \<Rightarrow> resources \<Rightarrow> bool" where
  "resources_wf K s rs \<longleftrightarrow>
     (\<forall>p. rsPod rs = Some p \<longrightarrow> isOwnedBy K (podMeta p) s) \<and>
     (rsPodReadiness rs = None \<longleftrightarrow> rsPod rs = None) \<and>
     (\<forall>p rd. rsPod rs = Some p \<longrightarrow> rsPodReadiness rs = Some rd \<longrightarrow> rdReady rd \<longrightarrow>
        isPodReady p = Ok True \<and> published K p (rdData rd)) \<and>
     (\<forall>svc. rsService rs = Some svc \<longrightarrow> rsNeedService rs \<and> isOwnedBy K (svcMeta svc) s) \<and>
     (\<forall>np. rsNetworkPolicy rs = Some np \<longrightarrow> rsNeedNetworkPolicy rs \<and> isOwnedBy K (npMeta np) s) \<and>
     (\<exists>lc. dssLifecycleConfig (dsSpec s) = Some lc \<and> rsNeedService rs = (lcServicePorts lc \<noteq> []) \<and>
        rsNeedNetworkPolicy rs = npcEnabled (lcNetworkPolicy lc))"

lemma returns_getPod: "returns (getPod K s) (\<lambda>r. \<forall>p. r = Some p \<longrightarrow> isOwnedBy K (podMeta p) s)"
  unfolding getPod_def Let_def
proof (rule returns_bind [OF returns_True])
  fix items
  let ?m = "filter (\<lambda>pod. isOwnedBy K (podMeta pod) s) items"
  have "\<forall>p \<in> set ?m. isOwnedBy K (podMeta p) s" by simp
  then show "returns (case ?m of [] \<Rightarrow> returnK None | [pod] \<Rightarrow> returnK (Some pod)
      | _ \<Rightarrow> errorK (NewError (''found multiple pods for '' @ dsName s)))
      (\<lambda>r. \<forall>p. r = Some p \<longrightarrow> isOwnedBy K (podMeta p) s)"
    by (cases ?m rule: remdups_adj.cases) (auto intro: returns_basic)
qed

lemma returns_getService:
  "returns (getService K s) (\<lambda>r. \<forall>x. r = Some x \<longrightarrow> isOwnedBy K (svcMeta x) s)"
  unfolding getService_def by (rule returns_handle [OF returns_True]) (auto intro: returns_basic)

lemma returns_getNetworkPolicy:
  "returns (getNetworkPolicy K s) (\<lambda>r. \<forall>x. r = Some x \<longrightarrow> isOwnedBy K (npMeta x) s)"
  unfolding getNetworkPolicy_def by (rule returns_handle [OF returns_True]) (auto intro: returns_basic)

lemma getContainerLogs_Ok:
  assumes "getContainerLogs K n ns ct w = (Ok logs, w')"
  shows "\<exists>c ls c'. k_StreamLogs K ns n ct c = (Inr ls, c') \<and> \<not> lsFails ls \<and> logs = lsData ls"
  using assms
  by (auto simp: getContainerLogs_def getContainerLogsReader_def kio_defs
      split: sum.splits prod.splits outcome.splits if_splits)

lemma returns_fetch:
  "returns (fetchFromStatuses K pod sts) (\<lambda>r. \<forall>d. r = Some d \<longrightarrow> published K pod d)"
proof (induction sts)
  case Nil
  then show ?case by (auto intro: returns_basic)
next
  case (Cons st sts)
  let ?A = "\<lambda>logs. \<exists>c ls c'. k_StreamLogs K (omNamespace (podMeta pod)) (omName (podMeta pod))
      sessionDataContainerName c = (Inr ls, c') \<and> \<not> lsFails ls \<and> logs = lsData ls"
  have "returns (getContainerLogs K (omName (podMeta pod)) (omNamespace (podMeta pod)) sessionDataContainerName) ?A"
    using getContainerLogs_Ok unfolding returns_def by blast
  then have "returns (handleK (getContainerLogs K (omName (podMeta pod)) (omNamespace (podMeta pod)) sessionDataContainerName)
      (\<lambda>e. errorK (WrapError e ''Failed to read pod logs'')) (\<lambda>logs. liftK (getDataFromLogs logs)))
      (\<lambda>r. \<forall>d. r = Some d \<longrightarrow> published K pod d)"
    by (rule returns_handle) (auto intro!: returns_basic simp: published_def)
  with Cons show ?case by simp
qed

lemma returns_getReadiness:
  "returns (getReadiness K pod) (\<lambda>rd. rdReady rd \<longrightarrow> isPodReady pod = Ok True \<and> published K pod (rdData rd))"
  unfolding getReadiness_def
proof (rule returns_bind [where A = "\<lambda>b. isPodReady pod = Ok b"])
  show "returns (liftK (isPodReady pod)) (\<lambda>b. isPodReady pod = Ok b)" by (auto intro: returns_basic)
next
  fix ready assume ready: "isPodReady pod = Ok ready"
  have "returns (fetchSessionData K pod) (\<lambda>r. \<forall>d. r = Some d \<longrightarrow> published K pod d)"
    unfolding fetchSessionData_def fetchSessionDataUsingSidecar_def by (rule returns_fetch)
  then show "returns (if ready then bindK (fetchSessionData K pod) (\<lambda>data. case data of
        Some d \<Rightarrow> returnK \<lparr>rdReady = True, rdData = d\<rparr> | None \<Rightarrow> returnK \<lparr>rdReady = False, rdData = []\<rparr>)
      else returnK \<lparr>rdReady = False, rdData = []\<rparr>)
      (\<lambda>rd. rdReady rd \<longrightarrow> isPodReady pod = Ok True \<and> published K pod (rdData rd))"
    using ready by (auto intro!: returns_bind returns_basic split: option.splits)
qed

lemma returns_getResources: "returns (getResources K s) (resources_wf K s)"
  unfolding getResources_def Let_def
proof (rule returns_bind [OF returns_getPod])
  fix pod :: "Pod option" assume pod: "\<forall>p. pod = Some p \<longrightarrow> isOwnedBy K (podMeta p) s"
  let ?R = "\<lambda>rd. (rd = None \<longleftrightarrow> pod = None) \<and>
    (\<forall>p x. pod = Some p \<longrightarrow> rd = Some x \<longrightarrow> rdReady x \<longrightarrow> isPodReady p = Ok True \<and> published K p (rdData x))"
  let ?rest = "\<lambda>podReadiness. bindK (liftK (deref_lifecycle s)) (\<lambda>lc.
     bindK (if 0 < length (lcServicePorts lc) then getService K s else returnK None) (\<lambda>service.
     bindK (if npcEnabled (lcNetworkPolicy lc) then getNetworkPolicy K s else returnK None) (\<lambda>networkPolicy.
     returnK \<lparr>rsPod = pod, rsPodReadiness = podReadiness, rsService = service,
       rsNeedService = 0 < length (lcServicePorts lc), rsNetworkPolicy = networkPolicy,
       rsNeedNetworkPolicy = npcEnabled (lcNetworkPolicy lc)\<rparr>)))"
  have "returns (case pod of None \<Rightarrow> returnK None
      | Some p \<Rightarrow> bindK (getReadiness K p) (\<lambda>rd. returnK (Some rd))) ?R"
    by (auto intro!: returns_basic returns_bind [OF returns_getReadiness] split: option.splits)
  moreover have "returns (?rest rd) (resources_wf K s)" if rd: "?R rd" for rd
  proof (rule returns_bind [where A = "\<lambda>lc. dssLifecycleConfig (dsSpec s) = Some lc"])
    show "returns (liftK (deref_lifecycle s)) (\<lambda>lc. dssLifecycleConfig (dsSpec s) = Some lc)"
      by (auto intro!: returns_basic simp: deref_lifecycle_def split: option.splits)
  next
    fix lc assume lc: "dssLifecycleConfig (dsSpec s) = Some lc"
    let ?S = "\<lambda>x. \<forall>svc. x = Some svc \<longrightarrow> lcServicePorts lc \<noteq> [] \<and> isOwnedBy K (svcMeta svc) s"
    let ?N = "\<lambda>x. \<forall>np. x = Some np \<longrightarrow> npcEnabled (lcNetworkPolicy lc) \<and> isOwnedBy K (npMeta np) s"
    have svc: "returns (if 0 < length (lcServicePorts lc) then getService K s else returnK None) ?S"
      using returns_getService [of K s] by (auto simp: returns_def returnK_def)
    have np: "returns (if npcEnabled (lcNetworkPolicy lc) then getNetworkPolicy K s else returnK None) ?N"
      using returns_getNetworkPolicy [of K s] by (auto simp: returns_def returnK_def)
    show "returns (bindK (if 0 < length (lcServicePorts lc) then getService K s else returnK None) (\<lambda>service.
       bindK (if npcEnabled (lcNetworkPolicy lc) then getNetworkPolicy K s else returnK None) (\<lambda>networkPolicy.
       returnK \<lparr>rsPod = pod, rsPodReadiness = rd, rsService = service,
         rsNeedService = 0 < length (lcServicePorts lc), rsNetworkPolicy = networkPolicy,
         rsNeedNetworkPolicy = npcEnabled (lcNetworkPolicy lc)\<rparr>))) (resources_wf K s)"
      by (rule returns_bind [OF svc], rule returns_bind [OF np], rule returns_basic)
        (use pod rd lc in \<open>auto simp: resources_wf_def\<close>)
  qed
  ultimately show "returns (bindK (case pod of None \<Rightarrow> returnK None
      | Some p \<Rightarrow> bindK (getReadiness K p) (\<lambda>rd. returnK (Some rd))) ?rest) (resources_wf K s)"
    by (rule returns_bind)
qed

lemma GetState_Ok_iff:
  "GetState K s w = (Ok (st, r), w') \<longleftrightarrow>
     (\<exists>rs. getResources K s w = (Ok rs, w') \<and> classify s rs = Ok (st, r))"
  by (auto simp: GetState_def handleK_def errorK_def liftK_def split: prod.splits outcome.splits)

lemma classify_resources:
  "classify s rs = Ok (st, r) \<Longrightarrow> r = None \<and> st = ValidationFailed \<or> r = Some rs"
  by (auto simp: classify_def split: if_splits)

lemma classify_not_None_State: "classify s rs = Ok (st, r) \<Longrightarrow> st \<noteq> None_State"
  by (auto simp: classify_def split: if_splits)

lemma classify_not_Panic [simp]: "classify s rs \<noteq> Panic m"
  by (auto simp: classify_def)

section \<open>The lifecycle graph\<close>

inductive progress_edge :: "DatamoverSessionProgress \<Rightarrow> DatamoverSessionProgress \<Rightarrow> bool" where
  reject: "progress_edge ProgressNone ProgressValidationFailed"
| create: "progress_edge ProgressNone ProgressResourcesCreated"
| lose: "progress_edge ProgressResourcesCreated ProgressReadinessFailure"
| serve: "progress_edge ProgressResourcesCreated ProgressReady"
| break: "progress_edge ProgressReady ProgressSessionFailure"

inductive_simps progress_edge_simps:
  "progress_edge ProgressValidationFailed p" "progress_edge ProgressReadinessFailure p"
  "progress_edge ProgressSessionFailure p" "progress_edge p ProgressNone" "progress_edge ProgressReady p"
  "progress_edge ProgressResourcesCreated p" "progress_edge ProgressNone p"

declare progress_edge_simps [simp]

text \<open>
  The same graph on whole statuses.  Session data appears only on the way to \<open>Ready\<close> and is
  kept when a session fails; pod errors are cleared on the way up.
\<close>

inductive status_edge :: "DatamoverSessionStatus \<Rightarrow> DatamoverSessionStatus \<Rightarrow> bool" where
  reject: "stProgress a = ProgressNone \<Longrightarrow> b = a\<lparr>stProgress := ProgressValidationFailed\<rparr> \<Longrightarrow> status_edge a b"
| create: "stProgress a = ProgressNone \<Longrightarrow> stProgress b = ProgressResourcesCreated \<Longrightarrow>
    siSessionData (stSessionInfo b) = [] \<Longrightarrow> siPodErrors (stSessionInfo b) = [] \<Longrightarrow> status_edge a b"
| lose: "stProgress a = ProgressResourcesCreated \<Longrightarrow> stProgress b = ProgressReadinessFailure \<Longrightarrow>
    siSessionData (stSessionInfo b) = siSessionData (stSessionInfo a) \<Longrightarrow> status_edge a b"
| serve: "stProgress a = ProgressResourcesCreated \<Longrightarrow> stProgress b = ProgressReady \<Longrightarrow>
    siPodErrors (stSessionInfo b) = [] \<Longrightarrow> status_edge a b"
| break: "stProgress a = ProgressReady \<Longrightarrow> stProgress b = ProgressSessionFailure \<Longrightarrow>
    siSessionData (stSessionInfo b) = siSessionData (stSessionInfo a) \<Longrightarrow> status_edge a b"

lemma status_edge_progress: "status_edge a b \<Longrightarrow> progress_edge (stProgress a) (stProgress b)"
  by (induction rule: status_edge.induct) (auto intro: progress_edge.intros)

lemma classify_progress:
  assumes "classify s rs = Ok (st, r)"
  shows "st \<in> {Init, CreateResourcesSuccess, CreateResourcesInProgress} \<longleftrightarrow> dsProgress s = ProgressNone"
    "st = ValidationFailed \<longleftrightarrow> dsProgress s = ProgressValidationFailed"
    "st \<in> {ReadinessResourcesMissing, ReadinessResourcesFailure, ReadinessSuccess, ReadinessWait}
       \<longleftrightarrow> dsProgress s = ProgressResourcesCreated"
    "st \<in> {ReadinessFailedClean, ReadinessFailedDirty} \<longleftrightarrow> dsProgress s = ProgressReadinessFailure"
    "st \<in> {SessionResourcesFailure, SessionRunning} \<longleftrightarrow> dsProgress s = ProgressReady"
    "st \<in> {SessionFailedClean, SessionFailedDirty} \<longleftrightarrow> dsProgress s = ProgressSessionFailure"
  using assms by (auto simp: classify_def split: if_splits)

section \<open>The requests of a reconciliation\<close>

definition emits :: "('w, 'a) kio \<Rightarrow> ('a outcome \<Rightarrow> request list \<Rightarrow> bool) \<Rightarrow> bool" where
  "emits m Q \<longleftrightarrow> (\<forall>w r w'. m w = (r, w') \<longrightarrow> (\<exists>qs. requests w' = requests w @ qs \<and> Q r qs))"

lemma emitsD: "emits m Q \<Longrightarrow> m w = (r, w') \<Longrightarrow> \<exists>qs. requests w' = requests w @ qs \<and> Q r qs"
  by (auto simp: emits_def)

lemma emits_silent: "silent m \<Longrightarrow> (\<And>r. Q r []) \<Longrightarrow> emits m Q"
  by (auto simp: emits_def silent_def)

lemma emits_write: "(\<And>r. Q r [q]) \<Longrightarrow> emits (writeK q f) Q"
  by (auto simp: emits_def writeK_def split: prod.splits)

lemma emits_mono: "emits m A \<Longrightarrow> (\<And>r qs. A r qs \<Longrightarrow> Q r qs) \<Longrightarrow> emits m Q"
  by (fastforce simp: emits_def)

lemma emits_bind:
  assumes "emits m A" and "\<And>x. emits (f x) (B x)"
    and "\<And>x q1 r q2. A (Ok x) q1 \<Longrightarrow> B x r q2 \<Longrightarrow> Q r (q1 @ q2)"
    and "\<And>e q. A (Err e) q \<Longrightarrow> Q (Err e) q" and "\<And>p q. A (Panic p) q \<Longrightarrow> Q (Panic p) q"
  shows "emits (bindK m f) Q"
  unfolding emits_def
proof (intro allI impI)
  fix w r w' assume run: "bindK m f w = (r, w')"
  show "\<exists>qs. requests w' = requests w @ qs \<and> Q r qs"
  proof (cases m w f rule: bindK_cases)
    case (Ok x v)
    then have "f x v = (r, w')" using run by simp
    then show ?thesis using emitsD [OF assms(1) Ok(1)] emitsD [OF assms(2)] assms(3) by fastforce
  next
    case (Err e v)
    then show ?thesis using emitsD [OF assms(1) Err(1)] assms(4) run by auto
  next
    case (Panic p v)
    then show ?thesis using emitsD [OF assms(1) Panic(1)] assms(5) run by auto
  qed
qed

lemma emits_handle:
  assumes "emits m A" and "\<And>e. emits (h e) (H e)" and "\<And>x. emits (f x) (B x)"
    and "\<And>x q1 r q2. A (Ok x) q1 \<Longrightarrow> B x r q2 \<Longrightarrow> Q r (q1 @ q2)"
    and "\<And>e q1 r q2. A (Err e) q1 \<Longrightarrow> H e r q2 \<Longrightarrow> Q r (q1 @ q2)" and "\<And>p q. A (Panic p) q \<Longrightarrow> Q (Panic p) q"
  shows "emits (handleK m h f) Q"
  unfolding emits_def
proof (intro allI impI)
  fix w r w' assume run: "handleK m h f w = (r, w')"
  obtain o1 v where mv: "m w = (o1, v)" by force
  obtain q1 where q1: "requests v = requests w @ q1" "A o1 q1" using emitsD [OF assms(1) mv] by blast
  show "\<exists>qs. requests w' = requests w @ qs \<and> Q r qs"
  proof (cases o1)
    case (Ok x)
    then have "f x v = (r, w')" using run mv by (simp add: handleK_def)
    then show ?thesis using emitsD [OF assms(3)] assms(4) q1 Ok by fastforce
  next
    case (Err e)
    then have "h e v = (r, w')" using run mv by (simp add: handleK_def)
    then show ?thesis using emitsD [OF assms(2)] assms(5) q1 Err by fastforce
  next
    case (Panic p)
    then show ?thesis using run mv q1 assms(6) by (auto simp: handleK_def)
  qed
qed

text \<open>A silent last step, and a silent first step.\<close>

lemma emits_then_silent:
  "emits m (\<lambda>_. P) \<Longrightarrow> (\<And>x. silent (f x)) \<Longrightarrow> emits (bindK m f) (\<lambda>_. P)"
  by (rule emits_bind [where A = "\<lambda>_. P" and B = "\<lambda>_ _ qs. qs = []"]) (auto intro: emits_silent)

lemma silent_then_emits:
  "silent m \<Longrightarrow> (\<And>x. emits (f x) (\<lambda>_. P)) \<Longrightarrow> P [] \<Longrightarrow> emits (bindK m f) (\<lambda>_. P)"
  by (rule emits_bind [where A = "\<lambda>_ qs. qs = []" and B = "\<lambda>_ _. P"]) (auto intro: emits_silent)

text \<open>The same session object, with another status.\<close>

definition same_object :: "DatamoverSession \<Rightarrow> DatamoverSession \<Rightarrow> bool" where
  "same_object s' s \<longleftrightarrow> dsMeta s' = dsMeta s \<and> dsSpec s' = dsSpec s"

lemma same_object_status [simp]:
  "same_object (set_progress s p) s" "same_object (set_info (set_progress s p) i) s"
  "dsProgress (set_progress s p) = p" "dsProgress (set_info s i) = dsProgress s"
  "stSessionInfo (dsStatus (set_info s i)) = i"
  by (simp_all add: same_object_def set_progress_def set_info_def)

text \<open>
  One status update of the same object, to the given progress and an info that satisfies the
  given predicate, or nothing.
\<close>

definition status_log ::
  "DatamoverSession \<Rightarrow> DatamoverSessionProgress \<Rightarrow> (SessionInfo \<Rightarrow> bool) \<Rightarrow> request list \<Rightarrow> bool" where
  "status_log s p I qs \<longleftrightarrow> qs = [] \<or> (\<exists>s'. qs = [StatusUpdateReq s'] \<and> same_object s' s
     \<and> dsProgress s' = p \<and> I (stSessionInfo (dsStatus s')))"

lemma emits_statusUpdate:
  "same_object s' s \<Longrightarrow> dsProgress s' = p \<Longrightarrow> I (stSessionInfo (dsStatus s')) \<Longrightarrow>
   emits (statusUpdate K s') (\<lambda>_. status_log s p I)"
  unfolding statusUpdate_def by (rule emits_write) (auto simp: status_log_def)

lemma emits_quiet:
  "emits (errorK e) (\<lambda>_. status_log s p I)" "emits (panicK m) (\<lambda>_. status_log s p I)"
  by (rule emits_silent, auto intro: run_intro simp: status_log_def)+

text \<open>What the info of a \<open>Ready\<close> status says of the resources it was made from.\<close>

definition ready_info :: "resources \<Rightarrow> SessionInfo \<Rightarrow> bool" where
  "ready_info rs i \<longleftrightarrow> (\<exists>pod rd. rsPod rs = Some pod \<and> rsPodReadiness rs = Some rd \<and>
     i = \<lparr>siPodName = omName (podMeta pod), siServiceName = serviceNameOf (rsService rs) [],
          siSessionData = rdData rd, siPodErrors = []\<rparr>)"

lemma emits_updates:
  "emits (UpdateStatus K s p) (\<lambda>_. status_log s p (\<lambda>i. i = stSessionInfo (dsStatus s)))"
  "emits (UpdateStatusResources K s p rs) (\<lambda>_. status_log s p (\<lambda>i. siSessionData i = [] \<and> siPodErrors i = []))"
  "emits (UpdateStatusFailure K s p r)
     (\<lambda>_. status_log s p (\<lambda>i. siSessionData i = siSessionData (stSessionInfo (dsStatus s))))"
  "emits (UpdateStatusData K s p rs) (\<lambda>_. status_log s p (ready_info rs))"
proof -
  show "emits (UpdateStatus K s p) (\<lambda>_. status_log s p (\<lambda>i. i = stSessionInfo (dsStatus s)))"
    unfolding UpdateStatus_def by (intro emits_statusUpdate) (simp_all add: set_progress_def same_object_def)
  show "emits (UpdateStatusResources K s p rs)
      (\<lambda>_. status_log s p (\<lambda>i. siSessionData i = [] \<and> siPodErrors i = []))"
    unfolding UpdateStatusResources_def Let_def
    by (auto intro!: emits_statusUpdate emits_quiet split: option.splits)
  show "emits (UpdateStatusFailure K s p r)
      (\<lambda>_. status_log s p (\<lambda>i. siSessionData i = siSessionData (stSessionInfo (dsStatus s))))"
    unfolding UpdateStatusFailure_def Let_def
    by (intro silent_then_emits)
      (auto intro!: emits_statusUpdate run_intro simp: status_log_def split: prod.splits)
  show "emits (UpdateStatusData K s p rs) (\<lambda>_. status_log s p (ready_info rs))"
    unfolding UpdateStatusData_def Let_def
    by (auto intro!: emits_statusUpdate emits_quiet simp: ready_info_def split: option.splits)
qed

end
