(* ===== verification/Requests.thy ===== *)
theory Requests
  imports Lifecycle
begin

text \<open>
  The mutating requests one reconciliation issues, whatever the cluster answers: in which
  state, in which order, and on which objects.
\<close>

section \<open>Creating the resources\<close>

text \<open>An object of the session: controlled by it, in its namespace, with its label.\<close>

definition session_owns :: "'z lib_scheme \<Rightarrow> DatamoverSession \<Rightarrow> ObjectMeta \<Rightarrow> bool" where
  "session_owns L s m \<longleftrightarrow> isOwnedBy L m s \<and> omNamespace m = dsNamespace s
     \<and> map_get (omLabels m) DatamoverSessionLabel = dsName s"

text \<open>At most one request, on an object of the session, and none unless it is missing.\<close>

definition at_most_one :: "(request list \<Rightarrow> bool) \<Rightarrow> bool \<Rightarrow> request list \<Rightarrow> bool" where
  "at_most_one P missing qs \<longleftrightarrow> qs = [] \<or> missing \<and> P qs"

definition pod_request :: "'w kube \<Rightarrow> DatamoverSession \<Rightarrow> request list \<Rightarrow> bool" where
  "pod_request K s qs \<longleftrightarrow> (\<exists>p. qs = [CreatePodReq p] \<and> session_owns K s (podMeta p))"

definition service_request :: "'w kube \<Rightarrow> DatamoverSession \<Rightarrow> request list \<Rightarrow> bool" where
  "service_request K s qs \<longleftrightarrow> (\<exists>x. qs = [CreateServiceReq x] \<and> session_owns K s (svcMeta x)
     \<and> omName (svcMeta x) = GetServiceName s)"

definition policy_request :: "'w kube \<Rightarrow> DatamoverSession \<Rightarrow> request list \<Rightarrow> bool" where
  "policy_request K s qs \<longleftrightarrow> (\<exists>x. qs = [CreateNetworkPolicyReq x] \<and> session_owns K s (npMeta x)
     \<and> omName (npMeta x) = dsName s)"

definition create_log :: "'w kube \<Rightarrow> DatamoverSession \<Rightarrow> resources \<Rightarrow> request list \<Rightarrow> bool" where
  "create_log K s rs qs \<longleftrightarrow> (\<exists>ps ss ns. qs = ps @ ss @ ns
     \<and> at_most_one (pod_request K s) (rsPod rs = None) ps
     \<and> at_most_one (service_request K s) (rsService rs = None \<and> rsNeedService rs) ss
     \<and> at_most_one (policy_request K s) (rsNetworkPolicy rs = None \<and> rsNeedNetworkPolicy rs) ns
     \<and> (rsPod rs = None \<and> ps = [] \<longrightarrow> ss = [] \<and> ns = []))"

lemma isOwnedBy_share [simp]: "isOwnedBy K m (share_maps L s lc) = isOwnedBy K m s"
  by (simp add: isOwnedBy_def split: option.splits sum.splits)

lemma session_owns_share [simp]: "session_owns K (share_maps L s lc) = session_owns K s"
  by (simp add: fun_eq_iff session_owns_def)

lemma requests_share [simp]:
  "service_request K (share_maps L s lc) = service_request K s"
  "policy_request K (share_maps L s lc) = policy_request K s"
  by (simp_all add: fun_eq_iff service_request_def policy_request_def GetServiceName_def)

lemma emits_create:
  "emits (handleK (writeK q f) (\<lambda>e. errorK (g e)) (\<lambda>x. returnK (h x)))
     (\<lambda>r qs. qs = [q] \<and> (\<forall>y. r = Ok y \<longrightarrow> (\<exists>x. y = h x)))"
  by (auto simp: emits_def handleK_def writeK_def errorK_def returnK_def split: prod.splits outcome.splits)

lemma emits_lift: "(\<And>r'. r' = r \<Longrightarrow> Q r' []) \<Longrightarrow> emits (liftK r) Q"
  by (simp add: emits_def liftK_def)

lemma emits_lift_bind:
  "(\<And>x. r = Ok x \<Longrightarrow> emits (f x) Q) \<Longrightarrow> (\<And>e. Q (Err e) []) \<Longrightarrow> (\<And>p. Q (Panic p) []) \<Longrightarrow>
   emits (bindK (liftK r) f) Q"
  by (cases r) (auto simp: emits_def bindK_def liftK_def)

lemma emits_CreatePod:
  assumes "owner_law K"
  shows "emits (CreatePod K s) (\<lambda>r qs. (qs = [] \<or> pod_request K s qs) \<and>
    (\<forall>s'. r = Ok s' \<longrightarrow> qs \<noteq> [] \<and> (\<exists>lc. s' = share_maps K s lc)))"
proof -
  obtain made s' where made: "MakePodSpec K s = (made, s')" by force
  show ?thesis
    unfolding CreatePod_def Let_def made prod.case
  proof (intro emits_lift_bind)
    fix pod meta
    assume pod: "made = Ok pod" and meta: "of_sum (lib_SetControllerReference K s' (podMeta pod)) = Ok meta"
    obtain lc where lc: "s' = share_maps K s lc" "podMeta pod = podObjectMeta s lc"
      using made pod by (auto elim: MakePodSpec_Ok)
    have "lib_SetControllerReference K s' (podMeta pod) = Inr meta"
      using meta by (cases "lib_SetControllerReference K s' (podMeta pod)") auto
    then have "isOwnedBy K meta s'" and frame: "omNamespace meta = omNamespace (podMeta pod)"
        "omLabels meta = omLabels (podMeta pod)"
      using isOwnedBy_reference [OF assms] SetControllerReference_frame [OF assms] by blast+
    then have "session_owns K s meta"
      using pod_object.same_namespace [of "(s, lc)"] pod_object.session_label [of "(s, lc)"]
      by (simp add: session_owns_def lc)
    then show "emits (handleK (writeK (CreatePodReq (pod\<lparr>podMeta := meta\<rparr>)) (k_CreatePod K (pod\<lparr>podMeta := meta\<rparr>)))
        (\<lambda>e. errorK (WrapError e ''Failed to create pod'')) (\<lambda>_. returnK s'))
      (\<lambda>r qs. (qs = [] \<or> pod_request K s qs) \<and> (\<forall>s'. r = Ok s' \<longrightarrow> qs \<noteq> [] \<and> (\<exists>lc. s' = share_maps K s lc)))"
      by (intro emits_mono [OF emits_create]) (auto simp: pod_request_def lc)
  qed auto
qed

lemma emits_CreateService:
  assumes "owner_law K"
  shows "emits (CreateService K s) (\<lambda>_ qs. qs = [] \<or> service_request K s qs)"
  unfolding CreateService_def Let_def
proof (rule emits_lift_bind)
  fix lc
  let ?svc = "makeServiceSpec s lc (GetServiceName s)"
  show "emits (if length (lcServicePorts lc) < 1
      then errorK (NewError ''ServicePorts should be set to create service'')
      else bindK (liftK (of_sum (lib_SetControllerReference K s (svcMeta ?svc)))) (\<lambda>meta.
         handleK (writeK (CreateServiceReq (?svc\<lparr>svcMeta := meta\<rparr>)) (k_CreateService K (?svc\<lparr>svcMeta := meta\<rparr>)))
           (\<lambda>e. errorK (WrapError e ''Failed to create service'')) returnK))
     (\<lambda>_ qs. qs = [] \<or> service_request K s qs)"
  proof (cases "length (lcServicePorts lc) < 1")
    case False
    have "service_request K s [CreateServiceReq (?svc\<lparr>svcMeta := meta\<rparr>)]"
      if "lib_SetControllerReference K s (svcMeta ?svc) = Inr meta" for meta
      using that service_object.owned_when_referenced [OF assms, of "(s, lc)" meta]
        SetControllerReference_frame(1) [OF assms that]
      by (simp add: service_request_def session_owns_def makeServiceSpec_def)
    with False show ?thesis
      by (auto intro!: emits_lift_bind emits_mono [OF emits_create [where h = "\<lambda>x. x"]] split: sum.splits)
  qed (auto intro: emits_silent run_intro)
qed auto

lemma emits_CreateNetworkPolicy:
  assumes "owner_law K"
  shows "emits (CreateNetworkPolicy K s) (\<lambda>_ qs. qs = [] \<or> policy_request K s qs)"
  unfolding CreateNetworkPolicy_def Let_def
proof (rule emits_lift_bind)
  fix lc
  let ?np = "makeNetworkPolicySpec s lc"
  have "policy_request K s [CreateNetworkPolicyReq (?np\<lparr>npMeta := meta\<rparr>)]"
    if "lib_SetControllerReference K s (npMeta ?np) = Inr meta" for meta
    using that policy_object.owned_when_referenced [OF assms, of "(s, lc)" meta]
      SetControllerReference_frame(1) [OF assms that]
    by (simp add: policy_request_def session_owns_def makeNetworkPolicySpec_def)
  then show "emits (if length (lcServicePorts lc) < 1
      then errorK (NewError ''ServicePorts should be set to create a network policy'')
      else if \<not> npcEnabled (lcNetworkPolicy lc) then errorK (NewError ''NetworkPolicy is disabled'')
      else bindK (liftK (of_sum (lib_SetControllerReference K s (npMeta ?np)))) (\<lambda>meta.
         handleK (writeK (CreateNetworkPolicyReq (?np\<lparr>npMeta := meta\<rparr>)) (k_CreateNetworkPolicy K (?np\<lparr>npMeta := meta\<rparr>)))
           (\<lambda>e. errorK (WrapError e ''Failed to create network policy'')) returnK))
     (\<lambda>_ qs. qs = [] \<or> policy_request K s qs)"
    by (auto intro!: emits_lift_bind emits_mono [OF emits_create [where h = "\<lambda>x. x"]]
        intro: emits_silent run_intro split: sum.splits)
qed auto

lemma emits_if:
  "(b \<Longrightarrow> emits m A) \<Longrightarrow> (\<not> b \<Longrightarrow> emits n A) \<Longrightarrow> emits (if b then m else n) A"
  by simp

lemma emits_return: "emits (returnK x) (\<lambda>r qs. r = Ok x \<and> qs = [])"
  by (simp add: emits_def returnK_def)

lemma create_log_nil:
  "at_most_one (pod_request K s) (rsPod rs = None) ps \<Longrightarrow> create_log K s rs ps"
  unfolding create_log_def by (rule exI [of _ ps]) (simp add: at_most_one_def)

lemma CreateResources_Some:
  "CreateResources K s (Some rs) =
     bindK (if rsPod rs = None then CreatePod K s else returnK s) (\<lambda>s1.
     bindK (if rsService rs = None \<and> rsNeedService rs then CreateService K s1 else returnK ()) (\<lambda>_.
     bindK (if rsNetworkPolicy rs = None \<and> rsNeedNetworkPolicy rs
            then CreateNetworkPolicy K s1 else returnK ()) (\<lambda>_. returnK ())))"
  by (simp add: fun_eq_iff CreateResources_def deref_resources_def kio_simps)

lemma emits_CreateResources:
  assumes "owner_law K"
  shows "emits (CreateResources K s (Some rs)) (\<lambda>_. create_log K s rs)"
proof -
  let ?P = "\<lambda>r qs. at_most_one (pod_request K s) (rsPod rs = None) qs \<and>
    (\<forall>s'. r = Ok s' \<longrightarrow> (rsPod rs = None \<longrightarrow> qs \<noteq> []) \<and> (s' = s \<or> (\<exists>lc. s' = share_maps K s lc)))"
  let ?S = "at_most_one (service_request K s) (rsService rs = None \<and> rsNeedService rs)"
  let ?N = "at_most_one (policy_request K s) (rsNetworkPolicy rs = None \<and> rsNeedNetworkPolicy rs)"
  let ?rest = "\<lambda>s1. bindK (if rsService rs = None \<and> rsNeedService rs then CreateService K s1 else returnK ()) (\<lambda>_.
     bindK (if rsNetworkPolicy rs = None \<and> rsNeedNetworkPolicy rs
            then CreateNetworkPolicy K s1 else returnK ()) (\<lambda>_. returnK ()))"
  have pod: "emits (if rsPod rs = None then CreatePod K s else returnK s) ?P"
    by (intro emits_if emits_mono [OF emits_CreatePod [OF assms]] emits_mono [OF emits_return])
      (auto simp: at_most_one_def)
  have svc: "emits (if rsService rs = None \<and> rsNeedService rs then CreateService K s1 else returnK ()) (\<lambda>_. ?S)"
    if "s1 = s \<or> (\<exists>lc. s1 = share_maps K s lc)" for s1
    by (intro emits_if emits_mono [OF emits_CreateService [OF assms]] emits_mono [OF emits_return])
      (use that in \<open>auto simp: at_most_one_def\<close>)
  have np: "emits (bindK (if rsNetworkPolicy rs = None \<and> rsNeedNetworkPolicy rs
       then CreateNetworkPolicy K s1 else returnK ()) (\<lambda>_. returnK ())) (\<lambda>_. ?N)"
    if "s1 = s \<or> (\<exists>lc. s1 = share_maps K s lc)" for s1
    by (intro emits_then_silent emits_if emits_mono [OF emits_CreateNetworkPolicy [OF assms]]
        emits_mono [OF emits_return] run_intro)
      (use that in \<open>auto simp: at_most_one_def\<close>)
  have rest: "emits (?rest s1) (\<lambda>_ qs. (s1 = s \<or> (\<exists>lc. s1 = share_maps K s lc)) \<longrightarrow>
      (\<exists>ss ns. qs = ss @ ns \<and> ?S ss \<and> ?N ns))" for s1
  proof (cases "s1 = s \<or> (\<exists>lc. s1 = share_maps K s lc)")
    case True
    show ?thesis
      by (rule emits_bind [OF svc [OF True] np [OF True]]) (auto simp: at_most_one_def)
  next
    case False
    then have "emits (?rest s1) (\<lambda>_ _. True)"
      by (intro emits_bind emits_if emits_mono [OF emits_CreateService [OF assms]]
          emits_mono [OF emits_CreateNetworkPolicy [OF assms]] emits_mono [OF emits_return]) auto
    with False show ?thesis by simp
  qed
  have "emits (bindK (if rsPod rs = None then CreatePod K s else returnK s) ?rest) (\<lambda>_. create_log K s rs)"
  proof (rule emits_bind [OF pod rest])
    fix s1 ps r qs
    assume p: "?P (Ok s1) ps" and q: "s1 = s \<or> (\<exists>lc. s1 = share_maps K s lc) \<longrightarrow>
      (\<exists>ss ns. qs = ss @ ns \<and> ?S ss \<and> ?N ns)"
    from p q obtain ss ns where "qs = ss @ ns" "?S ss" "?N ns" by blast
    with p show "create_log K s rs (ps @ qs)" unfolding create_log_def by blast
  qed (simp_all add: create_log_nil)
  then show ?thesis by (simp add: CreateResources_Some)
qed

lemma emits_tryCreateResources:
  assumes "owner_law K"
  shows "emits (tryCreateResources K s (Some rs)) (\<lambda>_. create_log K s rs)"
  unfolding tryCreateResources_def
  by (rule emits_handle [OF emits_CreateResources [OF assms],
        where H = "\<lambda>_ _ qs. qs = []" and B = "\<lambda>_ _ qs. qs = []"])
    (auto intro: emits_silent run_intro)

section \<open>The requests of a reconciliation\<close>

text \<open>What a reconciliation may request, given the resources it read.\<close>

definition run_log :: "'w kube \<Rightarrow> DatamoverSession \<Rightarrow> resources \<Rightarrow> request list \<Rightarrow> bool" where
  "run_log K s rs qs \<longleftrightarrow> qs = []
     \<or> dsProgress s = ProgressNone \<and> \<not> resourcesExist rs \<and> (resourcesEmpty rs \<longrightarrow> ValidateSession s = Ok ())
         \<and> create_log K s rs qs
     \<or> (\<exists>s'. qs = [StatusUpdateReq s'] \<and> same_object s' s \<and> status_edge (dsStatus s) (dsStatus s')
         \<and> (dsProgress s' = ProgressReady \<longrightarrow> resourcesReady rs \<and> \<not> resourcesFailed rs
              \<and> ready_info rs (stSessionInfo (dsStatus s'))))
     \<or> dsProgress s \<in> {ProgressReadinessFailure, ProgressSessionFailure} \<and> \<not> resourcesCleanedUp rs
         \<and> (\<exists>svc. qs = [DeleteServiceReq svc] \<and> rsService rs = Some svc \<and> isOwnedBy K (svcMeta svc) s)"

lemma resourcesEmpty_not_exist: "resourcesEmpty rs \<Longrightarrow> \<not> resourcesExist rs"
  by (simp add: resourcesEmpty_def resourcesExist_def podExists_def)

lemma status_log_edge:
  assumes "status_log s p I qs"
    and "\<And>b. stProgress b = p \<Longrightarrow> I (stSessionInfo b) \<Longrightarrow> status_edge (dsStatus s) b"
    and "\<And>i. I i \<Longrightarrow> p = ProgressReady \<Longrightarrow> resourcesReady rs \<and> \<not> resourcesFailed rs \<and> ready_info rs i"
  shows "run_log K s rs qs"
  using assms by (auto simp: status_log_def run_log_def)

lemma emits_edge:
  assumes "emits m (\<lambda>_. status_log s p I)"
    and "\<And>b. stProgress b = p \<Longrightarrow> I (stSessionInfo b) \<Longrightarrow> status_edge (dsStatus s) b"
    and "\<And>i. I i \<Longrightarrow> p = ProgressReady \<Longrightarrow> resourcesReady rs \<and> \<not> resourcesFailed rs \<and> ready_info rs i"
  shows "emits (bindK m (\<lambda>_. returnK x)) (\<lambda>_. run_log K s rs)"
proof (rule emits_then_silent)
  show "emits m (\<lambda>_. run_log K s rs)" using assms(1) by (rule emits_mono) (rule status_log_edge [OF _ assms(2,3)])
qed (rule run_intro)

text \<open>The five status updates of the code, one per edge.\<close>

lemma emits_reject:
  "dsProgress s = ProgressNone \<Longrightarrow>
   emits (bindK (UpdateStatus K s ProgressValidationFailed) (\<lambda>_. returnK x)) (\<lambda>_. run_log K s rs)"
  by (rule emits_edge [OF emits_updates(1)]) (auto intro!: status_edge.reject)

lemma emits_created:
  "dsProgress s = ProgressNone \<Longrightarrow>
   emits (bindK (UpdateStatusResources K s ProgressResourcesCreated rs) (\<lambda>_. returnK x)) (\<lambda>_. run_log K s rs)"
  by (rule emits_edge [OF emits_updates(2)]) (auto intro: status_edge.create)

lemma emits_lost:
  assumes "dsProgress s = ProgressResourcesCreated"
  shows "emits (bindK (UpdateStatus K s ProgressReadinessFailure) (\<lambda>_. returnK x)) (\<lambda>_. run_log K s rs)"
    "emits (bindK (UpdateStatusFailure K s ProgressReadinessFailure r) (\<lambda>_. returnK x)) (\<lambda>_. run_log K s rs)"
  using assms by (auto intro!: emits_edge [OF emits_updates(1)] emits_edge [OF emits_updates(3)] status_edge.lose)

lemma emits_serve:
  assumes "dsProgress s = ProgressResourcesCreated" and "resourcesReady rs" and "\<not> resourcesFailed rs"
  shows "emits (bindK (UpdateStatusData K s ProgressReady rs) (\<lambda>_. returnK x)) (\<lambda>_. run_log K s rs)"
  by (rule emits_edge [OF emits_updates(4)])
    (use assms in \<open>auto intro!: status_edge.serve simp: ready_info_def\<close>)

lemma emits_break:
  "dsProgress s = ProgressReady \<Longrightarrow>
   emits (bindK (UpdateStatusFailure K s ProgressSessionFailure r) (\<lambda>_. returnK x)) (\<lambda>_. run_log K s rs)"
  by (rule emits_edge [OF emits_updates(3)]) (auto intro!: status_edge.break)

lemma emits_CleanupService:
  assumes "resources_wf K s rs"
  shows "emits (CleanupService K s (Some rs)) (\<lambda>_ qs. qs = [] \<or>
    (\<exists>svc. qs = [DeleteServiceReq svc] \<and> rsService rs = Some svc \<and> isOwnedBy K (svcMeta svc) s))"
proof (cases "rsService rs")
  case None
  then show ?thesis by (simp add: CleanupService_def) (auto intro: emits_silent run_intro)
next
  case (Some svc)
  with assms have "isOwnedBy K (svcMeta svc) s" by (simp add: resources_wf_def)
  with Some show ?thesis by (auto simp: CleanupService_def DeleteService_def intro!: emits_write)
qed

lemma emits_cleanup:
  assumes "resources_wf K s rs" and "dsProgress s \<in> {ProgressReadinessFailure, ProgressSessionFailure}"
    and "\<not> resourcesCleanedUp rs"
  shows "emits (bindK (CleanupService K s (Some rs)) (\<lambda>_. returnK x)) (\<lambda>_. run_log K s rs)"
  by (rule emits_then_silent [OF emits_mono [OF emits_CleanupService [OF assms(1)]]])
    (use assms(2,3) in \<open>auto simp: run_log_def intro: run_intro\<close>)

lemma emits_creation:
  assumes "owner_law K" and "dsProgress s = ProgressNone" and "\<not> resourcesExist rs"
    and "resourcesEmpty rs \<longrightarrow> ValidateSession s = Ok ()"
  shows "emits (bindK (tryCreateResources K s (Some rs)) (\<lambda>_. returnK x)) (\<lambda>_. run_log K s rs)"
  by (rule emits_then_silent [OF emits_mono [OF emits_tryCreateResources [OF assms(1)]]])
    (use assms(2-) in \<open>auto simp: run_log_def intro: run_intro\<close>)

lemma emits_nothing: "silent m \<Longrightarrow> emits m (\<lambda>_. run_log K s rs)"
  by (rule emits_silent) (auto simp: run_log_def)

lemma emits_act:
  assumes owner: "owner_law K" and wf: "resources_wf K s rs" and cl: "classify s rs = Ok (st, r)"
  shows "emits (act K s st r) (\<lambda>_. run_log K s rs)"
proof -
  have r: "r = Some rs" if "st \<noteq> ValidationFailed" using classify_resources [OF cl] that by auto
  note progress = classify_progress [OF cl]
  show ?thesis
  proof (cases st)
    case Init
    then have "resourcesEmpty rs" "dsProgress s = ProgressNone"
      using cl by (auto simp: classify_def split: if_splits)
    then show ?thesis using r Init
      by (cases "ValidateSession s")
        (auto simp: act_def resourcesEmpty_not_exist
          intro!: emits_creation [OF owner] emits_reject emits_nothing [OF silent_basic(3)])
  next
    case CreateResourcesInProgress
    then have "\<not> resourcesEmpty rs" "\<not> resourcesExist rs" "dsProgress s = ProgressNone"
      using cl by (auto simp: classify_def split: if_splits)
    then show ?thesis using r CreateResourcesInProgress by (simp add: act_def emits_creation [OF owner])
  next
    case CreateResourcesSuccess
    then show ?thesis using r progress
      by (auto simp: act_def deref_resources_def run_log_def
          intro!: emits_lift_bind emits_created)
  next
    case ReadinessFailedDirty
    then show ?thesis using r cl progress
      by (auto simp: act_def classify_def split: if_splits intro!: emits_cleanup [OF wf])
  next
    case SessionFailedDirty
    then show ?thesis using r cl progress
      by (auto simp: act_def classify_def split: if_splits intro!: emits_cleanup [OF wf])
  next
    case ReadinessSuccess
    then show ?thesis using r progress cl
      by (auto simp: act_def classify_def split: if_splits intro!: emits_serve)
  next
    case None_State
    then show ?thesis using classify_not_None_State [OF cl] by simp
  qed (use r progress in \<open>auto simp: act_def intro!: emits_lost emits_break emits_nothing [OF silent_basic(1)]\<close>)
qed

lemma GetState_cases:
  obtains (classified) rs w1 st r where "getResources K s w = (Ok rs, w1)" "resources_wf K s rs"
    "classify s rs = Ok (st, r)" "Run K s w = act K s st r w1" "requests w1 = requests w"
  | (failed) e w1 where "\<And>st. GetState K s w \<noteq> (Ok st, w1)" "Run K s w = (Err e, w1)" "requests w1 = requests w"
  | (panicked) m w1 where "getResources K s w = (Panic m, w1)" "Run K s w = (Panic m, w1)" "requests w1 = requests w"
proof -
  obtain o1 w1 where get: "getResources K s w = (o1, w1)" by force
  have quiet: "requests w1 = requests w" using silentD [OF silent_getResources(1) get] .
  show ?thesis
  proof (cases o1)
    case (Ok rs)
    have wf: "resources_wf K s rs" using returnsD [OF returns_getResources] get Ok by blast
    show ?thesis
    proof (cases "classify s rs")
      case (Ok x)
      obtain st r where x: "x = (st, r)" by force
      have "Run K s w = act K s st r w1"
        using get Ok x \<open>o1 = outcome.Ok rs\<close> by (simp add: Run_def GetState_def kio_defs)
      then show ?thesis using classified get \<open>o1 = outcome.Ok rs\<close> wf Ok x quiet by simp
    next
      case (Err e)
      then show ?thesis using failed [of w1 e] get \<open>o1 = outcome.Ok rs\<close> quiet
        by (simp add: Run_def GetState_def kio_defs)
    next
      case (Panic m)
      then show ?thesis by simp
    qed
  next
    case (Err e)
    then show ?thesis using failed [of w1] get quiet by (simp add: Run_def GetState_def kio_defs)
  next
    case (Panic m)
    then show ?thesis using panicked get quiet by (simp add: Run_def GetState_def kio_defs)
  qed
qed

lemma Run_requests_log:
  assumes owner: "owner_law K" and run: "Run K s w = (r, w')"
  shows "requests w' = requests w \<or> (\<exists>rs w1 qs. getResources K s w = (Ok rs, w1) \<and> resources_wf K s rs
    \<and> requests w' = requests w @ qs \<and> run_log K s rs qs)"
proof (cases K s w rule: GetState_cases)
  case (classified rs w1 st res)
  then have "act K s st res w1 = (r, w')" using run by simp
  from emitsD [OF emits_act [OF owner classified(2,3)] this] show ?thesis
    using classified by auto
qed (use run in auto)

lemma Reconcile_cases:
  obtains (session) s w1 where "k_GetSession K ns name (cluster w) = (Inr s, cluster w1)"
    "requests w1 = requests w" "dssLifecycleConfig (dsSpec s) \<noteq> None" "Reconcile K ns name w = Run K s w1"
  | (quiet) r w1 where "Reconcile K ns name w = (r, w1)" "requests w1 = requests w" "\<And>m. r \<noteq> Panic m"
    "r = Ok noRequeue \<or> (\<exists>e. r = Err e)" "cluster w1 = snd (k_GetSession K ns name (cluster w))"
proof -
  obtain o1 c1 where get: "k_GetSession K ns name (cluster w) = (o1, c1)" by force
  show ?thesis
  proof (cases o1)
    case (Inl e)
    show ?thesis
      by (rule quiet [of "fst (Reconcile K ns name w)" "snd (Reconcile K ns name w)"])
        (auto simp: Reconcile_def kio_defs get Inl split: if_splits)
  next
    case (Inr s)
    show ?thesis
    proof (cases "dssLifecycleConfig (dsSpec s)")
      case None
      show ?thesis
        by (rule quiet [of "fst (Reconcile K ns name w)" "snd (Reconcile K ns name w)"])
          (simp_all add: Reconcile_def kio_defs get Inr None)
    next
      case (Some lc)
      then show ?thesis using session [of s "w\<lparr>cluster := c1\<rparr>"] get Inr
        by (simp add: Reconcile_def kio_defs)
    qed
  qed
qed

section \<open>Creation runs through\<close>

text \<open>
  A controller reference can be set on an object that has no owner yet and is in the owner's
  namespace; a server that admits every new object.
\<close>

definition reference_law :: "'z lib_scheme \<Rightarrow> bool" where
  "reference_law L \<longleftrightarrow> (\<forall>s m. omOwnerReferences m = [] \<longrightarrow> omNamespace m = dsNamespace s \<longrightarrow>
     (\<exists>m'. lib_SetControllerReference L s m = Inr m'))"

definition admits :: "'w kube \<Rightarrow> bool" where
  "admits K \<longleftrightarrow> (\<forall>p c. fst (k_CreatePod K p c) = Inr ()) \<and> (\<forall>x c. fst (k_CreateService K x c) = Inr ())
     \<and> (\<forall>x c. fst (k_CreateNetworkPolicy K x c) = Inr ())"

lemma create_accepted:
  assumes "fst (f (cluster w)) = Inr ()"
  shows "\<exists>w'. handleK (writeK q f) h g w = g () w' \<and> requests w' = requests w @ [q]"
  using assms by (cases "f (cluster w)") (auto simp: handleK_def writeK_def)

lemma CreatePod_accepted:
  assumes "reference_law K" and "\<And>p c. fst (k_CreatePod K p c) = Inr ()"
    and made: "MakePodSpec K s = (Ok pod, s')"
  shows "\<exists>p w'. CreatePod K s w = (Ok s', w') \<and> requests w' = requests w @ [CreatePodReq p]"
proof -
  obtain lc where lc: "s' = share_maps K s lc" "podMeta pod = podObjectMeta s lc"
    using made by (auto elim: MakePodSpec_Ok)
  obtain m' where "lib_SetControllerReference K s' (podMeta pod) = Inr m'"
    using assms(1) lc unfolding reference_law_def by (fastforce simp: podObjectMeta_def zero_meta_def)
  then show ?thesis
    using create_accepted [of "k_CreatePod K (pod\<lparr>podMeta := m'\<rparr>)" w "CreatePodReq (pod\<lparr>podMeta := m'\<rparr>)"
        "\<lambda>e. errorK (WrapError e ''Failed to create pod'')" "\<lambda>_. returnK s'"] assms(2) made
    by (auto simp: CreatePod_def kio_simps Let_def)
qed

lemma CreateService_accepted:
  assumes "reference_law K" and "\<And>p c. fst (k_CreateService K p c) = Inr ()"
    and "dssLifecycleConfig (dsSpec s) = Some lc" and "lcServicePorts lc \<noteq> []"
  shows "\<exists>x w'. CreateService K s w = (Ok (), w') \<and> requests w' = requests w @ [CreateServiceReq x]"
proof -
  let ?svc = "makeServiceSpec s lc (GetServiceName s)"
  obtain m' where "lib_SetControllerReference K s (svcMeta ?svc) = Inr m'"
    using assms(1) unfolding reference_law_def by (fastforce simp: makeServiceSpec_def zero_meta_def)
  then show ?thesis
    using create_accepted [of "k_CreateService K (?svc\<lparr>svcMeta := m'\<rparr>)" w "CreateServiceReq (?svc\<lparr>svcMeta := m'\<rparr>)"
        "\<lambda>e. errorK (WrapError e ''Failed to create service'')" returnK] assms(2-)
    by (auto simp: CreateService_def deref_lifecycle_def kio_simps Let_def)
qed

lemma CreateNetworkPolicy_accepted:
  assumes "reference_law K" and "\<And>p c. fst (k_CreateNetworkPolicy K p c) = Inr ()"
    and "dssLifecycleConfig (dsSpec s) = Some lc" and "lcServicePorts lc \<noteq> []"
    and "npcEnabled (lcNetworkPolicy lc)"
  shows "\<exists>x w'. CreateNetworkPolicy K s w = (Ok (), w') \<and> requests w' = requests w @ [CreateNetworkPolicyReq x]"
proof -
  let ?np = "makeNetworkPolicySpec s lc"
  obtain m' where "lib_SetControllerReference K s (npMeta ?np) = Inr m'"
    using assms(1) unfolding reference_law_def by (fastforce simp: makeNetworkPolicySpec_def zero_meta_def)
  then show ?thesis
    using create_accepted [of "k_CreateNetworkPolicy K (?np\<lparr>npMeta := m'\<rparr>)" w
        "CreateNetworkPolicyReq (?np\<lparr>npMeta := m'\<rparr>)"
        "\<lambda>e. errorK (WrapError e ''Failed to create network policy'')" returnK] assms(2-)
    by (auto simp: CreateNetworkPolicy_def deref_lifecycle_def kio_simps Let_def)
qed

lemma CreateResources_accepted:
  assumes ref: "reference_law K" and adm: "admits K"
    and valid: "ValidateSession s = Ok ()" and lc: "dssLifecycleConfig (dsSpec s) = Some lc"
    and ov: "OverridePodSpec K (basePodSpec K s lc) (poPodOverride (lcPodOptions lc)) = Ok spec"
    and wf: "resources_wf K s rs" and empty: "resourcesEmpty rs"
  shows "\<exists>p x y w'. CreateResources K s (Some rs) w = (Ok (), w') \<and> requests w' = requests w @ [CreatePodReq p]
    @ (if lcServicePorts lc \<noteq> [] then [CreateServiceReq x] else [])
    @ (if npcEnabled (lcNetworkPolicy lc) \<and> rsNetworkPolicy rs = None then [CreateNetworkPolicyReq y] else [])"
proof -
  let ?s = "share_maps K s lc"
  obtain lc' where lc': "dssLifecycleConfig (dsSpec ?s) = Some lc'" "lcServicePorts lc' = lcServicePorts lc"
      "lcNetworkPolicy lc' = lcNetworkPolicy lc"
    using share_maps_lifecycle by blast
  have need: "rsNeedService rs = (lcServicePorts lc \<noteq> [])" "rsNeedNetworkPolicy rs = npcEnabled (lcNetworkPolicy lc)"
    using wf lc by (auto simp: resources_wf_def)
  have none: "rsPod rs = None" "rsService rs = None" using empty by (simp_all add: resourcesEmpty_def)
  have ports: "npcEnabled (lcNetworkPolicy lc) \<Longrightarrow> lcServicePorts lc \<noteq> []"
    using valid ValidateSession_lifecycle [OF lc] by (auto simp: valid_lifecycle_def)
  obtain pod where "MakePodSpec K s = (Ok pod, ?s)" using MakePodSpec_valid [OF valid lc ov] by blast
  then obtain p w1 where 1: "CreatePod K s w = (Ok ?s, w1)" "requests w1 = requests w @ [CreatePodReq p]"
    using CreatePod_accepted [OF ref] adm unfolding admits_def by blast
  obtain x w2 where 2: "(if rsService rs = None \<and> rsNeedService rs then CreateService K ?s else returnK ()) w1 = (Ok (), w2)"
      "requests w2 = requests w1 @ (if lcServicePorts lc \<noteq> [] then [CreateServiceReq x] else [])"
    using CreateService_accepted [OF ref _ lc'(1), of w1] adm need none lc'(2)
    by (cases "lcServicePorts lc = []") (auto simp: admits_def returnK_def)
  obtain y w3 where 3: "(if rsNetworkPolicy rs = None \<and> rsNeedNetworkPolicy rs then CreateNetworkPolicy K ?s
        else returnK ()) w2 = (Ok (), w3)"
      "requests w3 = requests w2 @ (if npcEnabled (lcNetworkPolicy lc) \<and> rsNetworkPolicy rs = None
         then [CreateNetworkPolicyReq y] else [])"
    using CreateNetworkPolicy_accepted [OF ref _ lc'(1), of w2] adm need lc'(2,3) ports
    by (cases "npcEnabled (lcNetworkPolicy lc) \<and> rsNetworkPolicy rs = None")
      (auto simp: admits_def returnK_def)
  have "CreateResources K s (Some rs) w = (Ok (), w3)"
    using 1(1) 2(1) 3(1) none by (simp add: CreateResources_def deref_resources_def kio_simps)
  then show ?thesis using 1(2) 2(2) 3(2) by auto
qed

lemma Run_first:
  assumes "reference_law K" and "admits K"
    and "ValidateSession s = Ok ()" and "dssLifecycleConfig (dsSpec s) = Some lc"
    and "OverridePodSpec K (basePodSpec K s lc) (poPodOverride (lcPodOptions lc)) = Ok spec"
    and "dsProgress s = ProgressNone" and "siSessionData (stSessionInfo (dsStatus s)) = []"
    and "getResources K s w = (Ok rs, w1)" and "resourcesEmpty rs"
  shows "\<exists>p x y w'. Run K s w = (Ok (requeue_wait_sec 20), w') \<and> requests w' = requests w @ [CreatePodReq p]
    @ (if lcServicePorts lc \<noteq> [] then [CreateServiceReq x] else [])
    @ (if npcEnabled (lcNetworkPolicy lc) \<and> rsNetworkPolicy rs = None then [CreateNetworkPolicyReq y] else [])"
proof -
  have wf: "resources_wf K s rs" using returnsD [OF returns_getResources assms(8)] .
  have quiet: "requests w1 = requests w" using silentD [OF silent_getResources(1) assms(8)] .
  have "classify s rs = Ok (Init, Some rs)" using assms(6,7,9) by (simp add: classify_def)
  then have "Run K s w = bindK (tryCreateResources K s (Some rs)) (\<lambda>_. returnK (requeue_wait_sec 20)) w1"
    using assms(3,8) by (simp add: Run_def GetState_def act_def kio_defs)
  then show ?thesis
    using CreateResources_accepted [OF assms(1-5) wf assms(9), of w1] quiet
    by (fastforce simp: tryCreateResources_def handleK_def bindK_def returnK_def)
qed

section \<open>A sample run\<close>

text \<open>A world at the start of a run: one stored session, no other object.\<close>

definition sample_server :: server where
  "sample_server = \<lparr>srvSessions = [(''ns'', ''s1'') \<mapsto> sample_session], srvPods = [], srvServices = Map.empty,
     srvPolicies = Map.empty, srvLogs = (\<lambda>_ _. []), srvCounter = 7, srvPast = (\<lambda>_ _. None)\<rparr>"

definition sample_world :: "server world" where
  "sample_world = \<lparr>cluster = sample_server, requests = []\<rparr>"

lemma sample_Reconcile:
  "Reconcile ref_kube ''ns'' ''s1'' sample_world = Run ref_kube sample_session sample_world"
  by (simp add: Reconcile_def sample_world_def sample_server_def kio_defs srv_defs)

lemma sample_resources:
  "getResources ref_kube sample_session sample_world = (Ok \<lparr>rsPod = None, rsPodReadiness = None,
     rsService = None, rsNeedService = True, rsNetworkPolicy = None, rsNeedNetworkPolicy = True\<rparr>, sample_world)"
  by (simp add: getResources_def getPod_def getService_def getNetworkPolicy_def sample_world_def
      sample_server_def kio_defs srv_defs deref_lifecycle_def not_found_def GetServiceName_def Let_def)

lemma sample_valid: "ValidateSession sample_session = Ok ()"
  by (simp add: validate_defs Let_def api_defs)

lemma ref_reference_law: "reference_law ref_kube"
  by (simp add: reference_law_def ref_SetControllerReference_def ref_GetControllerOf_def)

text \<open>The reference server, where a new object replaces one of the same name.\<close>

definition open_kube :: "server kube" where
  "open_kube = ref_kube
     \<lparr>k_CreateService := (\<lambda>x c. (Inr (), c\<lparr>srvServices := (srvServices c)((omNamespace (svcMeta x), omName (svcMeta x)) \<mapsto> x)\<rparr>)),
      k_CreateNetworkPolicy := (\<lambda>x c. (Inr (), c\<lparr>srvPolicies := (srvPolicies c)((omNamespace (npMeta x), omName (npMeta x)) \<mapsto> x)\<rparr>))\<rparr>"

lemma open_laws: "owner_law open_kube" "reference_law open_kube" "admits open_kube" "nil_override_law open_kube"
proof -
  have "owner_law open_kube = owner_law ref_kube" "reference_law open_kube = reference_law ref_kube"
    "nil_override_law open_kube = nil_override_law ref_kube"
    by (simp_all add: open_kube_def owner_law_def reference_law_def nil_override_law_def)
  then show "owner_law open_kube" "reference_law open_kube" "nil_override_law open_kube"
    using ref_owner_law ref_reference_law ref_nil_override by simp_all
  show "admits open_kube" by (simp add: admits_def open_kube_def srv_defs Let_def)
qed

lemma open_resources:
  "getResources open_kube sample_session sample_world = (Ok \<lparr>rsPod = None, rsPodReadiness = None,
     rsService = None, rsNeedService = True, rsNetworkPolicy = None, rsNeedNetworkPolicy = True\<rparr>, sample_world)"
  by (simp add: getResources_def getPod_def getService_def getNetworkPolicy_def sample_world_def open_kube_def
      sample_server_def kio_defs srv_defs deref_lifecycle_def not_found_def GetServiceName_def Let_def)

lemma open_Reconcile:
  "Reconcile open_kube ''ns'' ''s1'' sample_world = Run open_kube sample_session sample_world"
  by (simp add: Reconcile_def sample_world_def sample_server_def open_kube_def kio_defs srv_defs)

lemma open_first_run:
  "\<exists>p x y w'. Reconcile open_kube ''ns'' ''s1'' sample_world = (Ok (requeue_wait_sec 20), w')
     \<and> requests w' = [CreatePodReq p, CreateServiceReq x, CreateNetworkPolicyReq y]"
  using Run_first [OF open_laws(2,3) sample_valid _ _ _ _ open_resources, of sample_lifecycle]
    OverridePodSpec_nil [OF open_laws(4)]
  by (simp add: open_Reconcile resourcesEmpty_def) (simp add: sample_world_def)

section \<open>What the controller may do\<close>

text \<open>
  C1: Whatever the API server answers, and whatever else happens in the cluster during the
  run, the mutating requests of one reconciliation of a session are one of four: none; the
  creation of pod, service and network policy, in this order, each at most once and only when
  it is missing, each controlled by the session, in its namespace and with its label, and only
  for a session that has made no progress (and is valid, when it has no objects yet); one
  status update of the same object along an edge of the lifecycle graph; the deletion of a
  service the session owns, after a failure.  In particular it never deletes a pod.
\<close>

theorem Reconcile_requests:
  assumes "owner_law K" and "Reconcile K ns name w = (r, w')"
  shows "requests w' = requests w \<or>
    (\<exists>s rs w1 w2 qs. k_GetSession K ns name (cluster w) = (Inr s, cluster w1) \<and> getResources K s w1 = (Ok rs, w2)
       \<and> resources_wf K s rs \<and> requests w' = requests w @ qs \<and> run_log K s rs qs
       \<and> (\<forall>p. DeletePodReq p \<notin> set qs))"
proof (rule Reconcile_cases [where K = K and ns = ns and name = name and w = w])
  fix s w1
  assume session: "k_GetSession K ns name (cluster w) = (Inr s, cluster w1)" "requests w1 = requests w"
    "Reconcile K ns name w = Run K s w1"
  then have "Run K s w1 = (r, w')" using assms(2) by simp
  moreover have "DeletePodReq p \<notin> set qs" if "run_log K s rs qs" for p rs qs
    using that by (auto simp: run_log_def create_log_def at_most_one_def pod_request_def service_request_def
        policy_request_def)
  ultimately show ?thesis using Run_requests_log [OF assms(1)] session(1,2) by metis
qed (use assms(2) in auto)

theorem Reconcile_requests_witness:
  "\<exists>rs p x y. resources_wf open_kube sample_session rs
     \<and> run_log open_kube sample_session rs [CreatePodReq p, CreateServiceReq x, CreateNetworkPolicyReq y]"
proof -
  obtain p x y w' where run: "Reconcile open_kube ''ns'' ''s1'' sample_world = (Ok (requeue_wait_sec 20), w')"
      "requests w' = [CreatePodReq p, CreateServiceReq x, CreateNetworkPolicyReq y]"
    using open_first_run by blast
  have "requests sample_world = []" by (simp add: sample_world_def)
  with Reconcile_requests [OF open_laws(1) run(1)] run(2) obtain s c rs where
      "k_GetSession open_kube ''ns'' ''s1'' (cluster sample_world) = (Inr s, c)" "resources_wf open_kube s rs"
      "run_log open_kube s rs [CreatePodReq p, CreateServiceReq x, CreateNetworkPolicyReq y]"
    by auto
  then show ?thesis by (auto simp: open_kube_def sample_world_def sample_server_def srv_defs)
qed

text \<open>
  C10: A session that passes validation and has no objects yet gets all of them in its first
  reconciliation: when the server admits the objects and the pod override applies, the pod,
  the service (if ports are given) and the network policy (if enabled and missing) are
  requested in this order, nothing else is, and the session is requeued after 20 seconds.
\<close>

theorem Run_creates_resources:
  assumes "reference_law K" and "admits K"
    and "ValidateSession s = Ok ()" and "dssLifecycleConfig (dsSpec s) = Some lc"
    and "OverridePodSpec K (basePodSpec K s lc) (poPodOverride (lcPodOptions lc)) = Ok spec"
    and "dsProgress s = ProgressNone" and "siSessionData (stSessionInfo (dsStatus s)) = []"
    and "getResources K s w = (Ok rs, w1)" and "resourcesEmpty rs"
  shows "\<exists>p x y w'. Run K s w = (Ok (requeue_wait_sec 20), w') \<and> requests w' = requests w @ [CreatePodReq p]
    @ (if lcServicePorts lc \<noteq> [] then [CreateServiceReq x] else [])
    @ (if npcEnabled (lcNetworkPolicy lc) \<and> rsNetworkPolicy rs = None then [CreateNetworkPolicyReq y] else [])"
  by (rule Run_first [OF assms])

theorem Run_creates_resources_witness:
  "\<exists>p x y w'. Run open_kube sample_session sample_world = (Ok (requeue_wait_sec 20), w')
     \<and> requests w' = [CreatePodReq p, CreateServiceReq x, CreateNetworkPolicyReq y]"
  using Run_creates_resources [OF open_laws(2,3) sample_valid _ _ _ _ open_resources, of sample_lifecycle]
    OverridePodSpec_nil [OF open_laws(4)]
  by (simp add: resourcesEmpty_def) (simp add: sample_world_def)

end
