(* ===== verification/Store.thy ===== *)
theory Store
  imports Requests
begin

text \<open>
  The stored sessions over time.  The API server keeps every version of an object under its
  resource version and refuses an update that is not based on the current one; the session a
  reconciliation reads may be stale, and users may create, edit and delete sessions while it
  runs.  An object is told from a later one of the same name by its UID.  Even so the stored
  status of a session moves along the lifecycle graph only.
\<close>

section \<open>Versions\<close>

record 'w store_view =
  vwVersions :: "'w \<Rightarrow> key \<Rightarrow> string \<Rightarrow> DatamoverSession option"
  vwCurrent :: "'w \<Rightarrow> key \<Rightarrow> string option"

definition status_of :: "'w store_view \<Rightarrow> 'w \<Rightarrow> key \<Rightarrow> DatamoverSessionStatus option" where
  "status_of V c k = (case vwCurrent V c k of None \<Rightarrow> None
     | Some v \<Rightarrow> map_option dsStatus (vwVersions V c k v))"

definition stored :: "'w store_view \<Rightarrow> 'w \<Rightarrow> key \<Rightarrow> DatamoverSession option" where
  "stored V c k = Option.bind (vwCurrent V c k) (vwVersions V c k)"

text \<open>The UIDs ever used under a key, and the object that is there now: its UID and status.\<close>

definition uids :: "'w store_view \<Rightarrow> 'w \<Rightarrow> key \<Rightarrow> string set" where
  "uids V c k = (\<lambda>s. omUID (dsMeta s)) ` ran (vwVersions V c k)"

type_synonym life_state = "string set \<times> (string \<times> DatamoverSessionStatus) option"

definition life_of :: "'w store_view \<Rightarrow> 'w \<Rightarrow> key \<Rightarrow> life_state" where
  "life_of V c k = (uids V c k, map_option (\<lambda>s. (omUID (dsMeta s), dsStatus s)) (stored V c k))"

lemma status_of_stored: "status_of V c k = map_option dsStatus (stored V c k)"
  by (cases "vwCurrent V c k") (simp_all add: status_of_def stored_def)

lemma status_of_life: "status_of V c k = map_option snd (snd (life_of V c k))"
  by (cases "stored V c k") (simp_all add: status_of_stored life_of_def)

lemma stored_uid: "stored V c k = Some s \<Longrightarrow> omUID (dsMeta s) \<in> uids V c k"
  unfolding stored_def uids_def by (cases "vwCurrent V c k") (auto intro: ranI)

lemma life_of_Some:
  assumes "stored V c k = Some s"
  shows "life_of V c k = (uids V c k, Some (omUID (dsMeta s), dsStatus s))"
  by (simp add: life_of_def assms)

definition zero_status :: DatamoverSessionStatus where
  "zero_status = \<lparr>stSessionInfo = empty_info, stProgress = ProgressNone\<rparr>"

text \<open>
  The life of a stored session.  Others create a session, under a UID that was never used and
  with the empty status, and delete it; an edit of metadata or specification keeps UID and
  status.  The controller moves the status of an object along an edge.
\<close>

inductive others :: "life_state \<Rightarrow> life_state \<Rightarrow> bool" where
  born: "u \<notin> U \<Longrightarrow> others (U, None) (insert u U, Some (u, zero_status))"
| removed: "others (U, Some x) (U, None)"

inductive life :: "life_state \<Rightarrow> life_state \<Rightarrow> bool" where
  external: "others p q \<Longrightarrow> life p q"
| move: "status_edge a b \<Longrightarrow> life (U, Some (u, a)) (U, Some (u, b))"

definition elsewhere :: "'w store_view \<Rightarrow> 'w \<Rightarrow> 'w \<Rightarrow> bool" where
  "elsewhere V c c' \<longleftrightarrow> (\<forall>k. vwVersions V c k \<subseteq>\<^sub>m vwVersions V c' k)
     \<and> (\<forall>k. others\<^sup>*\<^sup>* (life_of V c k) (life_of V c' k))"

definition session_key :: "DatamoverSession \<Rightarrow> key" where
  "session_key s = (dsNamespace s, dsName s)"

definition accepted :: "'w store_view \<Rightarrow> DatamoverSession \<Rightarrow> 'w \<Rightarrow> 'w \<Rightarrow> bool" where
  "accepted V s c c' \<longleftrightarrow>
     vwCurrent V c (session_key s) = Some (omResourceVersion (dsMeta s))
     \<and> (\<forall>k. vwVersions V c k \<subseteq>\<^sub>m vwVersions V c' k)
     \<and> (\<exists>U u a. life_of V c (session_key s) = (U, Some (u, a))
          \<and> life_of V c' (session_key s) = (U, Some (u, dsStatus s)))
     \<and> (\<forall>k. k \<noteq> session_key s \<longrightarrow> others\<^sup>*\<^sup>* (life_of V c k) (life_of V c' k))"

definition session_store :: "'w kube \<Rightarrow> 'w store_view \<Rightarrow> bool" where
  "session_store K V \<longleftrightarrow>
     (\<forall>c0. reads_keep K (elsewhere V c0) \<and> objects_keep K (elsewhere V c0)) \<and>
     (\<forall>ns n c s c'. k_GetSession K ns n c = (Inr s, c') \<longrightarrow>
        session_key s = (ns, n) \<and> vwVersions V c' (ns, n) (omResourceVersion (dsMeta s)) = Some s) \<and>
     (\<forall>s c r c'. k_StatusUpdate K s c = (r, c') \<longrightarrow> elsewhere V c c' \<or> accepted V s c c')"

lemma elsewhereD:
  "elsewhere V c c' \<Longrightarrow> vwVersions V c k \<subseteq>\<^sub>m vwVersions V c' k"
  "elsewhere V c c' \<Longrightarrow> others\<^sup>*\<^sup>* (life_of V c k) (life_of V c' k)"
  unfolding elsewhere_def by blast+

lemma elsewhere_refl [simp]: "elsewhere V c c"
  by (simp add: elsewhere_def)

lemma elsewhere_trans: "elsewhere V a b \<Longrightarrow> elsewhere V b c \<Longrightarrow> elsewhere V a c"
  unfolding elsewhere_def by (meson map_le_trans rtranclp_trans)

section \<open>Operations that leave the statuses to others\<close>

definition external_op :: "'w store_view \<Rightarrow> ('w, 'a) kio \<Rightarrow> bool" where
  "external_op V m \<longleftrightarrow> (\<forall>c0. keeps (elsewhere V c0) m)"

lemma external_opD: "external_op V m \<Longrightarrow> m w = (r, w') \<Longrightarrow> elsewhere V (cluster w) (cluster w')"
  unfolding external_op_def by (meson keepsD elsewhere_refl)

lemma keeps_creates:
  assumes "objects_keep K I"
  shows "keeps I (CreatePod K s)" "keeps I (CreateService K s)" "keeps I (CreateNetworkPolicy K s)"
    "keeps I (DeleteService K svc)"
proof -
  note [run_intro] = objects_keepD [OF assms]
  show "keeps I (CreatePod K s)"
    unfolding CreatePod_def Let_def by (cases "MakePodSpec K s") (auto intro!: run_intro)
  show "keeps I (CreateService K s)" unfolding CreateService_def Let_def by (intro run_intro)
  show "keeps I (CreateNetworkPolicy K s)" unfolding CreateNetworkPolicy_def Let_def by (intro run_intro)
  show "keeps I (DeleteService K svc)" unfolding DeleteService_def by (intro run_intro)
qed

lemma keeps_actions:
  assumes "objects_keep K I"
  shows "keeps I (tryCreateResources K s r)" "keeps I (CleanupService K s r)"
proof -
  note [run_intro] = keeps_creates [OF assms]
  show "keeps I (tryCreateResources K s r)"
    unfolding tryCreateResources_def CreateResources_def by (intro run_intro)
  show "keeps I (CleanupService K s r)"
    unfolding CleanupService_def by (intro run_intro)
qed

lemma external_ops:
  assumes "session_store K V"
  shows "external_op V (readK (k_GetSession K ns n))" "external_op V (getPodErrors K n ns)"
    "external_op V (GetState K s)" "external_op V (tryCreateResources K s r)" "external_op V (CleanupService K s r)"
    "external_op V (returnK x)" "external_op V (errorK e)" "external_op V (panicK m)" "external_op V (liftK y)"
proof -
  have reads: "reads_keep K (elsewhere V c0)" and objects: "objects_keep K (elsewhere V c0)" for c0
    using assms unfolding session_store_def by blast+
  show "external_op V (readK (k_GetSession K ns n))" "external_op V (getPodErrors K n ns)"
    "external_op V (GetState K s)" "external_op V (tryCreateResources K s r)" "external_op V (CleanupService K s r)"
    "external_op V (returnK x)" "external_op V (errorK e)" "external_op V (panicK m)" "external_op V (liftK y)"
    unfolding external_op_def
    using keeps_getPodErrors [OF reads] keeps_getResources(2) [OF reads] keeps_actions [OF objects]
      reads_keepD(1) [OF reads] by (auto intro!: run_intro)
qed

lemma external_bind: "external_op V m \<Longrightarrow> (\<And>x. external_op V (f x)) \<Longrightarrow> external_op V (bindK m f)"
  unfolding external_op_def by (intro allI run_intro) auto

section \<open>One reconciliation in the life of a session\<close>

text \<open>
  At most one move of the reconciled session, among changes by others; every other session
  is left to others.
\<close>

definition one_move :: "'w store_view \<Rightarrow> key \<Rightarrow> 'w \<Rightarrow> 'w \<Rightarrow> bool" where
  "one_move V k c c' \<longleftrightarrow> (\<forall>k. vwVersions V c k \<subseteq>\<^sub>m vwVersions V c' k)
     \<and> (\<forall>k'. k' \<noteq> k \<longrightarrow> others\<^sup>*\<^sup>* (life_of V c k') (life_of V c' k'))
     \<and> (\<exists>p q. others\<^sup>*\<^sup>* (life_of V c k) p \<and> (p = q \<or> (\<exists>U u a b. p = (U, Some (u, a)) \<and> q = (U, Some (u, b)) \<and> status_edge a b))
          \<and> others\<^sup>*\<^sup>* q (life_of V c' k))"

lemma one_moveI:
  assumes "\<And>k. vwVersions V c k \<subseteq>\<^sub>m vwVersions V c' k"
    and "\<And>k'. k' \<noteq> k \<Longrightarrow> others\<^sup>*\<^sup>* (life_of V c k') (life_of V c' k')"
    and "others\<^sup>*\<^sup>* (life_of V c k) p" and "p = q \<or> (\<exists>U u a b. p = (U, Some (u, a)) \<and> q = (U, Some (u, b)) \<and> status_edge a b)"
    and "others\<^sup>*\<^sup>* q (life_of V c' k)"
  shows "one_move V k c c'"
  unfolding one_move_def by (intro conjI allI impI exI [of _ p] exI [of _ q] assms)

lemma elsewhere_one_move: "elsewhere V c c' \<Longrightarrow> one_move V k c c'"
  by (rule one_moveI [where p = "life_of V c' k" and q = "life_of V c' k"]) (auto intro: elsewhereD)

lemma elsewhere_then_move:
  assumes "elsewhere V a b" and "one_move V k b c"
  shows "one_move V k a c"
proof -
  from assms(2) obtain p q where pq: "others\<^sup>*\<^sup>* (life_of V b k) p"
      "p = q \<or> (\<exists>U u a b. p = (U, Some (u, a)) \<and> q = (U, Some (u, b)) \<and> status_edge a b)" "others\<^sup>*\<^sup>* q (life_of V c k)"
    unfolding one_move_def by blast
  have path: "others\<^sup>*\<^sup>* (life_of V a k') (life_of V b k')" for k' using assms(1) by (rule elsewhereD)
  have vers: "vwVersions V a k' \<subseteq>\<^sub>m vwVersions V c k'" for k'
    using assms map_le_trans unfolding elsewhere_def one_move_def by blast
  have rest: "others\<^sup>*\<^sup>* (life_of V a k') (life_of V c k')" if "k' \<noteq> k" for k'
    using path [of k'] assms(2) that unfolding one_move_def by (meson rtranclp_trans)
  show ?thesis by (rule one_moveI [OF vers rest rtranclp_trans [OF path pq(1)] pq(2,3)])
qed

lemma one_move_life: "one_move V k c c' \<Longrightarrow> life\<^sup>*\<^sup>* (life_of V c k') (life_of V c' k')"
proof -
  assume move: "one_move V k c c'"
  have path: "life\<^sup>*\<^sup>* a b" if "others\<^sup>*\<^sup>* a b" for a b
    using that by (induction) (auto intro: rtranclp.rtrancl_into_rtrancl life.external)
  show ?thesis
  proof (cases "k' = k")
    case False
    then show ?thesis using move path unfolding one_move_def by blast
  next
    case True
    obtain p q where pq: "others\<^sup>*\<^sup>* (life_of V c k) p" "others\<^sup>*\<^sup>* q (life_of V c' k)"
        "p = q \<or> (\<exists>U u a b. p = (U, Some (u, a)) \<and> q = (U, Some (u, b)) \<and> status_edge a b)"
      using move unfolding one_move_def by blast
    then have "life\<^sup>*\<^sup>* p q" by (auto intro: life.move)
    with pq True show ?thesis using path by (meson rtranclp_trans)
  qed
qed

definition moves_once :: "'w store_view \<Rightarrow> DatamoverSession \<Rightarrow> ('w, 'a) kio \<Rightarrow> bool" where
  "moves_once V s m \<longleftrightarrow> (\<forall>w r w'. m w = (r, w') \<longrightarrow>
     vwVersions V (cluster w) (session_key s) (omResourceVersion (dsMeta s)) = Some s \<longrightarrow>
     one_move V (session_key s) (cluster w) (cluster w'))"

lemma moves_external: "external_op V m \<Longrightarrow> moves_once V s m"
  unfolding moves_once_def by (blast intro: elsewhere_one_move external_opD)

lemma elsewhere_version: "elsewhere V c c' \<Longrightarrow> vwVersions V c k v = Some s \<Longrightarrow> vwVersions V c' k v = Some s"
  unfolding elsewhere_def by (metis map_le_def domI)

lemma moves_after:
  assumes "external_op V m" and "\<And>x w v. m w = (Ok x, v) \<Longrightarrow> moves_once V s (f x)"
  shows "moves_once V s (bindK m f)"
  unfolding moves_once_def
proof (intro allI impI)
  fix w r w'
  assume run: "bindK m f w = (r, w')"
    and ver: "vwVersions V (cluster w) (session_key s) (omResourceVersion (dsMeta s)) = Some s"
  show "one_move V (session_key s) (cluster w) (cluster w')"
  proof (cases m w f rule: bindK_cases)
    case (Ok x v)
    have e: "elsewhere V (cluster w) (cluster v)" using external_opD [OF assms(1) Ok(1)] .
    have "f x v = (r, w')" using run Ok(2) by simp
    then have "one_move V (session_key s) (cluster v) (cluster w')"
      using assms(2) [OF Ok(1)] elsewhere_version [OF e ver] unfolding moves_once_def by blast
    with e show ?thesis by (rule elsewhere_then_move)
  next
    case (Err e v)
    with run external_opD [OF assms(1) Err(1)] show ?thesis by (simp add: elsewhere_one_move)
  next
    case (Panic p v)
    with run external_opD [OF assms(1) Panic(1)] show ?thesis by (simp add: elsewhere_one_move)
  qed
qed

lemma moves_then_return:
  "moves_once V s m \<Longrightarrow> moves_once V s (bindK m (\<lambda>_. returnK x))"
  unfolding moves_once_def by (fastforce simp: bindK_def returnK_def split: prod.splits outcome.splits)

lemma moves_statusUpdate:
  assumes store: "session_store K V" and same: "same_object s' s"
    and edge: "status_edge (dsStatus s) (dsStatus s')"
  shows "moves_once V s (statusUpdate K s')"
  unfolding moves_once_def
proof (intro allI impI)
  fix w r w'
  assume run: "statusUpdate K s' w = (r, w')"
    and ver: "vwVersions V (cluster w) (session_key s) (omResourceVersion (dsMeta s)) = Some s"
  let ?c = "cluster w" and ?c' = "cluster w'"
  have key: "session_key s' = session_key s" "dsMeta s' = dsMeta s"
    using same by (simp_all add: same_object_def session_key_def)
  obtain x where "k_StatusUpdate K s' ?c = (x, ?c')"
    using run by (auto simp: statusUpdate_def writeK_def split: prod.splits)
  then consider "elsewhere V ?c ?c'" | "accepted V s' ?c ?c'" using store unfolding session_store_def by blast
  then show "one_move V (session_key s) ?c ?c'"
  proof cases
    case 1
    then show ?thesis by (rule elsewhere_one_move)
  next
    case 2
    then have now: "stored V ?c (session_key s) = Some s"
      using ver key by (simp add: accepted_def stored_def)
    let ?at = "\<lambda>st. (uids V ?c (session_key s), Some (omUID (dsMeta s), st))"
    have "life_of V ?c (session_key s) = ?at (dsStatus s)" using now by (rule life_of_Some)
    with 2 edge key show ?thesis
      by (intro one_moveI [where p = "?at (dsStatus s)" and q = "?at (dsStatus s')"]) (auto simp: accepted_def)
  qed
qed

text \<open>The five status updates of the code.\<close>

lemma moves_UpdateStatus:
  assumes "session_store K V" and "status_edge (dsStatus s) ((dsStatus s)\<lparr>stProgress := p\<rparr>)"
  shows "moves_once V s (UpdateStatus K s p)"
  unfolding UpdateStatus_def
  by (rule moves_statusUpdate [OF assms(1)]) (use assms(2) in \<open>simp_all add: set_progress_def same_object_def\<close>)

lemma status_edge_info:
  "dsProgress s = ProgressResourcesCreated \<Longrightarrow> siSessionData i = siSessionData (stSessionInfo (dsStatus s)) \<Longrightarrow>
   status_edge (dsStatus s) (dsStatus (set_info (set_progress s ProgressReadinessFailure) i))"
  "dsProgress s = ProgressReady \<Longrightarrow> siSessionData i = siSessionData (stSessionInfo (dsStatus s)) \<Longrightarrow>
   status_edge (dsStatus s) (dsStatus (set_info (set_progress s ProgressSessionFailure) i))"
  "dsProgress s = ProgressNone \<Longrightarrow> siSessionData i = [] \<Longrightarrow> siPodErrors i = [] \<Longrightarrow>
   status_edge (dsStatus s) (dsStatus (set_info (set_progress s ProgressResourcesCreated) i))"
  "dsProgress s = ProgressResourcesCreated \<Longrightarrow> siPodErrors i = [] \<Longrightarrow>
   status_edge (dsStatus s) (dsStatus (set_info (set_progress s ProgressReady) i))"
  by (auto intro: status_edge.intros)

lemma moves_failure:
  assumes "session_store K V" and "dsProgress s = ProgressResourcesCreated \<and> p = ProgressReadinessFailure
    \<or> dsProgress s = ProgressReady \<and> p = ProgressSessionFailure"
  shows "moves_once V s (UpdateStatusFailure K s p r)"
  unfolding UpdateStatusFailure_def Let_def
proof (rule moves_after)
  show "external_op V (case case r of None \<Rightarrow> None | Some rs \<Rightarrow> rsPod rs of
      None \<Rightarrow> returnK (siPodName (stSessionInfo (dsStatus s)), siPodErrors (stSessionInfo (dsStatus s)))
    | Some p \<Rightarrow> bindK (getPodErrors K (omName (podMeta p)) (dsNamespace s)) (\<lambda>(podErrors, err).
        returnK (omName (podMeta p), podErrors)))"
    using external_ops [OF assms(1)]
    by (cases "case r of None \<Rightarrow> None | Some rs \<Rightarrow> rsPod rs") (auto intro!: external_bind split: prod.splits)
qed (use assms(2) in \<open>auto intro!: moves_statusUpdate [OF assms(1)] status_edge_info split: prod.splits\<close>)

lemma moves_resources:
  assumes "session_store K V" and "dsProgress s = ProgressNone"
  shows "moves_once V s (UpdateStatusResources K s ProgressResourcesCreated rs)"
  unfolding UpdateStatusResources_def Let_def
  using assms
  by (cases "rsPod rs")
    (auto intro!: moves_statusUpdate [OF assms(1)] status_edge_info moves_external [OF external_ops(7) [OF assms(1)]])

lemma moves_data:
  assumes "session_store K V" and "dsProgress s = ProgressResourcesCreated"
  shows "moves_once V s (UpdateStatusData K s ProgressReady rs)"
  unfolding UpdateStatusData_def Let_def
  using assms
  by (cases "rsPodReadiness rs"; cases "rsPod rs")
    (auto intro!: moves_statusUpdate [OF assms(1)] status_edge_info
      moves_external [OF external_ops(7) [OF assms(1)]] moves_external [OF external_ops(8) [OF assms(1)]])

lemma moves_act:
  assumes store: "session_store K V" and cl: "classify s rs = Ok (st, r)"
  shows "moves_once V s (act K s st r)"
proof -
  note progress = classify_progress [OF cl]
  note ext = moves_external [OF external_ops(4) [OF store]] moves_external [OF external_ops(5) [OF store]]
    moves_external [OF external_ops(6) [OF store]] moves_external [OF external_ops(7) [OF store]]
    moves_external [OF external_ops(8) [OF store]]
  note updates = moves_UpdateStatus [OF store] moves_failure [OF store] moves_resources [OF store] moves_data [OF store]
  note rules = moves_then_return updates ext
  show ?thesis
  proof (cases st)
    case Init
    then show ?thesis using progress
      by (cases "ValidateSession s") (auto simp: act_def intro!: rules status_edge.reject)
  next
    case CreateResourcesSuccess
    then show ?thesis using progress
      by (auto simp: act_def intro!: moves_after external_ops(9) [OF store] rules)
  next
    case ReadinessSuccess
    then show ?thesis using progress by (auto simp: act_def intro!: rules split: option.splits)
  next
    case ReadinessResourcesMissing
    then show ?thesis using progress by (auto simp: act_def intro!: rules status_edge.lose)
  qed (use progress in \<open>auto simp: act_def intro!: rules\<close>)
qed

lemma moves_Run:
  assumes "session_store K V"
  shows "moves_once V s (Run K s)"
  unfolding Run_def
proof (rule moves_after [OF external_ops(3) [OF assms]])
  fix x w v assume "GetState K s w = (Ok x, v)"
  then show "moves_once V s (case x of (state, r) \<Rightarrow> act K s state r)"
    by (cases x) (auto simp: GetState_Ok_iff intro: moves_act [OF assms])
qed

lemma moves_Reconcile:
  assumes store: "session_store K V" and run: "Reconcile K ns name w = (r, w')"
  shows "one_move V (ns, name) (cluster w) (cluster w')"
proof (rule Reconcile_cases [where K = K and ns = ns and name = name and w = w])
  fix s w1
  assume get: "k_GetSession K ns name (cluster w) = (Inr s, cluster w1)"
    and "Reconcile K ns name w = Run K s w1"
  then have runs: "Run K s w1 = (r, w')" using run by simp
  have key: "session_key s = (ns, name)"
    and ver: "vwVersions V (cluster w1) (session_key s) (omResourceVersion (dsMeta s)) = Some s"
    using store get unfolding session_store_def by auto
  have "readK (k_GetSession K ns name) w = (Ok s, w\<lparr>cluster := cluster w1\<rparr>)" by (simp add: readK_def get)
  then have "elsewhere V (cluster w) (cluster w1)" using external_opD [OF external_ops(1) [OF store]] by fastforce
  moreover have "one_move V (ns, name) (cluster w1) (cluster w')"
    using moves_Run [OF store, of s] runs ver key unfolding moves_once_def by metis
  ultimately show ?thesis by (rule elsewhere_then_move)
next
  fix r1 w1
  assume r1: "Reconcile K ns name w = (r1, w1)" and c: "cluster w1 = snd (k_GetSession K ns name (cluster w))"
  obtain o1 c1 where get: "k_GetSession K ns name (cluster w) = (o1, c1)" by force
  have "readK (k_GetSession K ns name) w = (of_sum o1, w\<lparr>cluster := c1\<rparr>)" by (simp add: readK_def get)
  then have "elsewhere V (cluster w) c1" using external_opD [OF external_ops(1) [OF store]] by fastforce
  then show ?thesis using elsewhere_one_move run r1 c get by simp
qed

section \<open>The reference server keeps versions\<close>

definition ref_view :: "server store_view" where
  "ref_view = \<lparr>vwVersions = (\<lambda>c k v. case srvSessions c k of
       Some s \<Rightarrow> if omResourceVersion (dsMeta s) = v then Some s else srvPast c k v
     | None \<Rightarrow> srvPast c k v),
     vwCurrent = (\<lambda>c k. map_option (\<lambda>s. omResourceVersion (dsMeta s)) (srvSessions c k))\<rparr>"

lemma ref_stored [simp]: "stored ref_view c k = srvSessions c k"
  by (cases "srvSessions c k") (simp_all add: stored_def ref_view_def)

lemma ref_status_of [simp]: "status_of ref_view c k = map_option dsStatus (srvSessions c k)"
  by (simp add: status_of_stored)

text \<open>A session created on a server that has kept no version under its name.\<close>

lemma ref_born:
  assumes "srvSessions c k = None" and "srvSessions c' k = Some s" and "srvPast c k = Map.empty"
    and "srvPast c' k = Map.empty" and "dsStatus s = zero_status"
  shows "others (life_of ref_view c k) (life_of ref_view c' k)"
proof -
  have "vwVersions ref_view c k = Map.empty" "vwVersions ref_view c' k = [omResourceVersion (dsMeta s) \<mapsto> s]"
    using assms by (auto simp: ref_view_def fun_eq_iff)
  then have "life_of ref_view c k = ({}, None)"
    "life_of ref_view c' k = (insert (omUID (dsMeta s)) {}, Some (omUID (dsMeta s), zero_status))"
    using assms by (simp_all add: life_of_def uids_def)
  then show ?thesis by (simp add: others.born)
qed

lemma ref_same_sessions:
  assumes "srvSessions c' = srvSessions c" and "srvPast c' = srvPast c"
  shows "elsewhere ref_view c c'"
proof -
  have vers: "vwVersions ref_view c' = vwVersions ref_view c"
    by (intro ext) (simp add: assms ref_view_def split: option.split)
  then have "life_of ref_view c' k = life_of ref_view c k" for k by (simp add: life_of_def uids_def assms(1))
  with vers show ?thesis by (simp add: elsewhere_def)
qed

lemma ref_op_keeps:
  assumes "\<And>c. srvSessions (snd (f c)) = srvSessions c" and "\<And>c. srvPast (snd (f c)) = srvPast c"
  shows "op_keeps (elsewhere ref_view c0) f"
  unfolding op_keeps_def by (metis assms elsewhere_trans ref_same_sessions snd_conv)

lemma ref_StatusUpdate:
  assumes "srv_StatusUpdate s c = (r, c')"
  shows "elsewhere ref_view c c' \<or> accepted ref_view s c c'"
proof (cases "srvSessions c (session_key s)")
  case None
  then show ?thesis using assms by (simp add: srv_StatusUpdate_def session_key_def Let_def)
next
  case (Some cur)
  let ?v = "nat_digits (srvCounter c)"
  show ?thesis
  proof (cases "omResourceVersion (dsMeta cur) = omResourceVersion (dsMeta s)
      \<and> ?v \<noteq> omResourceVersion (dsMeta cur) \<and> srvPast c (session_key s) ?v = None")
    case False
    then have "c' = c" using assms Some
      by (auto simp: srv_StatusUpdate_def session_key_def Let_def split: if_splits)
    then show ?thesis by simp
  next
    case True
    then have c': "c' = c\<lparr>srvSessions := (srvSessions c)(session_key s \<mapsto> cur\<lparr>dsStatus := dsStatus s,
            dsMeta := (dsMeta cur)\<lparr>omResourceVersion := ?v\<rparr>\<rparr>), srvCounter := Suc (srvCounter c),
          srvPast := (srvPast c)(session_key s := (srvPast c (session_key s))(omResourceVersion (dsMeta cur) \<mapsto> cur))\<rparr>"
      using assms Some by (auto simp: srv_StatusUpdate_def session_key_def Let_def)
    let ?new = "cur\<lparr>dsStatus := dsStatus s, dsMeta := (dsMeta cur)\<lparr>omResourceVersion := ?v\<rparr>\<rparr>"
    have here: "vwVersions ref_view c' (session_key s) = (vwVersions ref_view c (session_key s))(?v \<mapsto> ?new)"
      and fresh: "vwVersions ref_view c (session_key s) ?v = None"
      using True Some by (auto simp: c' ref_view_def fun_eq_iff)
    have there: "vwVersions ref_view c' k = vwVersions ref_view c k" if "k \<noteq> session_key s" for k
      using that by (simp add: c' ref_view_def fun_eq_iff split: option.split)
    have vers: "vwVersions ref_view c k \<subseteq>\<^sub>m vwVersions ref_view c' k" for k
      using here fresh there by (cases "k = session_key s") (auto simp: map_le_def)
    have rest: "life_of ref_view c' k = life_of ref_view c k" if "k \<noteq> session_key s" for k
      using that there by (simp add: life_of_def uids_def) (simp add: c')
    have "stored ref_view c (session_key s) = Some cur" using Some by simp
    then have "omUID (dsMeta cur) \<in> uids ref_view c (session_key s)" by (rule stored_uid)
    then have "uids ref_view c' (session_key s) = uids ref_view c (session_key s)"
      using here fresh by (auto simp: uids_def ran_map_upd)
    then have "life_of ref_view c' (session_key s)
        = (uids ref_view c (session_key s), Some (omUID (dsMeta cur), dsStatus s))"
      by (simp add: life_of_def) (simp add: c')
    moreover have "life_of ref_view c (session_key s)
        = (uids ref_view c (session_key s), Some (omUID (dsMeta cur), dsStatus cur))"
      using Some by (simp add: life_of_def)
    moreover have "vwCurrent ref_view c (session_key s) = Some (omResourceVersion (dsMeta s))"
      using Some True by (simp add: ref_view_def)
    ultimately have "accepted ref_view s c c'" unfolding accepted_def using vers rest by auto
    then show ?thesis ..
  qed
qed

lemma ref_session_store: "session_store ref_kube ref_view"
  unfolding session_store_def
proof (intro conjI allI impI)
  fix c0
  show "reads_keep ref_kube (elsewhere ref_view c0)"
    unfolding reads_keep_def ref_kube_fields
    by (intro conjI allI ref_op_keeps) (auto simp: srv_defs split: option.splits)
  show "objects_keep ref_kube (elsewhere ref_view c0)"
    unfolding objects_keep_def ref_kube_fields
    by (intro conjI allI ref_op_keeps) (auto simp: srv_defs Let_def)
next
  fix ns n c s c' assume "k_GetSession ref_kube ns n c = (Inr s, c')"
  then show "session_key s = (ns, n)" "vwVersions ref_view c' (ns, n) (omResourceVersion (dsMeta s)) = Some s"
    by (auto simp: srv_defs session_key_def ref_view_def split: option.splits if_splits)
qed (use ref_StatusUpdate in auto)

section \<open>The system over time\<close>

text \<open>Reconciliations of any session, in any order and number, among changes by others.\<close>

inductive sys_step :: "'w kube \<Rightarrow> 'w store_view \<Rightarrow> 'w \<Rightarrow> 'w \<Rightarrow> bool" for K V where
  reconcile: "Reconcile K ns name w = (r, w') \<Longrightarrow> sys_step K V (cluster w) (cluster w')"
| external: "elsewhere V c c' \<Longrightarrow> sys_step K V c c'"

lemma sys_step_life:
  assumes "session_store K V" and "sys_step K V c c'"
  shows "life\<^sup>*\<^sup>* (life_of V c k) (life_of V c' k)"
  using assms(2)
proof cases
  case (reconcile ns name w r w')
  then show ?thesis using one_move_life [OF moves_Reconcile [OF assms(1) reconcile(3)]] by simp
next
  case external
  then show ?thesis by (rule one_move_life [OF elsewhere_one_move])
qed

lemma reachable_life:
  assumes "session_store K V" and "(sys_step K V)\<^sup>*\<^sup>* c c'"
  shows "life\<^sup>*\<^sup>* (life_of V c k) (life_of V c' k)"
  using assms(2)
proof (induction rule: rtranclp_induct)
  case (step c1 c2)
  then show ?case using sys_step_life [OF assms(1)] by (meson rtranclp_trans)
qed simp

text \<open>The object at the end of a life has a status that its lifecycle led to.\<close>

lemma life_born:
  assumes "life\<^sup>*\<^sup>* p q" and "p = (U, None)" and "q = (U', Some (u, b))"
  shows "status_edge\<^sup>*\<^sup>* zero_status b"
proof -
  have "\<forall>u b. snd q = Some (u, b) \<longrightarrow> status_edge\<^sup>*\<^sup>* zero_status b"
    using assms(1,2)
    by (induction rule: rtranclp_induct)
      (auto elim!: life.cases others.cases intro: rtranclp.rtrancl_into_rtrancl)
  then show ?thesis using assms(3) by simp
qed

text \<open>
  A UID in use stays in use, and the object that has it was not created anew: an object met
  again under its UID has gone from its old status along edges only.
\<close>

lemma life_same_object:
  assumes "life\<^sup>*\<^sup>* p q" and "p = (U, Some (u, a))" and "u \<in> U"
  shows "u \<in> fst q \<and> (\<forall>b. snd q = Some (u, b) \<longrightarrow> status_edge\<^sup>*\<^sup>* a b)"
  using assms
proof (induction rule: rtranclp_induct)
  case (step q r)
  then show ?case
    by (auto elim!: life.cases others.cases intro: rtranclp.rtrancl_into_rtrancl)
qed simp

text \<open>A step relation read as the history of a stored object.\<close>

lemma same_object_path:
  assumes "session_store K V" and "(sys_step K V)\<^sup>*\<^sup>* c c'"
    and "stored V c k = Some s" and "stored V c' k = Some s'" and "omUID (dsMeta s') = omUID (dsMeta s)"
  shows "status_edge\<^sup>*\<^sup>* (dsStatus s) (dsStatus s')"
  using life_same_object [OF reachable_life [OF assms(1,2)] life_of_Some [OF assms(3)] stored_uid [OF assms(3)]]
    life_of_Some [OF assms(4)] assms(5) by simp

definition terminal :: "DatamoverSessionProgress \<Rightarrow> bool" where
  "terminal p \<longleftrightarrow> p \<in> {ProgressValidationFailed, ProgressReadinessFailure, ProgressSessionFailure}"

lemma terminal_no_edge: "terminal (stProgress a) \<Longrightarrow> \<not> status_edge a b"
  using status_edge_progress [of a b] by (auto simp: terminal_def)

text \<open>What holds of every status on the graph.\<close>

definition status_inv :: "DatamoverSessionStatus \<Rightarrow> bool" where
  "status_inv st \<longleftrightarrow>
     stProgress st \<in> {ProgressNone, ProgressValidationFailed, ProgressResourcesCreated,
        ProgressReadinessFailure, ProgressReady, ProgressSessionFailure}
     \<and> (siSessionData (stSessionInfo st) \<noteq> [] \<longrightarrow> stProgress st \<in> {ProgressReady, ProgressSessionFailure})
     \<and> (siPodErrors (stSessionInfo st) \<noteq> [] \<longrightarrow> stProgress st \<in> {ProgressReadinessFailure, ProgressSessionFailure})
     \<and> (stProgress st \<in> {ProgressNone, ProgressValidationFailed} \<longrightarrow> stSessionInfo st = empty_info)"

lemma status_inv_zero: "status_inv zero_status"
  by (simp add: status_inv_def zero_status_def empty_info_def)

lemma status_inv_edge: "status_edge a b \<Longrightarrow> status_inv a \<Longrightarrow> status_inv b"
  by (induction rule: status_edge.induct) (auto simp: status_inv_def empty_info_def)

lemma status_inv_path: "status_edge\<^sup>*\<^sup>* a b \<Longrightarrow> status_inv a \<Longrightarrow> status_inv b"
  by (induction rule: rtranclp_induct) (auto intro: status_inv_edge)

text \<open>
  C2: One reconciliation refines the lifecycle.  The session it reads may be stale and others
  may create, edit and delete sessions between any two of its calls; still, the stored status
  of the reconciled session makes at most one move, along an edge of the lifecycle graph, and
  the status of every other session is left to others.
\<close>

theorem Reconcile_refines_lifecycle:
  assumes "session_store K V" and "Reconcile K ns name w = (r, w')"
  shows "one_move V (ns, name) (cluster w) (cluster w')"
  by (rule moves_Reconcile [OF assms])

theorem Reconcile_refines_lifecycle_witness:
  "one_move ref_view (''ns'', ''s1'') sample_server (cluster (snd (Reconcile ref_kube ''ns'' ''s1'' sample_world)))"
proof -
  obtain r w' where run: "Reconcile ref_kube ''ns'' ''s1'' sample_world = (r, w')" by force
  show ?thesis using Reconcile_refines_lifecycle [OF ref_session_store run] run by (simp add: sample_world_def)
qed

text \<open>
  C4: Every status ever stored is consistent.  From a cluster without sessions, after any
  sequence of reconciliations and changes by others, each stored session has a progress the
  code knows and was led there along the lifecycle graph; session data is only present in a
  session that is, or was, ready; pod errors only in a failed one; and a session that has no
  resources yet, or was rejected, carries no information.
\<close>

theorem reachable_status:
  assumes "session_store K V" and "\<forall>k. status_of V c0 k = None" and "(sys_step K V)\<^sup>*\<^sup>* c0 c"
    and "status_of V c k = Some st"
  shows "status_inv st \<and> status_edge\<^sup>*\<^sup>* zero_status st"
proof -
  obtain s where s: "stored V c k = Some s" "dsStatus s = st" using assms(4) by (auto simp: status_of_stored)
  have "life_of V c0 k = (uids V c0 k, None)" using assms(2) [rule_format, of k] by (simp add: life_of_def status_of_stored)
  then have "status_edge\<^sup>*\<^sup>* zero_status (dsStatus s)"
    using life_born [OF reachable_life [OF assms(1,3), of k] _ life_of_Some [OF s(1)]] by blast
  with s(2) have "status_edge\<^sup>*\<^sup>* zero_status st" by simp
  then show ?thesis using status_inv_path status_inv_zero by blast
qed

definition empty_server :: server where
  "empty_server = sample_server\<lparr>srvSessions := Map.empty\<rparr>"

lemma sample_born: "elsewhere ref_view empty_server sample_server"
  unfolding elsewhere_def
proof (intro conjI allI)
  fix k
  show "vwVersions ref_view empty_server k \<subseteq>\<^sub>m vwVersions ref_view sample_server k"
    by (simp add: empty_server_def sample_server_def ref_view_def map_le_def)
  show "others\<^sup>*\<^sup>* (life_of ref_view empty_server k) (life_of ref_view sample_server k)"
  proof (cases "k = (''ns'', ''s1'')")
    case True
    then show ?thesis
      by (intro r_into_rtranclp ref_born) (auto simp: empty_server_def sample_server_def zero_status_def)
  next
    case False
    then have "life_of ref_view empty_server k = life_of ref_view sample_server k"
      by (simp add: life_of_def uids_def ref_view_def empty_server_def sample_server_def stored_def)
    then show ?thesis by simp
  qed
qed

theorem reachable_status_witness:
  "status_inv (dsStatus sample_session) \<and> status_edge\<^sup>*\<^sup>* zero_status (dsStatus sample_session)"
proof (rule reachable_status [OF ref_session_store])
  show "\<forall>k. status_of ref_view empty_server k = None" by (simp add: empty_server_def)
  show "(sys_step ref_kube ref_view)\<^sup>*\<^sup>* empty_server sample_server"
    using sys_step.external [OF sample_born] by blast
  show "status_of ref_view sample_server (''ns'', ''s1'') = Some (dsStatus sample_session)"
    by (simp add: sample_server_def)
qed

text \<open>
  C5: A failed session stays as it is.  Once a stored session was rejected, failed to become
  ready or failed while running, no sequence of reconciliations and changes by others changes
  its status, progress or information: as long as an object with its UID is stored under its
  name, that object has the very same status.
\<close>

theorem terminal_status_final:
  assumes "session_store K V" and "(sys_step K V)\<^sup>*\<^sup>* c c'"
    and "stored V c k = Some s" and "terminal (dsProgress s)"
    and "stored V c' k = Some s'" and "omUID (dsMeta s') = omUID (dsMeta s)"
  shows "dsStatus s' = dsStatus s"
  using same_object_path [OF assms(1-3,5,6)] terminal_no_edge [of "dsStatus s"] assms(4)
  by (metis converse_rtranclpE)

definition rejected_session :: DatamoverSession where
  "rejected_session = sample_session\<lparr>dsStatus := zero_status\<lparr>stProgress := ProgressValidationFailed\<rparr>\<rparr>"

definition rejected_world :: "server world" where
  "rejected_world = \<lparr>cluster = sample_server\<lparr>srvSessions := [(''ns'', ''s1'') \<mapsto> rejected_session]\<rparr>, requests = []\<rparr>"

lemma rejected_run: "Reconcile ref_kube ''ns'' ''s1'' rejected_world = (Ok noRequeue, rejected_world)"
  by (simp add: Reconcile_def Run_def GetState_def classify_def act_def getResources_def getPod_def getService_def
      getNetworkPolicy_def rejected_world_def rejected_session_def sample_server_def kio_defs srv_defs
      deref_lifecycle_def not_found_def GetServiceName_def Let_def)

theorem terminal_status_final_witness:
  "\<exists>s'. stored ref_view (cluster (snd (Reconcile ref_kube ''ns'' ''s1'' rejected_world))) (''ns'', ''s1'') = Some s'
     \<and> terminal (dsProgress rejected_session) \<and> dsStatus s' = dsStatus rejected_session"
proof -
  let ?after = "cluster (snd (Reconcile ref_kube ''ns'' ''s1'' rejected_world))"
  have start: "stored ref_view (cluster rejected_world) (''ns'', ''s1'') = Some rejected_session"
    by (simp add: rejected_world_def)
  then have fin: "stored ref_view ?after (''ns'', ''s1'') = Some rejected_session" by (simp add: rejected_run)
  have step: "(sys_step ref_kube ref_view)\<^sup>*\<^sup>* (cluster rejected_world) ?after"
    using sys_step.reconcile [OF rejected_run] by (simp add: rejected_run)
  have last: "terminal (dsProgress rejected_session)" by (simp add: rejected_session_def terminal_def)
  show ?thesis using terminal_status_final [OF ref_session_store step start last fin refl] fin last by blast
qed

section \<open>How often a status changes\<close>

text \<open>How far a session is in its life: every edge of the lifecycle graph leads further.\<close>

definition rank :: "DatamoverSessionStatus \<Rightarrow> nat" where
  "rank st = (if stProgress st = ProgressNone then 0 else if stProgress st = ProgressResourcesCreated then 1
     else if stProgress st = ProgressReady then 2 else 3)"

lemma status_edge_rank: "status_edge a b \<Longrightarrow> rank a < rank b"
  by (induction rule: status_edge.induct) (auto simp: rank_def)

lemma status_path_rank: "status_edge\<^sup>*\<^sup>* a b \<Longrightarrow> a = b \<or> rank a < rank b"
  by (induction rule: rtranclp_induct) (auto dest: status_edge_rank)

lemma ranked_changes:
  assumes "successively (\<lambda>x y. x = y \<or> f x < f y) xs" and "\<forall>x \<in> set xs. f x < n" and "xs \<noteq> []"
  shows "length (remdups_adj xs) + f (hd xs) \<le> n"
  using assms
proof (induction xs rule: remdups_adj.induct)
  case (3 x y xs)
  then show ?case by (cases "x = y") auto
qed auto

end
