(* ===== verification/Outcomes.thy ===== *)
theory Outcomes
  imports Store
begin

text \<open>
  How a reconciliation ends: when it can crash, in which states it rests, which updates it
  requests in which state, and what a session that is reported ready really has.
\<close>

section \<open>Freedom from panics\<close>

text \<open>
  No panic from a cluster where \<open>I\<close> holds, and the values returned there; rules for composed
  calls, where every call but the last keeps \<open>I\<close>.
\<close>

definition safe_in :: "('w \<Rightarrow> bool) \<Rightarrow> ('w, 'a) kio \<Rightarrow> bool" where
  "safe_in I m \<longleftrightarrow> (\<forall>w p w'. I (cluster w) \<longrightarrow> m w \<noteq> (Panic p, w'))"

definition returns_in :: "('w \<Rightarrow> bool) \<Rightarrow> ('w, 'a) kio \<Rightarrow> ('a \<Rightarrow> bool) \<Rightarrow> bool" where
  "returns_in I m A \<longleftrightarrow> (\<forall>w x w'. I (cluster w) \<longrightarrow> m w = (Ok x, w') \<longrightarrow> A x)"

lemma safe_in_safe: "safe m \<Longrightarrow> safe_in I m"
  by (simp add: safe_in_def safe_def)

lemma returns_in_returns: "returns m A \<Longrightarrow> returns_in I m A"
  by (auto simp: returns_in_def returns_def)

lemma returns_in_True: "returns_in I m (\<lambda>_. True)"
  by (simp add: returns_in_def)

lemma safe_in_bind:
  fixes m :: "('w, 'a) kio"
  assumes "safe_in I m" and "keeps I m" and "returns_in I m A" and "\<And>x. A x \<Longrightarrow> safe_in I (f x)"
  shows "safe_in I (bindK m f)"
  unfolding safe_in_def
proof (intro allI impI)
  fix p and w w' :: "'w world" assume I: "I (cluster w)"
  show "bindK m f w \<noteq> (Panic p, w')"
  proof (cases m w f rule: bindK_cases)
    case (Ok x v)
    then have "A x" "I (cluster v)" using I assms(2,3) by (auto simp: returns_in_def keeps_def)
    then show ?thesis using Ok(2) assms(4) by (simp add: safe_in_def)
  next
    case (Panic s v)
    then show ?thesis using assms(1) I by (auto simp: safe_in_def)
  qed simp
qed

lemma handleK_bindK:
  "(\<And>e. safe (h e)) \<Longrightarrow> safe_in I (bindK m f) \<Longrightarrow> safe_in I (handleK m h f)"
  by (fastforce simp: safe_in_def safe_def handleK_def bindK_def split: prod.splits outcome.splits)

text \<open>
  What the cluster must be like: the pods it lists carry their \<open>Started\<close> flags, the side-car
  logs it serves can be read, and this stays so.
\<close>

definition healthy :: "'w kube \<Rightarrow> ('w \<Rightarrow> bool) \<Rightarrow> bool" where
  "healthy K I \<longleftrightarrow> reads_keep K I \<and> objects_keep K I \<and>
     (\<forall>ns k v c ps c'. I c \<longrightarrow> k_ListPods K ns k v c = (Inr ps, c') \<longrightarrow> (\<forall>p \<in> set ps. started_set p)) \<and>
     (\<forall>ns n c ls c'. I c \<longrightarrow> k_StreamLogs K ns n sessionDataContainerName c = (Inr ls, c') \<longrightarrow>
        (\<forall>m. getDataFromLogs (lsData ls) \<noteq> Panic m))"

lemma healthyD:
  assumes "healthy K I"
  shows "reads_keep K I" "objects_keep K I"
  using assms by (simp_all add: healthy_def)

lemma returns_in_getPod:
  assumes "healthy K I"
  shows "returns_in I (getPod K s) (\<lambda>r. \<forall>p. r = Some p \<longrightarrow> started_set p)"
  unfolding returns_in_def
proof (intro allI impI)
  fix w r w' p
  assume I: "I (cluster w)" and run: "getPod K s w = (Ok r, w')" and p: "r = Some p"
  obtain o1 c1 where list: "k_ListPods K (dsNamespace s) DatamoverSessionLabel (dsName s) (cluster w) = (o1, c1)"
    by force
  obtain items where items: "o1 = Inr items"
    using run list by (cases o1) (simp_all add: getPod_def kio_defs)
  let ?m = "filter (\<lambda>pod. isOwnedBy K (podMeta pod) s) items"
  have "p \<in> set ?m"
    using run p list items
    by (cases ?m rule: remdups_adj.cases) (simp_all add: getPod_def kio_defs Let_def)
  then have "p \<in> set items" by simp
  then show "started_set p" using assms I list items unfolding healthy_def by blast
qed

lemma safe_logs:
  assumes "healthy K I"
  shows "safe_in I (fetchFromStatuses K pod sts)"
proof (induction sts)
  case (Cons st sts)
  let ?log = "getContainerLogs K (omName (podMeta pod)) (omNamespace (podMeta pod)) sessionDataContainerName"
  have ret: "returns_in I ?log (\<lambda>l. \<forall>m. getDataFromLogs l \<noteq> Panic m)"
    unfolding returns_in_def
  proof (intro allI impI)
    fix w logs w' m
    assume I: "I (cluster w)" and run: "?log w = (Ok logs, w')"
    then obtain ls c' where "k_StreamLogs K (omNamespace (podMeta pod)) (omName (podMeta pod))
        sessionDataContainerName (cluster w) = (Inr ls, c')" "logs = lsData ls"
      by (auto simp: getContainerLogs_def getContainerLogsReader_def kio_defs
          split: sum.splits prod.splits outcome.splits if_splits)
    then show "getDataFromLogs logs \<noteq> Panic m" using assms I unfolding healthy_def by blast
  qed
  have log: "safe_in I ?log"
    unfolding getContainerLogs_def getContainerLogsReader_def by (intro safe_in_safe run_intro)
  have "safe_in I (bindK ?log (\<lambda>logs. liftK (getDataFromLogs logs)))"
    by (rule safe_in_bind [OF log keeps_logs(2) [OF healthyD(1) [OF assms]] ret])
      (auto intro!: safe_in_safe run_intro)
  then have "safe_in I (handleK ?log (\<lambda>e. errorK (WrapError e ''Failed to read pod logs''))
      (\<lambda>logs. liftK (getDataFromLogs logs)))"
    by (intro handleK_bindK run_intro)
  with Cons show ?case by simp
qed (auto intro: safe_in_safe run_intro)

lemma safe_getReadiness:
  assumes "healthy K I" and "started_set pod"
  shows "safe_in I (getReadiness K pod)"
  unfolding getReadiness_def
proof (rule safe_in_bind [OF _ _ returns_in_True])
  show "safe_in I (liftK (isPodReady pod))"
    using isPodReady_no_panic [OF assms(2)] by (auto intro!: safe_in_safe run_intro)
  fix ready
  show "safe_in I (if ready then bindK (fetchSessionData K pod) (\<lambda>data. case data of
        Some d \<Rightarrow> returnK \<lparr>rdReady = True, rdData = d\<rparr> | None \<Rightarrow> returnK \<lparr>rdReady = False, rdData = []\<rparr>)
      else returnK \<lparr>rdReady = False, rdData = []\<rparr>)"
    using safe_logs [OF assms(1)] keeps_logs(4) [OF healthyD(1) [OF assms(1)]]
    by (auto intro!: safe_in_bind [OF _ _ returns_in_True] safe_in_safe [OF safe_basic(1)]
        simp: fetchSessionData_def fetchSessionDataUsingSidecar_def split: option.splits)
qed (rule run_intro)

lemma safe_getResources:
  assumes healthy: "healthy K I" and lc: "dssLifecycleConfig (dsSpec s) \<noteq> None"
  shows "safe_in I (getResources K s)"
proof -
  note keep = keeps_gets [OF healthyD(1) [OF healthy]]
  have gets: "safe_in I (getService K s)" "safe_in I (getNetworkPolicy K s)" "safe_in I (getPod K s)"
    unfolding getService_def getNetworkPolicy_def getPod_def Let_def
    by (auto intro!: safe_in_safe run_intro split: list.splits)
  show ?thesis
    unfolding getResources_def Let_def
  proof (rule safe_in_bind [OF gets(3) keep(1) returns_in_getPod [OF healthy]])
    fix pod :: "Pod option" assume pod: "\<forall>p. pod = Some p \<longrightarrow> started_set p"
    show "safe_in I (bindK (case pod of None \<Rightarrow> returnK None
          | Some p \<Rightarrow> bindK (getReadiness K p) (\<lambda>rd. returnK (Some rd))) (\<lambda>podReadiness.
       bindK (liftK (deref_lifecycle s)) (\<lambda>lc.
       bindK (if 0 < length (lcServicePorts lc) then getService K s else returnK None) (\<lambda>service.
       bindK (if npcEnabled (lcNetworkPolicy lc) then getNetworkPolicy K s else returnK None) (\<lambda>networkPolicy.
       returnK \<lparr>rsPod = pod, rsPodReadiness = podReadiness, rsService = service,
         rsNeedService = 0 < length (lcServicePorts lc), rsNetworkPolicy = networkPolicy,
         rsNeedNetworkPolicy = npcEnabled (lcNetworkPolicy lc)\<rparr>)))))"
    proof (intro safe_in_bind [OF _ _ returns_in_True])
      show "safe_in I (case pod of None \<Rightarrow> returnK None
          | Some p \<Rightarrow> bindK (getReadiness K p) (\<lambda>rd. returnK (Some rd)))"
        using pod safe_getReadiness [OF healthy] keep(4)
        by (auto intro!: safe_in_bind [OF _ _ returns_in_True] safe_in_safe [OF safe_basic(1)] split: option.splits)
      show "safe_in I (liftK (deref_lifecycle s))"
        using lc by (auto intro!: safe_in_safe run_intro simp: deref_lifecycle_def)
    qed (use gets keep in \<open>auto intro!: run_intro safe_in_safe [OF safe_basic(1)] split: option.splits\<close>)
  qed
qed

lemma safe_CreatePod: "safe (CreatePod K s)"
  unfolding CreatePod_def Let_def
  using MakePodSpec_no_panic [of K s]
  by (cases "MakePodSpec K s") (auto intro!: run_intro split: sum.splits)

lemma returns_CreatePod:
  "returns (CreatePod K s) (\<lambda>s'. dssLifecycleConfig (dsSpec s') \<noteq> None)"
proof -
  obtain made s' where made: "MakePodSpec K s = (made, s')" by force
  have "dssLifecycleConfig (dsSpec s') \<noteq> None" if "made = Ok pod" for pod
    using MakePodSpec_Ok [of K s pod s'] made that share_maps_lifecycle [of K s] by (metis option.distinct(1))
  then show ?thesis
    unfolding CreatePod_def made prod.case Let_def
    by (cases made) (auto intro!: returns_bind [OF returns_True] returns_handle [OF returns_True] returns_basic
        simp: returns_def bindK_def liftK_def handleK_def returnK_def errorK_def split: prod.splits outcome.splits sum.splits)
qed

lemma safe_creates:
  assumes "dssLifecycleConfig (dsSpec s) \<noteq> None"
  shows "safe (CreateService K s)" "safe (CreateNetworkPolicy K s)"
  using assms unfolding CreateService_def CreateNetworkPolicy_def Let_def
  by (auto intro!: run_intro simp: deref_lifecycle_def split: sum.splits)

lemma safe_tryCreateResources:
  assumes "dssLifecycleConfig (dsSpec s) \<noteq> None"
  shows "safe (tryCreateResources K s (Some rs))"
proof -
  let ?A = "\<lambda>s1 :: DatamoverSession. dssLifecycleConfig (dsSpec s1) \<noteq> None"
  have "returns (if rsPod rs = None then CreatePod K s else returnK s) ?A"
    using assms returns_CreatePod by (auto intro: returns_basic)
  moreover have "safe (if rsPod rs = None then CreatePod K s else returnK s)"
    by (intro run_intro safe_CreatePod)
  ultimately have "safe (bindK (if rsPod rs = None then CreatePod K s else returnK s) (\<lambda>s1.
     bindK (if rsService rs = None \<and> rsNeedService rs then CreateService K s1 else returnK ()) (\<lambda>_.
     bindK (if rsNetworkPolicy rs = None \<and> rsNeedNetworkPolicy rs
            then CreateNetworkPolicy K s1 else returnK ()) (\<lambda>_. returnK ()))))"
    by (rule safe_bind) (intro run_intro safe_creates)
  then show ?thesis
    unfolding tryCreateResources_def CreateResources_Some by (intro safe_handle_any safe_basic run_if)
qed

lemma safe_updates:
  "safe (UpdateStatus K s p)" "safe (UpdateStatusResources K s p rs)" "safe (UpdateStatusFailure K s p r)"
  "rsPod rs \<noteq> None \<Longrightarrow> safe (UpdateStatusData K s p rs)"
  unfolding UpdateStatus_def UpdateStatusResources_def UpdateStatusFailure_def UpdateStatusData_def
    statusUpdate_def getPodErrors_def getContainerLogsReader_def Let_def
  by (auto intro!: run_intro split: option.splits prod.splits)

lemma safe_act:
  assumes lc: "dssLifecycleConfig (dsSpec s) \<noteq> None" and wf: "resources_wf K s rs"
    and cl: "classify s rs = Ok (st, r)"
  shows "safe (act K s st r)"
proof -
  have r: "r = Some rs" if "st \<noteq> ValidationFailed" using classify_resources [OF cl] that by auto
  have cleanup: "safe (CleanupService K s r)" for r
    unfolding CleanupService_def DeleteService_def by (intro run_intro)
  note rules = safe_bind_any safe_tryCreateResources [OF lc] safe_updates cleanup safe_basic(1,2)
  show ?thesis
  proof (cases st)
    case Init
    with r show ?thesis using ValidateSession_no_panic [of s]
      by (auto simp: act_def intro!: rules split: outcome.splits)
  next
    case ReadinessSuccess
    then have "resourcesReady rs" using cl by (auto simp: classify_def split: if_splits)
    then have "rsPod rs \<noteq> None" by (simp add: resourcesReady_def resourcesExist_def podExists_def)
    with ReadinessSuccess r show ?thesis by (auto simp: act_def intro!: rules)
  next
    case CreateResourcesSuccess
    with r show ?thesis by (auto simp: act_def deref_resources_def intro!: rules safe_basic(5))
  next
    case ValidationFailed
    then show ?thesis by (auto simp: act_def intro: run_intro)
  qed (use r in \<open>auto simp: act_def intro!: rules\<close>)
qed

text \<open>
  C8: A reconciliation never crashes the controller, on any session and whatever errors the
  API server returns, as long as the listed pods carry the \<open>Started\<close> flag of their containers
  and the side-car logs do not close a frame before it is opened.
\<close>

theorem Reconcile_no_panic:
  assumes "healthy K I" and "I (cluster w)"
  shows "fst (Reconcile K ns name w) \<noteq> Panic m"
proof (rule Reconcile_cases [where K = K and ns = ns and name = name and w = w])
  fix s w1
  assume get: "k_GetSession K ns name (cluster w) = (Inr s, cluster w1)"
    and lc: "dssLifecycleConfig (dsSpec s) \<noteq> None" and rec: "Reconcile K ns name w = Run K s w1"
  have I: "I (cluster w1)"
    using reads_keepD(1) [OF healthyD(1) [OF assms(1)]] get assms(2) unfolding op_keeps_def by metis
  have resources: "getResources K s w1 \<noteq> (Panic p, v)" for p v
    using safe_getResources [OF assms(1) lc] I by (simp add: safe_in_def)
  show ?thesis
  proof (cases K s w1 rule: GetState_cases)
    case (classified rs w2 st r)
    then show ?thesis using rec safeD [OF safe_act [OF lc classified(2,3)]] by (metis prod.collapse)
  qed (use rec resources in auto)
qed auto

definition ref_healthy :: "server \<Rightarrow> bool" where
  "ref_healthy c \<longleftrightarrow> (\<forall>p \<in> set (srvPods c). started_set p) \<and>
     (\<forall>k m. getDataFromLogs (srvLogs c k sessionDataContainerName) \<noteq> Panic m)"

lemma ref_healthy_law: "healthy ref_kube ref_healthy"
proof -
  have "reads_keep ref_kube ref_healthy"
    unfolding reads_keep_def ref_kube_fields op_keeps_def by (auto simp: srv_defs split: option.splits if_splits)
  moreover have "objects_keep ref_kube ref_healthy"
    unfolding objects_keep_def ref_kube_fields op_keeps_def
    by (auto simp: srv_defs ref_healthy_def started_set_def zero_pod_status_def Let_def split: if_splits)
  ultimately show ?thesis
    unfolding healthy_def ref_kube_fields by (auto simp: srv_defs ref_healthy_def)
qed

theorem Reconcile_no_panic_witness: "\<forall>m. fst (Reconcile ref_kube ''ns'' ''s1'' sample_world) \<noteq> Panic m"
proof (rule allI, rule Reconcile_no_panic [OF ref_healthy_law])
  have "getDataFromLogs [] = Ok None" by (rule getDataFromLogs_unframed) simp
  then show "ref_healthy (cluster sample_world)"
    by (simp add: ref_healthy_def sample_world_def sample_server_def)
qed

section \<open>What a reconciliation does in each state\<close>

lemma Run_classified:
  assumes "getResources K s w = (Ok rs, w1)" and "classify s rs = Ok (st, r)"
  shows "Run K s w = act K s st r w1"
  using assms by (simp add: Run_def GetState_def kio_defs)

text \<open>The progress a status update leads to, per state.\<close>

fun target :: "State \<Rightarrow> DatamoverSessionProgress option" where
  "target CreateResourcesSuccess = Some ProgressResourcesCreated"
| "target ReadinessResourcesMissing = Some ProgressReadinessFailure"
| "target ReadinessResourcesFailure = Some ProgressReadinessFailure"
| "target ReadinessSuccess = Some ProgressReady"
| "target SessionResourcesFailure = Some ProgressSessionFailure"
| "target _ = None"

text \<open>Each update of the code comes down to one status update of the same object.\<close>

definition updates_to :: "'w kube \<Rightarrow> DatamoverSession \<Rightarrow> DatamoverSessionProgress \<Rightarrow> ('w, unit) kio \<Rightarrow> bool" where
  "updates_to K s p m \<longleftrightarrow> (\<forall>w. \<exists>s' w2. m w = statusUpdate K s' w2 \<and> requests w2 = requests w
     \<and> same_object s' s \<and> dsProgress s' = p)"

lemma updates_to_statusUpdate:
  "same_object s' s \<Longrightarrow> dsProgress s' = p \<Longrightarrow> updates_to K s p (statusUpdate K s')"
  unfolding updates_to_def by blast

lemma getPodErrors_total: "\<exists>x w'. getPodErrors K n ns w = (Ok x, w')"
  unfolding getPodErrors_def getContainerLogsReader_def Let_def
  by (simp add: handleK_def readK_def returnK_def errorK_def split: prod.split outcome.split sum.split)

lemma updates_to_after:
  assumes "\<And>w. \<exists>x w2. m w = (Ok x, w2) \<and> requests w2 = requests w" and "\<And>x. updates_to K s p (f x)"
  shows "updates_to K s p (bindK m f)"
  unfolding updates_to_def
proof
  fix w
  obtain x w2 where m: "m w = (Ok x, w2)" "requests w2 = requests w" using assms(1) by blast
  then show "\<exists>s' w2. bindK m f w = statusUpdate K s' w2 \<and> requests w2 = requests w
      \<and> same_object s' s \<and> dsProgress s' = p"
    using assms(2) [of x] unfolding updates_to_def by (metis bindK_Ok)
qed

lemma updates:
  "updates_to K s p (UpdateStatus K s p)" "updates_to K s p (UpdateStatusFailure K s p r)"
  "rsPod rs \<noteq> None \<Longrightarrow> updates_to K s p (UpdateStatusResources K s p rs)"
  "rsPod rs \<noteq> None \<Longrightarrow> rsPodReadiness rs \<noteq> None \<Longrightarrow> updates_to K s p (UpdateStatusData K s p rs)"
proof -
  show "updates_to K s p (UpdateStatus K s p)"
    unfolding UpdateStatus_def by (rule updates_to_statusUpdate) simp_all
  show "updates_to K s p (UpdateStatusFailure K s p r)"
    unfolding UpdateStatusFailure_def Let_def
  proof (rule updates_to_after)
    fix w
    have "\<exists>x w2. bindK (getPodErrors K n ns) (\<lambda>(podErrors, err). returnK (n, podErrors)) w = (Ok x, w2)
        \<and> requests w2 = requests w" for n ns
      using getPodErrors_total [of K n ns w] silentD [OF silent_getPodErrors, of K n ns w]
      by (auto simp: bindK_def returnK_def)
    then show "\<exists>x w2. (case case r of None \<Rightarrow> None | Some rs \<Rightarrow> rsPod rs of
        None \<Rightarrow> returnK (siPodName (stSessionInfo (dsStatus s)), siPodErrors (stSessionInfo (dsStatus s)))
      | Some p \<Rightarrow> bindK (getPodErrors K (omName (podMeta p)) (dsNamespace s)) (\<lambda>(podErrors, err).
          returnK (omName (podMeta p), podErrors))) w = (Ok x, w2) \<and> requests w2 = requests w"
      by (cases "case r of None \<Rightarrow> None | Some rs \<Rightarrow> rsPod rs") (simp_all add: returnK_def)
  qed (auto intro!: updates_to_statusUpdate split: prod.splits)
qed (auto intro!: updates_to_statusUpdate simp: UpdateStatusResources_def UpdateStatusData_def Let_def)

lemma updates_to_run:
  assumes "updates_to K s p m"
  shows "\<exists>s' r w'. bindK m (\<lambda>_. returnK x) w = (r, w') \<and> requests w' = requests w @ [StatusUpdateReq s']
    \<and> same_object s' s \<and> dsProgress s' = p \<and> (r = Ok x \<or> (\<exists>e. r = Err e))"
proof -
  obtain s' w2 where m: "m w = statusUpdate K s' w2" "requests w2 = requests w" "same_object s' s" "dsProgress s' = p"
    using assms unfolding updates_to_def by blast
  then show ?thesis
    by (cases "k_StatusUpdate K s' (cluster w2)"; cases "fst (k_StatusUpdate K s' (cluster w2))")
      (auto simp: bindK_def returnK_def statusUpdate_def writeK_def)
qed

lemma act_updates:
  assumes wf: "resources_wf K s rs" and cl: "classify s rs = Ok (st, r)" and tgt: "target st = Some p"
  shows "\<exists>m. updates_to K s p m \<and> act K s st r = bindK m (\<lambda>_. returnK noRequeue)"
proof -
  have r: "r = Some rs" using classify_resources [OF cl] tgt by auto
  have ex: "rsPod rs \<noteq> None" "rsPodReadiness rs \<noteq> None" if "st = CreateResourcesSuccess \<or> st = ReadinessSuccess"
    using that cl wf by (auto simp: classify_def resources_wf_def resourcesReady_def resourcesExist_def podExists_def
        split: if_splits)
  have act: "act K s CreateResourcesSuccess (Some rs)
      = bindK (UpdateStatusResources K s ProgressResourcesCreated rs) (\<lambda>_. returnK noRequeue)"
    by (simp add: act_def deref_resources_def fun_eq_iff kio_simps)
  show ?thesis
  proof (cases st)
    case CreateResourcesSuccess
    then show ?thesis using act r ex tgt by (auto intro!: exI [of _ "UpdateStatusResources K s p rs"] updates)
  next
    case ReadinessSuccess
    then show ?thesis using r ex tgt by (auto simp: act_def intro!: exI [of _ "UpdateStatusData K s p rs"] updates)
  next
    case ReadinessResourcesMissing
    then show ?thesis using tgt by (auto simp: act_def intro!: exI [of _ "UpdateStatus K s p"] updates)
  qed (use tgt in \<open>auto simp: act_def intro!: exI [of _ "UpdateStatusFailure K s p r"] updates\<close>)
qed

text \<open>
  C9: Progress is never withheld: whenever the resources call for it (all there, lost, failed,
  ready, or broken while running) the reconciliation requests exactly one status update, of
  the same object, to the progress of that state; it then ends without requeue, or with the
  error of the update, which the work queue retries.
\<close>

theorem Run_advances:
  assumes "getResources K s w = (Ok rs, w1)" and "classify s rs = Ok (st, r)" and "target st = Some p"
  shows "\<exists>s' res w'. Run K s w = (res, w') \<and> requests w' = requests w @ [StatusUpdateReq s']
    \<and> same_object s' s \<and> dsProgress s' = p \<and> (res = Ok noRequeue \<or> (\<exists>e. res = Err e))"
proof -
  have wf: "resources_wf K s rs" using returnsD [OF returns_getResources assms(1)] .
  obtain m where m: "updates_to K s p m" "act K s st r = bindK m (\<lambda>_. returnK noRequeue)"
    using act_updates [OF wf assms(2,3)] by blast
  have "requests w1 = requests w" using silentD [OF silent_getResources(1) assms(1)] .
  then show ?thesis
    using updates_to_run [OF m(1), of noRequeue w1] m(2) Run_classified [OF assms(1,2)] by simp
qed

text \<open>A session whose resources are all there and ready, on the reference server.\<close>

definition owned_meta :: "string \<Rightarrow> ObjectMeta" where
  "owned_meta n = zero_meta\<lparr>omName := n, omNamespace := ''ns'',
     omLabels := Some [(DatamoverSessionLabel, ''s1'')],
     omOwnerReferences := [\<lparr>orAPIVersion = GroupVersion_String api_GroupVersion, orKind = DatamoverSessionKind,
       orName = ''s1'', orUID = ''u1'', orController = Some True\<rparr>]\<rparr>"

definition created_session :: DatamoverSession where
  "created_session = sample_session\<lparr>dsStatus := zero_status\<lparr>stProgress := ProgressResourcesCreated\<rparr>\<rparr>"

definition ready_pod :: Pod where
  "ready_pod = \<lparr>podMeta = owned_meta ''s1-pod'', podSpec = empty_pod_spec, podStatus = ready_pod_status\<rparr>"

definition owned_service :: Service where
  "owned_service = (makeServiceSpec sample_session sample_lifecycle ''s1-service'')\<lparr>svcMeta := owned_meta ''s1-service''\<rparr>"

definition owned_policy :: NetworkPolicy where
  "owned_policy = (makeNetworkPolicySpec sample_session sample_lifecycle)\<lparr>npMeta := owned_meta ''s1''\<rparr>"

definition ready_world :: "server world" where
  "ready_world = \<lparr>cluster = sample_server\<lparr>srvSessions := [(''ns'', ''s1'') \<mapsto> created_session],
     srvPods := [ready_pod], srvServices := [(''ns'', ''s1-service'') \<mapsto> owned_service],
     srvPolicies := [(''ns'', ''s1'') \<mapsto> owned_policy], srvLogs := (\<lambda>_ _. sidecar_log ''aGk='')\<rparr>, requests = []\<rparr>"

definition ready_resources :: resources where
  "ready_resources = \<lparr>rsPod = Some ready_pod, rsPodReadiness = Some \<lparr>rdReady = True, rdData = ''aGk=''\<rparr>,
     rsService = Some owned_service, rsNeedService = True, rsNetworkPolicy = Some owned_policy,
     rsNeedNetworkPolicy = True\<rparr>"

lemma owned_meta_simps [simp]:
  "omName (owned_meta n) = n" "omNamespace (owned_meta n) = ''ns''"
  "omLabels (owned_meta n) = Some [(DatamoverSessionLabel, ''s1'')]"
  by (simp_all add: owned_meta_def)

lemma created_session_simps [simp]:
  "dsMeta created_session = dsMeta sample_session" "dsSpec created_session = dsSpec sample_session"
  "dsStatus created_session = zero_status\<lparr>stProgress := ProgressResourcesCreated\<rparr>"
  by (simp_all add: created_session_def)

lemma owned_by_sample: "isOwnedBy ref_kube (owned_meta n) created_session"
proof -
  have "lib_ParseGroupVersion ref_kube (GroupVersion_String api_GroupVersion) = Inr api_GroupVersion"
    using ref_owner_law unfolding owner_law_def by blast
  then show ?thesis by (simp add: isOwnedBy_def ref_GetControllerOf_def owned_meta_def)
qed

lemma ready_data: "getDataFromLogs (sidecar_log ''aGk='') = Ok (Some ''aGk='')"
  using getDataFromLogs_sidecar [of "''aGk=''" "[]"] by (simp add: base64_alphabet_def)

lemma ready_getReadiness:
  "getReadiness ref_kube ready_pod ready_world = (Ok \<lparr>rdReady = True, rdData = ''aGk=''\<rparr>, ready_world)"
proof -
  have "isPodReady ready_pod = Ok True"
    by (simp add: isPodReady_True_iff ready_pod_def ready_pod_status_def first_status_def ready_status_def)
  then show ?thesis
    by (simp add: getReadiness_def fetchSessionData_def fetchSessionDataUsingSidecar_def ready_pod_def
        ready_pod_status_def ready_status_def getContainerLogs_def getContainerLogsReader_def kio_defs srv_defs
        ready_world_def ready_data)
qed

lemma ready_getResources: "getResources ref_kube created_session ready_world = (Ok ready_resources, ready_world)"
proof -
  have "getPod ref_kube created_session ready_world = (Ok (Some ready_pod), ready_world)"
    by (simp add: getPod_def kio_defs srv_defs ready_world_def ready_pod_def owned_by_sample Let_def)
  moreover have "getService ref_kube created_session ready_world = (Ok (Some owned_service), ready_world)"
    by (simp add: getService_def kio_defs srv_defs ready_world_def owned_service_def owned_by_sample GetServiceName_def)
  moreover have "getNetworkPolicy ref_kube created_session ready_world = (Ok (Some owned_policy), ready_world)"
    by (simp add: getNetworkPolicy_def kio_defs srv_defs ready_world_def owned_policy_def owned_by_sample)
  ultimately show ?thesis
    using ready_getReadiness
    by (simp add: getResources_def bindK_def liftK_def returnK_def deref_lifecycle_def ready_resources_def Let_def)
qed

lemma ready_classify: "classify created_session ready_resources = Ok (ReadinessSuccess, Some ready_resources)"
  by (simp add: classify_def ready_resources_def resourcesExist_def podExists_def serviceOk_def networkPolicyOk_def
      resourcesFailed_def resourcesReady_def podFailed_def ready_pod_def ready_pod_status_def api_defs)

theorem Run_advances_witness:
  "\<exists>s' res w'. Run ref_kube created_session ready_world = (res, w') \<and> requests w' = [StatusUpdateReq s']
     \<and> dsProgress s' = ProgressReady"
  using Run_advances [OF ready_getResources ready_classify, of ProgressReady]
  by (auto simp: ready_world_def)

section \<open>What a ready session has\<close>

lemma run_log_ready:
  assumes "run_log K s rs qs" and "StatusUpdateReq s' \<in> set qs" and "dsProgress s' = ProgressReady"
  shows "resourcesReady rs \<and> \<not> resourcesFailed rs \<and> ready_info rs (stSessionInfo (dsStatus s')) \<and> same_object s' s"
  using assms by (auto simp: run_log_def create_log_def at_most_one_def pod_request_def service_request_def
      policy_request_def)

lemma ready_update_sound:
  assumes "owner_law K" and "Reconcile K ns name w = (r, w')" and "requests w' = requests w @ qs"
    and "StatusUpdateReq s' \<in> set qs" and "dsProgress s' = ProgressReady"
  shows "\<exists>s w1 w2 rs pod lc. k_GetSession K ns name (cluster w) = (Inr s, cluster w1) \<and> same_object s' s
    \<and> getResources K s w1 = (Ok rs, w2) \<and> dssLifecycleConfig (dsSpec s) = Some lc
    \<and> rsPod rs = Some pod \<and> isOwnedBy K (podMeta pod) s \<and> isPodReady pod = Ok True
    \<and> (\<exists>rd. rsPodReadiness rs = Some rd \<and> rdReady rd \<and> rdData rd = siSessionData (stSessionInfo (dsStatus s')))
    \<and> published K pod (siSessionData (stSessionInfo (dsStatus s')))
    \<and> siPodName (stSessionInfo (dsStatus s')) = omName (podMeta pod)
    \<and> siPodErrors (stSessionInfo (dsStatus s')) = []
    \<and> (lcServicePorts lc \<noteq> [] \<longrightarrow> (\<exists>svc. rsService rs = Some svc \<and> isOwnedBy K (svcMeta svc) s
          \<and> siServiceName (stSessionInfo (dsStatus s')) = omName (svcMeta svc)))
    \<and> (npcEnabled (lcNetworkPolicy lc) \<longrightarrow> (\<exists>np. rsNetworkPolicy rs = Some np \<and> isOwnedBy K (npMeta np) s))"
proof (rule Reconcile_cases [where K = K and ns = ns and name = name and w = w])
  fix s w1
  assume get: "k_GetSession K ns name (cluster w) = (Inr s, cluster w1)" "requests w1 = requests w"
    and "Reconcile K ns name w = Run K s w1"
  then have "Run K s w1 = (r, w')" using assms(2) by simp
  then obtain rs w2 where rs: "getResources K s w1 = (Ok rs, w2)" "resources_wf K s rs" "run_log K s rs qs"
    using Run_requests_log [OF assms(1)] assms(3,4) get(2) by fastforce
  note ready = run_log_ready [OF rs(3) assms(4,5)]
  obtain pod rd where pod: "rsPod rs = Some pod" "rsPodReadiness rs = Some rd"
      "stSessionInfo (dsStatus s') = \<lparr>siPodName = omName (podMeta pod), siServiceName = serviceNameOf (rsService rs) [],
         siSessionData = rdData rd, siPodErrors = []\<rparr>"
    using ready by (auto simp: ready_info_def)
  have "rdReady rd" using ready pod(2) by (simp add: resourcesReady_def)
  moreover obtain lc where "dssLifecycleConfig (dsSpec s) = Some lc" "rsNeedService rs = (lcServicePorts lc \<noteq> [])"
      "rsNeedNetworkPolicy rs = npcEnabled (lcNetworkPolicy lc)"
    using rs(2) by (auto simp: resources_wf_def)
  ultimately show ?thesis
    using get(1) rs(1,2) ready pod
    by (intro exI [of _ s] exI [of _ w1] exI [of _ w2] exI [of _ rs] exI [of _ pod] exI [of _ lc])
      (auto simp: resources_wf_def resourcesReady_def resourcesExist_def serviceOk_def networkPolicyOk_def
        serviceNameOf_def)
qed (use assms in auto)

text \<open>
  C3: A session is reported ready only when it is.  If a reconciliation requests the progress
  \<open>Ready\<close>, it has read a pod that the session controls and whose two containers are started
  and ready, a service and a network policy it controls where its specification asks for them,
  and a complete side-car log of that pod; the status carries the names of pod and service,
  exactly the data framed in that log, and no errors.
\<close>

theorem ready_status_sound:
  assumes "owner_law K" and "Reconcile K ns name w = (r, w')" and "requests w' = requests w @ qs"
    and "StatusUpdateReq s' \<in> set qs" and "dsProgress s' = ProgressReady"
  shows "\<exists>s w1 w2 rs pod lc. k_GetSession K ns name (cluster w) = (Inr s, cluster w1) \<and> same_object s' s
    \<and> getResources K s w1 = (Ok rs, w2) \<and> dssLifecycleConfig (dsSpec s) = Some lc
    \<and> rsPod rs = Some pod \<and> isOwnedBy K (podMeta pod) s \<and> isPodReady pod = Ok True
    \<and> (\<exists>rd. rsPodReadiness rs = Some rd \<and> rdReady rd \<and> rdData rd = siSessionData (stSessionInfo (dsStatus s')))
    \<and> published K pod (siSessionData (stSessionInfo (dsStatus s')))
    \<and> siPodName (stSessionInfo (dsStatus s')) = omName (podMeta pod)
    \<and> siPodErrors (stSessionInfo (dsStatus s')) = []
    \<and> (lcServicePorts lc \<noteq> [] \<longrightarrow> (\<exists>svc. rsService rs = Some svc \<and> isOwnedBy K (svcMeta svc) s
          \<and> siServiceName (stSessionInfo (dsStatus s')) = omName (svcMeta svc)))
    \<and> (npcEnabled (lcNetworkPolicy lc) \<longrightarrow> (\<exists>np. rsNetworkPolicy rs = Some np \<and> isOwnedBy K (npMeta np) s))"
  by (rule ready_update_sound [OF assms])

lemma ready_run:
  "\<exists>r w' s'. Reconcile ref_kube ''ns'' ''s1'' ready_world = (r, w') \<and> requests w' = requests ready_world @ [StatusUpdateReq s']
     \<and> dsProgress s' = ProgressReady"
proof -
  obtain m where m: "updates_to ref_kube created_session ProgressReady m"
      "act ref_kube created_session ReadinessSuccess (Some ready_resources) = bindK m (\<lambda>_. returnK noRequeue)"
    using act_updates [OF returnsD [OF returns_getResources ready_getResources] ready_classify] by auto
  have "Reconcile ref_kube ''ns'' ''s1'' ready_world = Run ref_kube created_session ready_world"
    by (simp add: Reconcile_def kio_defs srv_defs ready_world_def)
  then show ?thesis
    using updates_to_run [OF m(1), of noRequeue ready_world] m(2) Run_classified [OF ready_getResources ready_classify]
    by auto
qed

theorem ready_status_sound_witness:
  "\<exists>pod s'. isPodReady pod = Ok True \<and> dsProgress s' = ProgressReady
     \<and> published ref_kube pod (siSessionData (stSessionInfo (dsStatus s')))"
proof -
  obtain r w' s' where run: "Reconcile ref_kube ''ns'' ''s1'' ready_world = (r, w')"
      "requests w' = requests ready_world @ [StatusUpdateReq s']" "dsProgress s' = ProgressReady"
    using ready_run by blast
  show ?thesis using ready_status_sound [OF ref_owner_law run(1,2) _ run(3)] run(3) by auto
qed

section \<open>What a failed pod reports\<close>

text \<open>
  C20: The error report of a pod.  When the pod cannot be read the report is empty; when its log
  cannot be opened it is the reason why the main container is not running, taken from the last
  status of that container that gives one; otherwise it is that reason, a newline, and the lines
  of the log in which \<open>ERROR\<close> occurs, in their order and no others.  A line is
  reported without a carriage return at its end, and the first line that is too long for the
  scanner ends the report: it and everything after it is dropped silently.
\<close>

theorem getPodErrors_correct:
  "(\<forall>e c1. k_GetPod K ns n (cluster w) = (Inl e, c1) \<longrightarrow> getPodErrors K n ns w = (Ok ([], Some e), w\<lparr>cluster := c1\<rparr>)) \<and>
   (\<forall>pod c1. k_GetPod K ns n (cluster w) = (Inr pod, c1) \<longrightarrow>
      (\<forall>e. k_NewForConfig K = Inl e \<longrightarrow>
         getPodErrors K n ns w = (Ok (reported_failure pod, Some e), w\<lparr>cluster := c1\<rparr>)) \<and>
      (\<forall>x e c2. k_NewForConfig K = Inr x \<longrightarrow> k_StreamLogs K ns n DefaultContainerName c1 = (Inl e, c2) \<longrightarrow>
         getPodErrors K n ns w
           = (Ok (reported_failure pod, Some (NewError ''error in opening stream'')), w\<lparr>cluster := c2\<rparr>)) \<and>
      (\<forall>x podLogs c2 ls. k_NewForConfig K = Inr x \<longrightarrow>
         k_StreamLogs K ns n DefaultContainerName c1 = (Inr podLogs, c2) \<longrightarrow> lines_in (lsData podLogs) ls \<longrightarrow>
         getPodErrors K n ns w = (Ok (reported_failure pod @ [CHR 0x0A]
           @ Join (filter (\<lambda>l. \<exists>u v. l = u @ ''ERROR'' @ v) (map dropCR ls)) [CHR 0x0A], None), w\<lparr>cluster := c2\<rparr>)))"
  by (intro conjI allI impI)
    (rule getPodErrors_no_pod getPodErrors_no_client getPodErrors_no_stream getPodErrors_report, assumption+)+

text \<open>A pod whose main container was terminated, with a log that has a line too long to scan.\<close>

definition broken_pod :: Pod where
  "broken_pod = ready_pod\<lparr>podStatus := ready_pod_status\<lparr>pstContainerStatuses := [(ready_status DefaultContainerName)\<lparr>
     cstReady := False, cstState := \<lparr>csWaiting = None, csTerminated = Some \<lparr>csdReason = ''Error'', csdMessage = ''exit 1''\<rparr>\<rparr>\<rparr>]\<rparr>\<rparr>"

definition broken_log :: string where
  "broken_log = log_of_lines [''ok'', ''an ERROR here''] @ replicate MaxScanTokenSize (CHR ''x'') @ CHR 0x0A # ''lost ERROR''"

definition broken_world :: "server world" where
  "broken_world = \<lparr>cluster = sample_server\<lparr>srvPods := [broken_pod], srvLogs := (\<lambda>_ _. broken_log)\<rparr>, requests = []\<rparr>"

lemma broken_lines: "lines_in broken_log [''ok'', ''an ERROR here'']"
  unfolding lines_in_def broken_log_def
  by (intro conjI disjI2 exI [of _ "replicate MaxScanTokenSize (CHR ''x'')"] exI [of _ "CHR 0x0A # ''lost ERROR''"])
    (simp_all add: short_line_def MaxScanTokenSize_def)

theorem getPodErrors_correct_witness:
  "getPodErrors ref_kube ''s1-pod'' ''ns'' broken_world
     = (Ok (''Main container terminated: Error exit 1'' @ [CHR 0x0A] @ ''an ERROR here'', None), broken_world)"
proof -
  have pod: "k_GetPod ref_kube ''ns'' ''s1-pod'' (cluster broken_world) = (Inr broken_pod, cluster broken_world)"
    by (simp add: srv_defs broken_world_def broken_pod_def ready_pod_def pod_key_def)
  have logs: "k_StreamLogs ref_kube ''ns'' ''s1-pod'' DefaultContainerName (cluster broken_world)
      = (Inr \<lparr>lsData = broken_log, lsFails = False\<rparr>, cluster broken_world)"
    by (simp add: srv_defs broken_world_def)
  have msg: "reported_failure broken_pod = ''Main container terminated: Error exit 1''"
    by (simp add: reported_failure_def failure_messages_def failure_message_def broken_pod_def ready_pod_status_def
        ready_status_def List.map_filter_def)
  have errs: "filter (\<lambda>l. \<exists>u v. l = u @ ''ERROR'' @ v) (map dropCR [''ok'', ''an ERROR here'']) = [''an ERROR here'']"
    unfolding sublist_def [symmetric] by (simp add: dropCR_def sublist_Cons_right)
  have "getPodErrors ref_kube ''s1-pod'' ''ns'' broken_world = (Ok (reported_failure broken_pod @ [CHR 0x0A]
      @ Join (filter (\<lambda>l. \<exists>u v. l = u @ ''ERROR'' @ v) (map dropCR [''ok'', ''an ERROR here''])) [CHR 0x0A], None),
      broken_world\<lparr>cluster := cluster broken_world\<rparr>)"
    by (rule getPodErrors_correct [THEN conjunct2, rule_format, OF pod, THEN conjunct2, THEN conjunct2, rule_format,
          OF _ logs]) (simp_all add: broken_lines)
  then show ?thesis unfolding msg errs by simp
qed

section \<open>Where the controller rests\<close>

text \<open>
  The situations that call for nothing: a rejected session; a failed one without a service; a
  running one; and one that waits for its pod.
\<close>

definition resting :: "DatamoverSession \<Rightarrow> resources \<Rightarrow> bool" where
  "resting s rs \<longleftrightarrow> dsProgress s = ProgressValidationFailed
     \<or> dsProgress s \<in> {ProgressReadinessFailure, ProgressSessionFailure} \<and> rsService rs = None
     \<or> dsProgress s = ProgressReady \<and> resourcesReady rs \<and> \<not> resourcesFailed rs
     \<or> dsProgress s = ProgressResourcesCreated \<and> resourcesExist rs \<and> \<not> resourcesFailed rs \<and> \<not> resourcesReady rs"

lemma resourcesReady_exist: "resourcesReady rs \<Longrightarrow> resourcesExist rs"
  by (simp add: resourcesReady_def)

lemma resting_act:
  assumes "resting s rs"
  obtains st r where "classify s rs = Ok (st, r)"
    "act K s st r = returnK (if dsProgress s = ProgressResourcesCreated then requeue_wait_sec 20 else noRequeue)"
proof -
  have cleanup: "bindK (CleanupService K s (Some rs)) (\<lambda>_. returnK x) = returnK x" if "rsService rs = None" for x
    using that by (simp add: CleanupService_def fun_eq_iff kio_simps)
  obtain st r where c: "classify s rs = Ok (st, r)"
    using assms resourcesReady_exist [of rs]
    by (cases "resourcesCleanedUp rs") (auto simp: resting_def classify_def)
  then have "act K s st r = returnK (if dsProgress s = ProgressResourcesCreated then requeue_wait_sec 20 else noRequeue)"
    using assms resourcesReady_exist [of rs] cleanup
    by (auto simp: resting_def classify_def act_def split: if_splits)
  with c that show thesis by blast
qed

text \<open>
  C11: The controller comes to rest.  A rejected session, a failed one whose service is gone, a
  running one, and one that waits for its pod are left alone: the reconciliation issues no
  request, and asks to be called again (after 20 seconds) only while it waits.
\<close>

theorem Run_rests:
  assumes "getResources K s w = (Ok rs, w1)" and "resting s rs"
  shows "Run K s w = (Ok (if dsProgress s = ProgressResourcesCreated then requeue_wait_sec 20 else noRequeue), w1)
    \<and> requests w1 = requests w"
proof -
  obtain st r where "classify s rs = Ok (st, r)"
    "act K s st r = returnK (if dsProgress s = ProgressResourcesCreated then requeue_wait_sec 20 else noRequeue)"
    using resting_act [OF assms(2)] by metis
  then show ?thesis
    using Run_classified [OF assms(1)] silentD [OF silent_getResources(1) assms(1)] by (simp add: returnK_def)
qed

definition running_session :: DatamoverSession where
  "running_session = created_session\<lparr>dsStatus := zero_status\<lparr>stProgress := ProgressReady\<rparr>\<rparr>"

lemma getResources_status:
  assumes "dsMeta s = dsMeta s'" and "dsSpec s = dsSpec s'"
  shows "getResources K s = getResources K s'"
proof -
  have own: "isOwnedBy K m s = isOwnedBy K m s'" for m
    using assms by (simp add: isOwnedBy_def split: option.split sum.split)
  have gets: "getPod K s = getPod K s'" "getService K s = getService K s'" "getNetworkPolicy K s = getNetworkPolicy K s'"
    unfolding getPod_def getService_def getNetworkPolicy_def GetServiceName_def own assms(1) by (rule refl)+
  have "deref_lifecycle s = deref_lifecycle s'" using assms(2) by (simp add: deref_lifecycle_def)
  then show ?thesis unfolding getResources_def gets by simp
qed

lemma running_resources: "getResources ref_kube running_session ready_world = (Ok ready_resources, ready_world)"
  using ready_getResources getResources_status [of running_session created_session ref_kube] by (simp add: running_session_def)

theorem Run_rests_witness: "Run ref_kube running_session ready_world = (Ok noRequeue, ready_world)"
proof -
  have "resting running_session ready_resources"
    by (simp add: resting_def running_session_def ready_resources_def resourcesReady_def resourcesExist_def podExists_def
        serviceOk_def networkPolicyOk_def resourcesFailed_def podFailed_def ready_pod_def ready_pod_status_def api_defs)
  from Run_rests [OF running_resources this] show ?thesis by (simp add: running_session_def)
qed

text \<open>
  A failed session that still has a live pod but no service is classified as not cleaned
  up, and nothing is done about it: no request, no requeue.
\<close>

theorem dirty_session_rests:
  assumes "getResources K s w = (Ok rs, w1)"
    and "dsProgress s \<in> {ProgressReadinessFailure, ProgressSessionFailure}"
    and "rsService rs = None" and "rsPod rs = Some p" and "podAlive p"
  shows "\<exists>st. classify s rs = Ok (st, Some rs) \<and> st \<in> {ReadinessFailedDirty, SessionFailedDirty}
    \<and> Run K s w = (Ok noRequeue, w1) \<and> requests w1 = requests w"
proof -
  have rest: "resting s rs" using assms(2,3) by (auto simp: resting_def)
  obtain st r where st: "classify s rs = Ok (st, r)"
    "act K s st r = returnK (if dsProgress s = ProgressResourcesCreated then requeue_wait_sec 20 else noRequeue)"
    using resting_act [OF rest] by metis
  have "\<not> resourcesCleanedUp rs" using assms(3-5) by (simp add: resourcesCleanedUp_def resourcesEmpty_def)
  then show ?thesis
    using st Run_classified [OF assms(1) st(1)] silentD [OF silent_getResources(1) assms(1)] assms(2)
    by (auto simp: classify_def returnK_def split: if_splits)
qed

definition dirty_session :: DatamoverSession where
  "dirty_session = created_session\<lparr>dsStatus := zero_status\<lparr>stProgress := ProgressSessionFailure\<rparr>\<rparr>"

definition dirty_world :: "server world" where
  "dirty_world = ready_world\<lparr>cluster := (cluster ready_world)\<lparr>srvServices := Map.empty\<rparr>\<rparr>"

lemma dirty_resources:
  "getResources ref_kube dirty_session dirty_world = (Ok (ready_resources\<lparr>rsService := None\<rparr>), dirty_world)"
proof -
  have "getResources ref_kube created_session dirty_world = (Ok (ready_resources\<lparr>rsService := None\<rparr>), dirty_world)"
  proof -
    have "isPodReady ready_pod = Ok True"
      by (simp add: isPodReady_True_iff ready_pod_def ready_pod_status_def first_status_def ready_status_def)
    then have "getReadiness ref_kube ready_pod dirty_world = (Ok \<lparr>rdReady = True, rdData = ''aGk=''\<rparr>, dirty_world)"
      by (simp add: getReadiness_def fetchSessionData_def fetchSessionDataUsingSidecar_def ready_pod_def
          ready_pod_status_def ready_status_def getContainerLogs_def getContainerLogsReader_def kio_defs srv_defs
          dirty_world_def ready_world_def ready_data)
    moreover have "getPod ref_kube created_session dirty_world = (Ok (Some ready_pod), dirty_world)"
      by (simp add: getPod_def kio_defs srv_defs dirty_world_def ready_world_def ready_pod_def owned_by_sample Let_def)
    moreover have "getService ref_kube created_session dirty_world = (Ok None, dirty_world)"
      by (simp add: getService_def kio_defs srv_defs dirty_world_def ready_world_def not_found_def)
    moreover have "getNetworkPolicy ref_kube created_session dirty_world = (Ok (Some owned_policy), dirty_world)"
      by (simp add: getNetworkPolicy_def kio_defs srv_defs dirty_world_def ready_world_def owned_policy_def owned_by_sample)
    ultimately show ?thesis
      by (simp add: getResources_def bindK_def liftK_def returnK_def deref_lifecycle_def ready_resources_def Let_def)
  qed
  then show ?thesis using getResources_status [of dirty_session created_session ref_kube] by (simp add: dirty_session_def)
qed

theorem dirty_session_rests_witness: "Run ref_kube dirty_session dirty_world = (Ok noRequeue, dirty_world)"
  using dirty_session_rests [OF dirty_resources]
  by (auto simp: dirty_session_def ready_resources_def podAlive_def ready_pod_def ready_pod_status_def)

section \<open>Sessions do not share objects\<close>

text \<open>
  C12: Two sessions never act on the same object: if the reconciliations of two sessions read
  the same pod, the same service or the same network policy as their own, the sessions have
  the same name and the same UID.
\<close>

theorem sessions_isolated:
  assumes "getResources K s w = (Ok rs, w1)" and "getResources K s' v = (Ok rs', v1)"
    and "rsPod rs \<noteq> None \<and> rsPod rs = rsPod rs' \<or> rsService rs \<noteq> None \<and> rsService rs = rsService rs'
      \<or> rsNetworkPolicy rs \<noteq> None \<and> rsNetworkPolicy rs = rsNetworkPolicy rs'"
  shows "dsName s = dsName s' \<and> omUID (dsMeta s) = omUID (dsMeta s')"
proof -
  have wf: "resources_wf K s rs" "resources_wf K s' rs'"
    using returnsD [OF returns_getResources] assms(1,2) by blast+
  from assms(3) obtain m where "isOwnedBy K m s" "isOwnedBy K m s'"
    using wf unfolding resources_wf_def by (elim disjE conjE) (metis option.exhaust)+
  then show ?thesis by (rule isOwnedBy_unique)
qed

theorem sessions_isolated_witness:
  "dsName running_session = dsName created_session \<and> omUID (dsMeta running_session) = omUID (dsMeta created_session)"
  using sessions_isolated [OF running_resources ready_getResources] by (simp add: ready_resources_def)

section \<open>Errors\<close>

text \<open>
  C13: On every status the controller can store, and whatever resources it reads, exactly one
  situation has no state and makes the reconciliation fail: a session that is reported ready,
  whose objects all exist and whose pod has not failed, but is not ready at the moment.
\<close>

theorem classify_error_iff:
  assumes "status_inv (dsStatus s)"
  shows "(\<exists>e. classify s rs = Err e) \<longleftrightarrow>
    dsProgress s = ProgressReady \<and> resourcesExist rs \<and> \<not> resourcesFailed rs \<and> \<not> resourcesReady rs"
  using assms by (auto simp: classify_def status_inv_def)

theorem classify_error_iff_witness:
  "\<exists>e. classify running_session
     (ready_resources\<lparr>rsPodReadiness := Some \<lparr>rdReady = False, rdData = []\<rparr>\<rparr>) = Err e"
proof -
  have "status_inv (dsStatus running_session)"
    by (simp add: status_inv_def running_session_def zero_status_def empty_info_def)
  from classify_error_iff [OF this] show ?thesis
    by (simp add: running_session_def ready_resources_def resourcesReady_def resourcesExist_def podExists_def
        serviceOk_def networkPolicyOk_def resourcesFailed_def podFailed_def ready_pod_def ready_pod_status_def api_defs)
qed

lemma CreateService_refused:
  assumes "reference_law K" and "\<And>x c. fst (k_CreateService K x c) = Inl e"
    and "dssLifecycleConfig (dsSpec s) = Some lc" and "lcServicePorts lc \<noteq> []"
  shows "\<exists>x w'. CreateService K s w = (Err (WrapError e ''Failed to create service''), w')
    \<and> requests w' = requests w @ [CreateServiceReq x]"
proof -
  let ?svc = "makeServiceSpec s lc (GetServiceName s)"
  obtain m' where m': "lib_SetControllerReference K s (svcMeta ?svc) = Inr m'"
    using assms(1) unfolding reference_law_def by (fastforce simp: makeServiceSpec_def zero_meta_def)
  obtain c' where "k_CreateService K (?svc\<lparr>svcMeta := m'\<rparr>) (cluster w) = (Inl e, c')"
    using assms(2) by (metis prod.collapse)
  with m' show ?thesis using assms(3,4)
    by (auto simp: CreateService_def deref_lifecycle_def kio_defs Let_def)
qed

text \<open>
  A service that exists already (a stale read) is not a failure: when the server refuses
  the service because it exists, the creation step succeeds although the error reaches it
  wrapped; any other refusal is returned with its message.  In both cases nothing is requested
  after the service.
\<close>

theorem service_refusal:
  assumes "reference_law K" and "status_law K" and "dssLifecycleConfig (dsSpec s) = Some lc"
    and "lcServicePorts lc \<noteq> []" and "rsPod rs \<noteq> None" and "rsService rs = None" and "rsNeedService rs"
    and "\<forall>x c. fst (k_CreateService K x c) = Inl e"
  shows "\<exists>x w'. tryCreateResources K s (Some rs) w
      = (if lib_IsAlreadyExists K e then Ok () else Err (WrapError e ''Failed to create service''), w')
    \<and> requests w' = requests w @ [CreateServiceReq x]"
proof -
  obtain x w' where run: "CreateService K s w = (Err (WrapError e ''Failed to create service''), w')"
      "requests w' = requests w @ [CreateServiceReq x]"
    using CreateService_refused [OF assms(1) _ assms(3,4), of e] assms(8) by blast
  have "CreateResources K s (Some rs) w = (Err (WrapError e ''Failed to create service''), w')"
    using assms(5-7) run(1) by (auto simp: CreateResources_Some kio_simps)
  then show ?thesis
    using run(2) assms(2) by (auto simp: tryCreateResources_def handleK_def returnK_def errorK_def status_law_def)
qed

definition busy_kube :: "server kube" where
  "busy_kube = ref_kube\<lparr>k_CreateService := (\<lambda>x c. (Inl (StatusError ''AlreadyExists'' ''service exists''), c))\<rparr>"

theorem service_refusal_witness:
  "\<exists>x w'. tryCreateResources busy_kube created_session (Some (ready_resources\<lparr>rsService := None\<rparr>)) ready_world = (Ok (), w')
     \<and> requests w' = [CreateServiceReq x]"
proof -
  have laws: "reference_law busy_kube" "status_law busy_kube"
    using ref_reference_law by (simp_all add: busy_kube_def reference_law_def status_law_def)
  show ?thesis
    using service_refusal [OF laws, of created_session sample_lifecycle "ready_resources\<lparr>rsService := None\<rparr>"
        "StatusError ''AlreadyExists'' ''service exists''" ready_world]
    by (simp add: ready_resources_def busy_kube_def) (simp add: ready_world_def)
qed

end
