(* ===== verification/Sessions.thy ===== *)
theory Sessions
  imports Reference
begin

text \<open>
  \<open>pkg/session/session.go\<close>: what clients of a session do, through the dynamic Kubernetes
  client: create, read and delete sessions, wait until a session is ready, and find out how to
  reach it.  The dynamic client, the converter between typed and unstructured objects and the
  clock are parameters.
\<close>

section \<open>Parameters\<close>

record GroupVersionResource =
  gvrGroup :: string
  gvrVersion :: string
  gvrResource :: string

text \<open>The dynamic client, with \<open>'u\<close> the unstructured objects it carries.\<close>

record ('w, 'u) dynamic =
  dyn_Get :: "GroupVersionResource \<Rightarrow> string \<Rightarrow> string \<Rightarrow> 'w \<Rightarrow> (error + 'u) \<times> 'w"
  dyn_Create :: "GroupVersionResource \<Rightarrow> string \<Rightarrow> 'u \<Rightarrow> 'w \<Rightarrow> (error + 'u) \<times> 'w"
  dyn_Delete :: "GroupVersionResource \<Rightarrow> string \<Rightarrow> string \<Rightarrow> 'w \<Rightarrow> (error + unit) \<times> 'w"
  dyn_ToUnstructured :: "DatamoverSession \<Rightarrow> error + 'u"
  dyn_SessionFrom :: "'u \<Rightarrow> error + DatamoverSession"
  dyn_ServiceFrom :: "'u \<Rightarrow> error + Service"

text \<open>
  The clock, and the \<open>select\<close> between a context with the given deadline and a timer with the
  given interval: which of the two fired, and the state after the wait.
\<close>

datatype fired = Done | After

record 'w timer =
  tm_now :: "'w \<Rightarrow> int"
  tm_select :: "int \<Rightarrow> int \<Rightarrow> 'w \<Rightarrow> fired \<times> 'w"

text \<open>
  Time does not run backwards.  A timer fires no earlier than its interval; it cannot win
  against a context that was done when the wait began.  The context may be done at any time:
  its parent may be cancelled.
\<close>

definition timer_law :: "'w timer \<Rightarrow> bool" where
  "timer_law T \<longleftrightarrow>
     (\<forall>d i w w'. 0 < i \<longrightarrow> tm_select T d i w = (After, w') \<longrightarrow>
        tm_now T w < d \<and> tm_now T w + i \<le> tm_now T w') \<and>
     (\<forall>d i w w'. tm_select T d i w = (Done, w') \<longrightarrow> tm_now T w \<le> tm_now T w')"

section \<open>Reading, creating and deleting sessions\<close>

definition ResourceNamePlural :: string where
  "ResourceNamePlural = ''datamoversessions''"

definition sessionResource :: GroupVersionResource where
  "sessionResource = \<lparr>gvrGroup = gvGroup api_GroupVersion, gvrVersion = gvVersion api_GroupVersion,
     gvrResource = ResourceNamePlural\<rparr>"

definition serviceResource :: GroupVersionResource where
  "serviceResource = \<lparr>gvrGroup = [], gvrVersion = ''v1'', gvrResource = ''services''\<rparr>"

definition Get :: "('w, 'u) dynamic \<Rightarrow> string \<Rightarrow> string \<Rightarrow> 'w \<Rightarrow> (error + DatamoverSession) \<times> 'w" where
  "Get D sessionName sessionNamespace w =
     (case dyn_Get D sessionResource sessionNamespace sessionName w of
        (Inl e, w1) \<Rightarrow> (Inl e, w1)
      | (Inr us, w1) \<Rightarrow> (dyn_SessionFrom D us, w1))"

definition Create :: "('w, 'u) dynamic \<Rightarrow> DatamoverSession \<Rightarrow> 'w \<Rightarrow> (error + DatamoverSession) \<times> 'w" where
  "Create D s w =
     (let s1 = s\<lparr>dsKind := DatamoverSessionKind, dsAPIVersion := GroupVersion_String api_GroupVersion\<rparr> in
      case dyn_ToUnstructured D s1 of
        Inl e \<Rightarrow> (Inl e, w)
      | Inr us \<Rightarrow>
          (case dyn_Create D sessionResource (dsNamespace s1) us w of
             (Inl e, w1) \<Rightarrow> (Inl e, w1)
           | (Inr res, w1) \<Rightarrow> (dyn_SessionFrom D res, w1)))"

definition Delete :: "('w, 'u) dynamic \<Rightarrow> DatamoverSession \<Rightarrow> 'w \<Rightarrow> (error + unit) \<times> 'w" where
  "Delete D s w = dyn_Delete D sessionResource (dsNamespace s) (dsName s) w"

section \<open>Waiting for a session\<close>

definition isSessionReady :: "DatamoverSession option \<Rightarrow> bool" where
  "isSessionReady s \<longleftrightarrow> (case s of None \<Rightarrow> False | Some x \<Rightarrow> dsProgress x = ProgressReady)"

definition isSessionTerminated :: "DatamoverSession option \<Rightarrow> bool" where
  "isSessionTerminated s \<longleftrightarrow> (case s of None \<Rightarrow> False
     | Some x \<Rightarrow> dsProgress x \<in> {ProgressReadinessFailure, ProgressSessionFailure, ProgressValidationFailed})"

text \<open>The function returns a session pointer and an error, both possibly set, or crashes.\<close>

datatype wait_result =
    Returned "DatamoverSession option" "error option"
  | Crashed string

type_synonym 'w get_func = "'w \<Rightarrow> (error + DatamoverSession option) \<times> 'w"

definition terminated_error :: "DatamoverSession \<Rightarrow> error" where
  "terminated_error x = NewError (''session terminated: '' @ dsProgress x @ '' '' @
     siPodErrors (stSessionInfo (dsStatus x)))"

definition timeout_error :: "DatamoverSession \<Rightarrow> error" where
  "timeout_error x = NewError (''timeout waiting for session to be ready: '' @
     siPodErrors (stSessionInfo (dsStatus x)))"

definition deref_session :: "DatamoverSession option \<Rightarrow> (DatamoverSession \<Rightarrow> error) \<Rightarrow> wait_result" where
  "deref_session s err = (case s of None \<Rightarrow> Crashed ''nil pointer dereference: session''
     | Some x \<Rightarrow> Returned s (Some (err x)))"

partial_function (option) waitLoop ::
  "'w timer \<Rightarrow> 'w get_func \<Rightarrow> int \<Rightarrow> int \<Rightarrow> bool \<Rightarrow> 'w \<Rightarrow> (wait_result \<times> 'w) option" where
  "waitLoop T getFunc deadline interval doneWaiting w =
     (case getFunc w of
        (Inl e, w1) \<Rightarrow> Some (Returned None (Some e), w1)
      | (Inr s, w1) \<Rightarrow>
          if isSessionReady s then Some (Returned s None, w1)
          else if isSessionTerminated s then Some (deref_session s terminated_error, w1)
          else if doneWaiting then Some (deref_session s timeout_error, w1)
          else (case tm_select T deadline interval w1 of
                  (Done, w2) \<Rightarrow> waitLoop T getFunc deadline interval True w2
                | (After, w2) \<Rightarrow> waitLoop T getFunc deadline interval doneWaiting w2))"

definition WaitForReadyWithTimeout ::
  "'w timer \<Rightarrow> 'w get_func \<Rightarrow> int \<Rightarrow> int \<Rightarrow> 'w \<Rightarrow> (wait_result \<times> 'w) option" where
  "WaitForReadyWithTimeout T getFunc timeout interval w =
     waitLoop T getFunc (tm_now T w + timeout) interval False w"

definition waitTimeout :: int where
  "waitTimeout = 1000000000 * 120"

definition waitInterval :: int where
  "waitInterval = 1000000000 * 5"

definition WaitForReady :: "'w timer \<Rightarrow> 'w get_func \<Rightarrow> 'w \<Rightarrow> (wait_result \<times> 'w) option" where
  "WaitForReady T getFunc = WaitForReadyWithTimeout T getFunc waitTimeout waitInterval"

definition get_by_name :: "('w, 'u) dynamic \<Rightarrow> string \<Rightarrow> string \<Rightarrow> 'w get_func" where
  "get_by_name D sessionName sessionNamespace w = (case Get D sessionName sessionNamespace w of
     (Inl e, w1) \<Rightarrow> (Inl e, w1) | (Inr s, w1) \<Rightarrow> (Inr (Some s), w1))"

definition WaitForReadyByName ::
  "('w, 'u) dynamic \<Rightarrow> 'w timer \<Rightarrow> string \<Rightarrow> string \<Rightarrow> 'w \<Rightarrow> (wait_result \<times> 'w) option" where
  "WaitForReadyByName D T sessionName sessionNamespace =
     WaitForReady T (get_by_name D sessionName sessionNamespace)"

section \<open>Reaching a session\<close>

record SessionConfig =
  scImplementation :: string
  scService :: "Service option"
  scSessionData :: string

definition GetService :: "('w, 'u) dynamic \<Rightarrow> DatamoverSession \<Rightarrow> 'w \<Rightarrow> (error + Service option) \<times> 'w" where
  "GetService D s w =
     (let serviceName = siServiceName (stSessionInfo (dsStatus s)) in
      if serviceName = [] then (Inr None, w)
      else (case dyn_Get D serviceResource (dsNamespace s) serviceName w of
              (Inl e, w1) \<Rightarrow> (Inl (WrapError e ''Unable to get service''), w1)
            | (Inr us, w1) \<Rightarrow>
                (case dyn_ServiceFrom D us of
                   Inl e \<Rightarrow> (Inl (WrapError e ''Unable to parse service object''), w1)
                 | Inr svc \<Rightarrow> (Inr (Some svc), w1))))"

definition GetConfig ::
  "('w, 'u) dynamic \<Rightarrow> 'w timer \<Rightarrow> string \<Rightarrow> string \<Rightarrow> 'w \<Rightarrow> (SessionConfig outcome \<times> 'w) option" where
  "GetConfig D T sessionName sessionNamespace w =
     (case WaitForReady T (get_by_name D sessionName sessionNamespace) w of
        None \<Rightarrow> None
      | Some (Crashed m, w1) \<Rightarrow> Some (Panic m, w1)
      | Some (Returned s (Some e), w1) \<Rightarrow> Some (Err (WrapError e ''Timeout waiting for session to be ready''), w1)
      | Some (Returned None None, w1) \<Rightarrow> Some (Panic ''nil pointer dereference: session'', w1)
      | Some (Returned (Some s) None, w1) \<Rightarrow>
          (case GetService D s w1 of
             (Inl e, w2) \<Rightarrow> Some (Err (WrapError e ''Error getting service from session''), w2)
           | (Inr service, w2) \<Rightarrow> Some (Ok \<lparr>scImplementation = dssImplementation (dsSpec s),
               scService = service, scSessionData = siSessionData (stSessionInfo (dsStatus s))\<rparr>, w2)))"

definition service_endpoints :: "Service \<Rightarrow> smap" where
  "service_endpoints svc = foldl (\<lambda>result portSpec.
     AList.update (spName portSpec) (JoinHostPort (svcClusterIP svc) (Itoa (sint (spPort portSpec)))) result)
     [] (svcPorts svc)"

definition GetServiceEndpoints ::
  "('w, 'u) dynamic \<Rightarrow> 'w timer \<Rightarrow> string \<Rightarrow> string \<Rightarrow> 'w \<Rightarrow> (smap outcome \<times> 'w) option" where
  "GetServiceEndpoints D T sessionName sessionNamespace w =
     (case GetConfig D T sessionName sessionNamespace w of
        None \<Rightarrow> None
      | Some (Panic m, w1) \<Rightarrow> Some (Panic m, w1)
      | Some (Err e, w1) \<Rightarrow> Some (Err e, w1)
      | Some (Ok cfg, w1) \<Rightarrow>
          (case scService cfg of
             None \<Rightarrow> Some (Err (NewError ''Session config does not have a service''), w1)
           | Some svc \<Rightarrow> Some (Ok (service_endpoints svc), w1)))"

section \<open>The wait ends\<close>

lemma waitLoop_done:
  "\<exists>r w'. waitLoop T getFunc d i True w = Some (r, w') \<and> w' = snd (getFunc w)"
  by (subst waitLoop.simps) (cases "getFunc w"; cases "fst (getFunc w)"; auto)

text \<open>A function that takes its time, and a count of the calls to it.\<close>

definition counted :: "'w timer \<Rightarrow> 'w get_func \<Rightarrow> ('w \<Rightarrow> nat) \<Rightarrow> bool" where
  "counted T getFunc calls \<longleftrightarrow>
     (\<forall>w. tm_now T w \<le> tm_now T (snd (getFunc w)) \<and> calls (snd (getFunc w)) = Suc (calls w))
     \<and> (\<forall>d i w. calls (snd (tm_select T d i w)) = calls w)"

lemma waitLoop_bound:
  assumes law: "timer_law T" and pos: "0 < i" and counted: "counted T getFunc calls"
  shows "d - tm_now T w \<le> int n * i \<Longrightarrow>
    \<exists>r w'. waitLoop T getFunc d i False w = Some (r, w') \<and> calls w' \<le> calls w + n + 2"
proof (induction n arbitrary: w)
  case (0 w)
  show ?case
  proof (cases "tm_select T d i (snd (getFunc w))")
    case (Pair f w2)
    have now: "tm_now T w \<le> tm_now T (snd (getFunc w))" "calls (snd (getFunc w)) = Suc (calls w)"
      using counted by (simp_all add: counted_def)
    have "f = Done"
    proof (cases f)
      case After
      then have "tm_now T (snd (getFunc w)) < d" using law pos Pair unfolding timer_law_def by blast
      with 0 now show ?thesis by simp
    qed
    moreover have "calls w2 = calls (snd (getFunc w))" using counted Pair unfolding counted_def by (metis snd_conv)
    moreover have "calls (snd (getFunc w2)) = Suc (calls w2)" using counted by (simp add: counted_def)
    ultimately show ?thesis
      using waitLoop_done [of T getFunc d i w2] Pair now
      by (subst waitLoop.simps) (cases "getFunc w"; cases "fst (getFunc w)"; auto)
  qed
next
  case (Suc n w)
  show ?case
  proof (cases "tm_select T d i (snd (getFunc w))")
    case (Pair f w2)
    have now: "tm_now T w \<le> tm_now T (snd (getFunc w))" "calls (snd (getFunc w)) = Suc (calls w)"
      using counted by (simp_all add: counted_def)
    have same: "calls w2 = calls (snd (getFunc w))" using counted Pair unfolding counted_def by (metis snd_conv)
    have next_call: "calls (snd (getFunc w2)) = Suc (calls w2)" using counted by (simp add: counted_def)
    have "\<exists>r w'. waitLoop T getFunc d i (f = Done) w2 = Some (r, w') \<and> calls w' \<le> calls w + Suc n + 2"
    proof (cases f)
      case Done
      then show ?thesis using waitLoop_done [of T getFunc d i w2] same next_call now by auto
    next
      case After
      then have "tm_now T (snd (getFunc w)) + i \<le> tm_now T w2" using law pos Pair unfolding timer_law_def by blast
      then have "d - tm_now T w2 \<le> int n * i" using Suc.prems now by (simp add: algebra_simps)
      from Suc.IH [OF this] After same now show ?thesis by fastforce
    qed
    then show ?thesis
      using Pair now
      by (subst waitLoop.simps) (cases "getFunc w"; cases "fst (getFunc w)"; cases f; auto)
  qed
qed

lemma ceiling_div_bound:
  assumes "0 < (i::int)"
  shows "t \<le> int (nat ((t + i - 1) div i)) * i"
proof (cases "t \<le> 0")
  case True
  then show ?thesis using assms by (metis mult_nonneg_nonneg of_nat_0_le_iff order.strict_implies_order order_trans)
next
  case False
  have "(t + i - 1) div i * i + (t + i - 1) mod i = t + i - 1" by simp
  moreover have "(t + i - 1) mod i < i" using assms by simp
  ultimately have "t \<le> (t + i - 1) div i * i" by linarith
  moreover have "0 \<le> (t + i - 1) div i" using False assms by (simp add: pos_imp_zdiv_nonneg_iff)
  ultimately show ?thesis by simp
qed

lemma wait_returns:
  assumes "timer_law T" and "0 < interval" and "counted T getFunc calls"
  shows "\<exists>r w'. WaitForReadyWithTimeout T getFunc timeout interval w = Some (r, w')
    \<and> calls w' \<le> calls w + nat ((timeout + interval - 1) div interval) + 2"
  unfolding WaitForReadyWithTimeout_def
  using waitLoop_bound [OF assms, where d = "tm_now T w + timeout"] ceiling_div_bound [OF assms(2)] by simp

section \<open>What the wait returns\<close>

definition wait_outcome :: "'w timer \<Rightarrow> 'w get_func \<Rightarrow> bool \<Rightarrow> wait_result \<Rightarrow> 'w \<Rightarrow> bool" where
  "wait_outcome T getFunc waited r w' \<longleftrightarrow>
     (\<exists>v e. getFunc v = (Inl e, w') \<and> r = Returned None (Some e)) \<or>
     (\<exists>v s. getFunc v = (Inr s, w') \<and>
        (isSessionReady s \<and> r = Returned s None
         \<or> isSessionTerminated s \<and> r = deref_session s terminated_error
         \<or> \<not> isSessionReady s \<and> \<not> isSessionTerminated s \<and> r = deref_session s timeout_error
           \<and> (waited \<or> (\<exists>d i u u'. tm_select T d i u = (Done, u')))))"

lemma waitLoop_outcome:
  "waitLoop T getFunc d i waited w = Some y \<Longrightarrow> wait_outcome T getFunc waited (fst y) (snd y)"
proof (erule waitLoop.raw_induct [where P = "\<lambda>T getFunc d i waited w y. wait_outcome T getFunc waited (fst y) (snd y)", rotated])
  fix loop and T :: "'a timer" and getFunc d i waited w y
  assume 1: "\<And>T getFunc d i waited w y. loop T getFunc d i waited w = Some y \<Longrightarrow>
      wait_outcome (T :: 'a timer) getFunc waited (fst y) (snd y)"
    "(case getFunc w of (Inl e, w1) \<Rightarrow> Some (Returned None (Some e), w1)
      | (Inr s, w1) \<Rightarrow>
          if isSessionReady s then Some (Returned s None, w1)
          else if isSessionTerminated s then Some (deref_session s terminated_error, w1)
          else if waited then Some (deref_session s timeout_error, w1)
          else (case tm_select T d i w1 of
                  (Done, w2) \<Rightarrow> loop T getFunc d i True w2
                | (After, w2) \<Rightarrow> loop T getFunc d i waited w2)) = Some y"
  obtain g w1 where get: "getFunc w = (g, w1)" by force
  show "wait_outcome T getFunc waited (fst y) (snd y)"
  proof (cases g)
    case (Inl e)
    then show ?thesis using 1(2) get by (auto simp: wait_outcome_def)
  next
    case (Inr s)
    show ?thesis
    proof (cases "isSessionReady s \<or> isSessionTerminated s \<or> waited")
      case True
      then show ?thesis using 1(2) get Inr unfolding wait_outcome_def
        by (intro disjI2 exI [of _ w] exI [of _ s]) (auto split: if_splits)
    next
      case False
      obtain f w2 where sel: "tm_select T d i w1 = (f, w2)" by force
      have rec: "loop T getFunc d i (f = Done) w2 = Some y"
        using 1(2) get Inr False sel by (cases f) auto
      then have "wait_outcome T getFunc (f = Done) (fst y) (snd y)" by (rule 1(1))
      then show ?thesis using sel unfolding wait_outcome_def by (cases f) blast+
    qed
  qed
qed

text \<open>
  C26: Waiting for a session always ends.  Whatever the session does and whenever the parent
  context is cancelled, \<open>WaitForReadyWithTimeout\<close> returns, after at most
  \<open>\<lceil>timeout / interval\<rceil> + 2\<close> reads of the session (26 with the default timeout of 120 and
  interval of 5 seconds).
\<close>

theorem WaitForReady_terminates:
  assumes "timer_law T" and "counted T getFunc calls"
  shows "(\<forall>timeout interval w. 0 < interval \<longrightarrow>
      (\<exists>r w'. WaitForReadyWithTimeout T getFunc timeout interval w = Some (r, w')
         \<and> calls w' \<le> calls w + nat ((timeout + interval - 1) div interval) + 2))
    \<and> (\<exists>r w'. WaitForReady T getFunc w = Some (r, w') \<and> calls w' \<le> calls w + 26)"
  using wait_returns [OF assms(1) _ assms(2)]
    wait_returns [OF assms(1) _ assms(2), of waitInterval waitTimeout w]
  by (auto simp: WaitForReady_def waitInterval_def waitTimeout_def)

text \<open>A clock that counts: each read takes a second, each wait its interval or up to the deadline.\<close>

record tick =
  tkNow :: int
  tkReads :: nat

definition tick_timer :: "tick timer" where
  "tick_timer = \<lparr>tm_now = tkNow, tm_select = (\<lambda>d i w.
     if tkNow w + i \<le> d then (After, w\<lparr>tkNow := tkNow w + i\<rparr>) else (Done, w\<lparr>tkNow := max (tkNow w) d\<rparr>))\<rparr>"

definition tick_get :: "DatamoverSession \<Rightarrow> tick get_func" where
  "tick_get s w = (Inr (Some s), \<lparr>tkNow = tkNow w + 1, tkReads = Suc (tkReads w)\<rparr>)"

lemma tick_laws: "timer_law tick_timer" "counted tick_timer (tick_get s) tkReads"
  by (auto simp: timer_law_def counted_def tick_timer_def tick_get_def split: if_splits)

theorem WaitForReady_terminates_witness:
  "\<exists>r w'. WaitForReady tick_timer (tick_get sample_session) \<lparr>tkNow = 0, tkReads = 0\<rparr> = Some (r, w')
     \<and> tkReads w' \<le> 26"
  using conjunct2 [OF WaitForReady_terminates [OF tick_laws], of sample_session "\<lparr>tkNow = 0, tkReads = 0\<rparr>"] by simp

text \<open>
  C27: What the wait returns is what it says.  Without an error, the result is a session that
  was just read and is ready; a failed session is returned with the error that says so; a
  session that is neither is returned with a timeout error, and only after the context was
  done; an error of the read is passed on without a session; and a crash means that the read
  returned no session and no error.
\<close>

theorem WaitForReady_result:
  assumes "WaitForReadyWithTimeout T getFunc timeout interval w = Some (r, w')"
  shows "(case r of
      Returned s None \<Rightarrow> isSessionReady s \<and> (\<exists>v. getFunc v = (Inr s, w'))
    | Returned None (Some e) \<Rightarrow> \<exists>v. getFunc v = (Inl e, w')
    | Returned (Some x) (Some e) \<Rightarrow> (\<exists>v. getFunc v = (Inr (Some x), w')) \<and> dsProgress x \<noteq> ProgressReady
        \<and> (isSessionTerminated (Some x) \<and> e = terminated_error x
           \<or> \<not> isSessionTerminated (Some x) \<and> e = timeout_error x
             \<and> (\<exists>d i u u'. tm_select T d i u = (Done, u')))
    | Crashed m \<Rightarrow> \<exists>v. getFunc v = (Inr None, w'))"
  using waitLoop_outcome [of T getFunc "tm_now T w + timeout" interval False w "(r, w')"] assms
  by (auto simp: WaitForReadyWithTimeout_def wait_outcome_def deref_session_def isSessionReady_def
      isSessionTerminated_def split: option.splits wait_result.splits)

theorem WaitForReady_result_witness:
  "\<exists>r w'. WaitForReadyWithTimeout tick_timer (tick_get sample_session) 9 5 \<lparr>tkNow = 0, tkReads = 0\<rparr> = Some (r, w')
     \<and> r = Returned (Some sample_session) (Some (timeout_error sample_session))"
proof -
  obtain r w' where run: "WaitForReadyWithTimeout tick_timer (tick_get sample_session) 9 5
      \<lparr>tkNow = 0, tkReads = 0\<rparr> = Some (r, w')"
    using wait_returns [OF tick_laws(1) _ tick_laws(2), of 5] by fastforce
  show ?thesis
    using WaitForReady_result [OF run] run
    by (auto simp: tick_get_def isSessionReady_def isSessionTerminated_def split: wait_result.splits option.splits)
qed

section \<open>The configuration a client gets\<close>

lemma get_by_name_Inr: "get_by_name D n ns v = (Inr s, w') \<Longrightarrow> \<exists>x. s = Some x \<and> Get D n ns v = (Inr x, w')"
  by (auto simp: get_by_name_def split: prod.splits sum.splits)

lemma get_by_name_not_nil [simp]: "get_by_name D n ns v \<noteq> (Inr None, w')"
  by (auto simp: get_by_name_def split: prod.splits sum.splits)

lemma WaitForReady_by_name:
  assumes "WaitForReady T (get_by_name D n ns) w = Some (r, w')"
  obtains (ready) x v where "r = Returned (Some x) None" "dsProgress x = ProgressReady" "Get D n ns v = (Inr x, w')"
  | (failed) s e where "r = Returned s (Some e)"
proof -
  have "wait_outcome T (get_by_name D n ns) False r w'"
    using waitLoop_outcome [of T _ _ _ False w "(r, w')"] assms
    by (fastforce simp: WaitForReady_def WaitForReadyWithTimeout_def)
  then show thesis
    unfolding wait_outcome_def
  proof (elim disjE exE conjE)
    fix v s
    assume "get_by_name D n ns v = (Inr s, w')" "isSessionReady s" "r = Returned s None"
    then show thesis using ready get_by_name_Inr by (fastforce simp: isSessionReady_def)
  qed (auto simp: deref_session_def split: option.splits intro: failed)
qed

lemma GetService_Inr:
  assumes "GetService D s w = (Inr svc, w')"
  shows "svc = None \<longleftrightarrow> siServiceName (stSessionInfo (dsStatus s)) = []"
    "svc = Some x \<Longrightarrow> \<exists>us. dyn_Get D serviceResource (dsNamespace s) (siServiceName (stSessionInfo (dsStatus s))) w
       = (Inr us, w') \<and> dyn_ServiceFrom D us = Inr x"
  using assms by (auto simp: GetService_def Let_def split: if_splits prod.splits sum.splits)

text \<open>What a configuration says of the session it was made from, read in \<open>v'\<close>.\<close>

definition config_of :: "('w, 'u) dynamic \<Rightarrow> DatamoverSession \<Rightarrow> SessionConfig \<Rightarrow> 'w \<Rightarrow> 'w \<Rightarrow> bool" where
  "config_of D s cfg v' w' \<longleftrightarrow> dsProgress s = ProgressReady
     \<and> scImplementation cfg = dssImplementation (dsSpec s)
     \<and> scSessionData cfg = siSessionData (stSessionInfo (dsStatus s))
     \<and> (case scService cfg of
          None \<Rightarrow> siServiceName (stSessionInfo (dsStatus s)) = []
        | Some svc \<Rightarrow> \<exists>us. dyn_Get D serviceResource (dsNamespace s)
             (siServiceName (stSessionInfo (dsStatus s))) v' = (Inr us, w') \<and> dyn_ServiceFrom D us = Inr svc)"

lemma GetConfig_total:
  assumes "timer_law T" and "counted T (get_by_name D name ns) calls"
  shows "\<exists>out w'. GetConfig D T name ns w = Some (out, w') \<and> (\<forall>m. out \<noteq> Panic m)
    \<and> (\<forall>cfg. out = Ok cfg \<longrightarrow> (\<exists>s v v'. Get D name ns v = (Inr s, v') \<and> config_of D s cfg v' w'))"
proof -
  obtain r w1 where wait: "WaitForReady T (get_by_name D name ns) w = Some (r, w1)"
    using wait_returns [OF assms(1) _ assms(2), of waitInterval waitTimeout w]
    by (auto simp: WaitForReady_def waitInterval_def)
  from wait show ?thesis
  proof (cases rule: WaitForReady_by_name)
    case (ready x v)
    obtain y w2 where svc: "GetService D x w1 = (y, w2)" by force
    show ?thesis
    proof (cases y)
      case (Inl e)
      then show ?thesis using wait ready svc by (simp add: GetConfig_def)
    next
      case (Inr service)
      then have res: "GetService D x w1 = (Inr service, w2)" using svc by simp
      have cfg: "GetConfig D T name ns w = Some (Ok \<lparr>scImplementation = dssImplementation (dsSpec x),
          scService = service, scSessionData = siSessionData (stSessionInfo (dsStatus x))\<rparr>, w2)"
        using wait ready res by (simp add: GetConfig_def)
      have "config_of D x \<lparr>scImplementation = dssImplementation (dsSpec x),
          scService = service, scSessionData = siSessionData (stSessionInfo (dsStatus x))\<rparr> w1 w2"
        using GetService_Inr [OF res] ready(2) by (cases service) (auto simp: config_of_def)
      with ready(3) cfg show ?thesis by auto
    qed
  next
    case (failed s e)
    then show ?thesis using wait by (cases s) (simp_all add: GetConfig_def)
  qed
qed

text \<open>
  C28: A client gets the configuration of a session only from a session that is ready:
  \<open>GetConfig\<close> always ends, never crashes, and when it succeeds the implementation and the
  session data are those of a session that was read with progress \<open>Ready\<close>, and the service
  is the one its status names, in the session's namespace, or none if it names none.
\<close>

theorem GetConfig_correct:
  assumes "timer_law T" and "counted T (get_by_name D name ns) calls"
  shows "\<exists>out w'. GetConfig D T name ns w = Some (out, w') \<and> (\<forall>m. out \<noteq> Panic m)
    \<and> (\<forall>cfg. out = Ok cfg \<longrightarrow> (\<exists>s v v'. Get D name ns v = (Inr s, v') \<and> config_of D s cfg v' w'))"
  by (rule GetConfig_total [OF assms])

text \<open>An instance: one ready session with a service, kept as typed objects.\<close>

definition served_session :: DatamoverSession where
  "served_session = sample_session\<lparr>dsStatus := \<lparr>stSessionInfo = \<lparr>siPodName = ''p'', siServiceName = ''s1-service'',
     siSessionData = ''aGk='', siPodErrors = []\<rparr>, stProgress = ProgressReady\<rparr>\<rparr>"

definition served_service :: Service where
  "served_service = \<lparr>svcMeta = zero_meta\<lparr>omName := ''s1-service'', omNamespace := ''ns''\<rparr>, svcPorts = [sample_port],
     svcSelector = None, svcClusterIP = ''fd00::1''\<rparr>"

definition tick_dynamic :: "(tick, DatamoverSession + Service) dynamic" where
  "tick_dynamic = \<lparr>dyn_Get = (\<lambda>gvr ns n w. (Inr (if gvr = sessionResource then Inl served_session else Inr served_service),
       \<lparr>tkNow = tkNow w + 1, tkReads = Suc (tkReads w)\<rparr>)),
     dyn_Create = (\<lambda>gvr ns u w. (Inr u, w)), dyn_Delete = (\<lambda>gvr ns n w. (Inr (), w)),
     dyn_ToUnstructured = (\<lambda>s. Inr (Inl s)),
     dyn_SessionFrom = (\<lambda>u. case u of Inl s \<Rightarrow> Inr s | Inr _ \<Rightarrow> Inl (NewError ''not a session'')),
     dyn_ServiceFrom = (\<lambda>u. case u of Inr s \<Rightarrow> Inr s | Inl _ \<Rightarrow> Inl (NewError ''not a service''))\<rparr>"

lemma tick_counted: "counted tick_timer (get_by_name tick_dynamic n ns) tkReads"
  by (simp add: counted_def tick_timer_def get_by_name_def Get_def tick_dynamic_def)

lemma tick_config:
  "\<exists>w'. GetConfig tick_dynamic tick_timer ''s1'' ''ns'' w = Some (Ok \<lparr>scImplementation = ''kopia'',
     scService = Some served_service, scSessionData = ''aGk=''\<rparr>, w')"
proof -
  have "WaitForReady tick_timer (get_by_name tick_dynamic ''s1'' ''ns'') w
      = Some (Returned (Some served_session) None, \<lparr>tkNow = tkNow w + 1, tkReads = Suc (tkReads w)\<rparr>)"
    unfolding WaitForReady_def WaitForReadyWithTimeout_def
    by (subst waitLoop.simps)
      (simp add: get_by_name_def Get_def tick_dynamic_def isSessionReady_def served_session_def)
  moreover have "serviceResource \<noteq> sessionResource" by (simp add: serviceResource_def sessionResource_def ResourceNamePlural_def)
  ultimately show ?thesis
    by (simp add: GetConfig_def GetService_def tick_dynamic_def served_session_def)
qed

theorem GetConfig_correct_witness:
  "\<exists>cfg w'. GetConfig tick_dynamic tick_timer ''s1'' ''ns'' \<lparr>tkNow = 0, tkReads = 0\<rparr> = Some (Ok cfg, w')
     \<and> (\<exists>s v v'. Get tick_dynamic ''s1'' ''ns'' v = (Inr s, v') \<and> config_of tick_dynamic s cfg v' w')"
  using GetConfig_correct [OF tick_laws(1) tick_counted, of "''s1''" "''ns''" "\<lparr>tkNow = 0, tkReads = 0\<rparr>"]
    tick_config [of "\<lparr>tkNow = 0, tkReads = 0\<rparr>"]
  by fastforce

lemma endpoints_fold:
  "map_of (foldl (\<lambda>result p. AList.update (f p) (g p) result) al ps)
     = map_of al ++ map_of (rev (map (\<lambda>p. (f p, g p)) ps))"
  by (induction ps arbitrary: al) (auto simp: update_conv' map_add_def fun_eq_iff split: option.splits)

text \<open>
  C29: The endpoints of a service: every port name of the service, and nothing else, is mapped
  to the cluster address joined with the number of the last port of that name (in brackets
  when the address contains a colon, as IPv6 addresses do); with distinct names every port
  is there.
\<close>

theorem service_endpoints_correct:
  "map_of (service_endpoints svc) = map_of (rev (map (\<lambda>p. (spName p,
      JoinHostPort (svcClusterIP svc) (Itoa (sint (spPort p))))) (svcPorts svc)))
   \<and> dom (map_of (service_endpoints svc)) = spName ` set (svcPorts svc)
   \<and> (distinct (map spName (svcPorts svc)) \<longrightarrow> (\<forall>p \<in> set (svcPorts svc).
        map_of (service_endpoints svc) (spName p) = Some (JoinHostPort (svcClusterIP svc) (Itoa (sint (spPort p))))))"
proof -
  let ?ps = "map (\<lambda>p. (spName p, JoinHostPort (svcClusterIP svc) (Itoa (sint (spPort p))))) (svcPorts svc)"
  have eq: "map_of (service_endpoints svc) = map_of (rev ?ps)"
    unfolding service_endpoints_def endpoints_fold by simp
  moreover have "dom (map_of (rev ?ps)) = spName ` set (svcPorts svc)"
    by (simp add: dom_map_of_conv_image_fst image_image)
  moreover have "map_of (rev ?ps) (spName p) = Some (JoinHostPort (svcClusterIP svc) (Itoa (sint (spPort p))))"
    if "distinct (map spName (svcPorts svc))" "p \<in> set (svcPorts svc)" for p
    using that by (intro map_of_is_SomeI) (auto simp: rev_map [symmetric] comp_def)
  ultimately show ?thesis by simp
qed

theorem service_endpoints_correct_witness:
  "map_of (service_endpoints served_service) ''kopia'' = Some (JoinHostPort ''fd00::1'' (Itoa (sint (spPort sample_port))))"
  using service_endpoints_correct [of served_service] by (simp add: served_service_def sample_port_def)

end
