(* ===== verification/Delivery.thy ===== *)
theory Delivery
  imports Outcomes Sessions
begin

text \<open>
  From the side-car of a session pod to the client.  The statuses a cluster stores over time
  come from two sources: changes by others, and the status updates that reconciliations
  request.  So what is known of every requested update is known of every stored status, and of
  every session a client reads.
\<close>

section \<open>Where stored statuses come from\<close>

inductive story :: "key \<Rightarrow> request list \<Rightarrow> life_state \<Rightarrow> life_state \<Rightarrow> bool"
  for k qs where
  by_others: "others a b \<Longrightarrow> story k qs a b"
| by_update: "StatusUpdateReq s \<in> set qs \<Longrightarrow> session_key s = k \<Longrightarrow> story k qs (U, Some (u, a)) (U, Some (u, dsStatus s))"

text \<open>The requests logged between two worlds account for the change of the stored sessions.\<close>

definition followed :: "'w store_view \<Rightarrow> 'w world \<Rightarrow> 'w world \<Rightarrow> bool" where
  "followed V w w' \<longleftrightarrow> (\<exists>qs. requests w' = requests w @ qs \<and>
     (\<forall>k. (story k qs)\<^sup>*\<^sup>* (life_of V (cluster w) k) (life_of V (cluster w') k)))"

definition tracked :: "'w store_view \<Rightarrow> ('w, 'a) kio \<Rightarrow> bool" where
  "tracked V m \<longleftrightarrow> (\<forall>w r w'. m w = (r, w') \<longrightarrow> followed V w w')"

lemma story_mono: "(story k qs)\<^sup>*\<^sup>* a b \<Longrightarrow> set qs \<subseteq> set qs' \<Longrightarrow> (story k qs')\<^sup>*\<^sup>* a b"
  by (erule rtranclp_mono [THEN predicate2D, rotated]) (auto elim!: story.cases intro: story.intros)

lemma others_story: "others\<^sup>*\<^sup>* a b \<Longrightarrow> (story k qs)\<^sup>*\<^sup>* a b"
  by (erule rtranclp_mono [THEN predicate2D, rotated]) (auto intro: story.intros)

lemma elsewhere_story: "elsewhere V c c' \<Longrightarrow> (story k qs)\<^sup>*\<^sup>* (life_of V c k) (life_of V c' k)"
  by (intro others_story elsewhereD)

lemma followed_trans:
  assumes "followed V w v" and "followed V v w'"
  shows "followed V w w'"
proof -
  obtain q1 q2 where q: "requests v = requests w @ q1" "requests w' = requests v @ q2"
    "\<And>k. (story k q1)\<^sup>*\<^sup>* (life_of V (cluster w) k) (life_of V (cluster v) k)"
    "\<And>k. (story k q2)\<^sup>*\<^sup>* (life_of V (cluster v) k) (life_of V (cluster w') k)"
    using assms unfolding followed_def by blast
  have "(story k (q1 @ q2))\<^sup>*\<^sup>* (life_of V (cluster w) k) (life_of V (cluster w') k)" for k
    by (rule rtranclp_trans [OF story_mono [OF q(3)] story_mono [OF q(4)]]) simp_all
  then show ?thesis using q(1,2) unfolding followed_def by (intro exI [of _ "q1 @ q2"]) simp
qed

lemma trackedD: "tracked V m \<Longrightarrow> m w = (r, w') \<Longrightarrow> followed V w w'"
  by (auto simp: tracked_def)

lemma tracked_external: "external_op V m \<Longrightarrow> silent m \<Longrightarrow> tracked V m"
  unfolding tracked_def followed_def using external_opD elsewhere_story silentD by (metis append_Nil2)

lemma tracked_basic [run_intro]:
  "tracked V (returnK x)" "tracked V (errorK e)" "tracked V (panicK s)" "tracked V (liftK r)"
  by (auto simp: tracked_def followed_def kio_defs)

lemma tracked_write [run_intro]:
  assumes "\<And>c0. op_keeps (elsewhere V c0) f"
  shows "tracked V (writeK q f)"
  unfolding tracked_def followed_def
proof (intro allI impI)
  fix w r w' assume "writeK q f w = (r, w')"
  then obtain y where y: "f (cluster w) = (y, cluster w')" "requests w' = requests w @ [q]"
    by (auto simp: writeK_def split: prod.splits)
  have "elsewhere V (cluster w) (cluster w) \<longrightarrow> elsewhere V (cluster w) (cluster w')"
    using assms [of "cluster w"] y(1) unfolding op_keeps_def by blast
  then have "elsewhere V (cluster w) (cluster w')" by simp
  then show "\<exists>qs. requests w' = requests w @ qs \<and>
      (\<forall>k. (story k qs)\<^sup>*\<^sup>* (life_of V (cluster w) k) (life_of V (cluster w') k))"
    using y(2) by (auto intro: elsewhere_story)
qed

lemma tracked_handle [run_intro]:
  assumes "tracked V m" and "\<And>e. tracked V (h e)" and "\<And>x. tracked V (f x)"
  shows "tracked V (handleK m h f)"
  unfolding tracked_def
proof (intro allI impI)
  fix w r w' assume run: "handleK m h f w = (r, w')"
  obtain o1 v where v: "m w = (o1, v)" by force
  then have "followed V w v" by (rule trackedD [OF assms(1)])
  moreover have "followed V v w' \<or> v = w'"
    using run v assms(2,3) by (cases o1) (auto simp: handleK_def dest: trackedD)
  ultimately show "followed V w w'" using followed_trans by blast
qed

lemma bindK_handleK: "bindK m f = handleK m errorK f"
  by (auto simp: fun_eq_iff kio_defs split: prod.splits outcome.splits)

lemma tracked_bind [run_intro]: "tracked V m \<Longrightarrow> (\<And>x. tracked V (f x)) \<Longrightarrow> tracked V (bindK m f)"
  unfolding bindK_handleK by (intro run_intro)

lemma tracked_if [run_intro]: "(b \<Longrightarrow> tracked V m) \<Longrightarrow> (\<not> b \<Longrightarrow> tracked V n) \<Longrightarrow> tracked V (if b then m else n)"
  by simp

lemma tracked_option [run_intro]:
  "(v = None \<Longrightarrow> tracked V m) \<Longrightarrow> (\<And>x. v = Some x \<Longrightarrow> tracked V (f x)) \<Longrightarrow>
   tracked V (case v of None \<Rightarrow> m | Some x \<Rightarrow> f x)"
  by (simp split: option.splits)

section \<open>Reconciliations are accounted for\<close>

lemma tracked_statusUpdate:
  assumes "session_store K V"
  shows "tracked V (statusUpdate K s)"
  unfolding tracked_def
proof (intro allI impI)
  fix w r w' assume run: "statusUpdate K s w = (r, w')"
  then obtain y where y: "k_StatusUpdate K s (cluster w) = (y, cluster w')" "requests w' = requests w @ [StatusUpdateReq s]"
    by (auto simp: statusUpdate_def writeK_def split: prod.splits)
  then consider "elsewhere V (cluster w) (cluster w')" | "accepted V s (cluster w) (cluster w')"
    using assms unfolding session_store_def by blast
  then have "(story k [StatusUpdateReq s])\<^sup>*\<^sup>* (life_of V (cluster w) k) (life_of V (cluster w') k)" for k
  proof cases
    case 1
    then show ?thesis by (rule elsewhere_story)
  next
    case 2
    show ?thesis
    proof (cases "k = session_key s")
      case True
      then show ?thesis using 2 unfolding accepted_def by (fastforce intro: r_into_rtranclp story.by_update)
    next
      case False
      then have "others\<^sup>*\<^sup>* (life_of V (cluster w) k) (life_of V (cluster w') k)"
        using 2 unfolding accepted_def by blast
      then show ?thesis by (rule others_story)
    qed
  qed
  then show "followed V w w'" using y(2) unfolding followed_def by blast
qed

lemma tracked_objects:
  assumes "session_store K V"
  shows "tracked V (CreatePod K s)" "tracked V (CreateService K s)" "tracked V (CreateNetworkPolicy K s)"
    "tracked V (tryCreateResources K s r)" "tracked V (CleanupService K s r)"
proof -
  have objects: "objects_keep K (elsewhere V c0)" for c0 using assms unfolding session_store_def by blast
  note [run_intro] = objects_keepD [OF objects]
  show creates [run_intro]: "tracked V (CreatePod K s)" "tracked V (CreateService K s)"
    "tracked V (CreateNetworkPolicy K s)" for s
    unfolding CreatePod_def CreateService_def CreateNetworkPolicy_def Let_def
    by (cases "MakePodSpec K s", auto intro!: run_intro)
  show "tracked V (tryCreateResources K s r)"
    unfolding tryCreateResources_def CreateResources_def by (intro run_intro)
  show "tracked V (CleanupService K s r)"
    unfolding CleanupService_def DeleteService_def by (intro run_intro)
qed

lemma tracked_act:
  assumes store: "session_store K V"
  shows "tracked V (act K s st r)"
proof -
  have errors: "tracked V (getPodErrors K n ns)" for n ns
    by (rule tracked_external [OF external_ops(2) [OF store]]) (rule run_intro silent_getPodErrors)+
  note [run_intro] = tracked_statusUpdate [OF store] tracked_objects [OF store] errors
  have [run_intro]: "tracked V (UpdateStatus K s p)" "tracked V (UpdateStatusResources K s p rs)"
    "tracked V (UpdateStatusFailure K s p r)" "tracked V (UpdateStatusData K s p rs)" for p rs r
    unfolding UpdateStatus_def UpdateStatusResources_def UpdateStatusFailure_def UpdateStatusData_def Let_def
    by (auto intro!: run_intro split: prod.splits)
  show ?thesis
    by (cases st) (auto simp: act_def intro!: run_intro split: outcome.splits)
qed

lemma tracked_Reconcile:
  assumes "session_store K V"
  shows "tracked V (Reconcile K ns name)"
proof -
  have state: "tracked V (GetState K s)" for s
    by (rule tracked_external [OF external_ops(3) [OF assms]]) (rule run_intro silent_getResources)+
  have get: "tracked V (readK (k_GetSession K ns name))"
    by (rule tracked_external [OF external_ops(1) [OF assms]]) (rule run_intro)
  show ?thesis
    unfolding Reconcile_def Run_def
    by (auto intro!: run_intro state get tracked_act [OF assms] split: prod.splits)
qed

section \<open>Ready sessions carry published data\<close>

text \<open>
  Where the data of a ready status comes from.  In a cluster that the history has led to, a
  reconciliation of this very key has read its session \<open>s\<close> and requested the status; among the
  resources this run has read are the session's pod, controlled by \<open>s\<close> and ready, and the data
  framed in the log of the pod's side-car, which is the data of the status.
\<close>

definition sourced :: "'w kube \<Rightarrow> 'w store_view \<Rightarrow> 'w \<Rightarrow> string \<Rightarrow> string \<Rightarrow> DatamoverSessionStatus \<Rightarrow> bool" where
  "sourced K V c0 ns name st \<longleftrightarrow> (\<exists>w r w' qs s' s w1 w2 rs pod rd. (sys_step K V)\<^sup>*\<^sup>* c0 (cluster w) \<and>
     Reconcile K ns name w = (r, w') \<and> requests w' = requests w @ qs \<and> StatusUpdateReq s' \<in> set qs \<and> dsStatus s' = st \<and>
     k_GetSession K ns name (cluster w) = (Inr s, cluster w1) \<and> same_object s' s \<and> getResources K s w1 = (Ok rs, w2) \<and>
     rsPod rs = Some pod \<and> isOwnedBy K (podMeta pod) s \<and> isPodReady pod = Ok True \<and>
     siPodName (stSessionInfo st) = omName (podMeta pod) \<and> rsPodReadiness rs = Some rd \<and> rdReady rd \<and>
     rdData rd = siSessionData (stSessionInfo st) \<and> published K pod (rdData rd))"

definition ready_sourced :: "'w kube \<Rightarrow> 'w store_view \<Rightarrow> 'w \<Rightarrow> key \<Rightarrow> DatamoverSessionStatus \<Rightarrow> bool" where
  "ready_sourced K V c0 k st \<longleftrightarrow> (stProgress st = ProgressReady \<longrightarrow> sourced K V c0 (fst k) (snd k) st)"

lemma ready_request_sourced:
  assumes "owner_law K" and store: "session_store K V" and hist: "(sys_step K V)\<^sup>*\<^sup>* c0 (cluster w)"
    and run: "Reconcile K ns name w = (r, w')" "requests w' = requests w @ qs" "StatusUpdateReq s' \<in> set qs"
  shows "ready_sourced K V c0 (session_key s') (dsStatus s')"
  unfolding ready_sourced_def
proof
  assume ready: "dsProgress s' = ProgressReady"
  obtain s w1 w2 rs pod rd where s: "k_GetSession K ns name (cluster w) = (Inr s, cluster w1)" "same_object s' s"
    "getResources K s w1 = (Ok rs, w2)" "rsPod rs = Some pod" "isOwnedBy K (podMeta pod) s" "isPodReady pod = Ok True"
    "siPodName (stSessionInfo (dsStatus s')) = omName (podMeta pod)" "rsPodReadiness rs = Some rd" "rdReady rd"
    "rdData rd = siSessionData (stSessionInfo (dsStatus s'))" "published K pod (rdData rd)"
    using ready_update_sound [OF assms(1) run ready] by (elim exE conjE) (rule that, auto)
  have "session_key s' = (ns, name)"
    using store s(1,2) unfolding session_store_def by (auto simp: session_key_def same_object_def)
  moreover have "sourced K V c0 ns name (dsStatus s')"
    unfolding sourced_def
    by (intro exI conjI) (rule hist run s refl)+
  ultimately show "sourced K V c0 (fst (session_key s')) (snd (session_key s')) (dsStatus s')" by simp
qed

lemma story_sourced:
  assumes "(story k qs)\<^sup>*\<^sup>* p q" and "\<forall>u st. snd p = Some (u, st) \<longrightarrow> P st" and "P zero_status"
    and "\<And>s. StatusUpdateReq s \<in> set qs \<Longrightarrow> session_key s = k \<Longrightarrow> P (dsStatus s)"
  shows "snd q = Some (u, st) \<Longrightarrow> P st"
  using assms(1)
proof (induction arbitrary: u st rule: rtranclp_induct)
  case base
  then show ?case using assms(2) by blast
next
  case (step x y)
  then show ?case using assms(3,4) by (auto elim!: story.cases others.cases)
qed

lemma reachable_sourced:
  assumes "owner_law K" and "session_store K V" and "(sys_step K V)\<^sup>*\<^sup>* c0 c" and "status_of V c0 k = None"
  shows "status_of V c k = Some st \<Longrightarrow> ready_sourced K V c0 k st"
  using assms(3)
proof (induction arbitrary: st rule: rtranclp_induct)
  case base
  then show ?case using assms(4) by simp
next
  case (step c1 c2)
  let ?P = "ready_sourced K V c0 k"
  have zero: "?P zero_status" by (simp add: ready_sourced_def zero_status_def)
  have old: "\<forall>u st. snd (life_of V c1 k) = Some (u, st) \<longrightarrow> ?P st"
    using step.IH by (simp add: status_of_life)
  obtain u where u: "snd (life_of V c2 k) = Some (u, st)" using step.prems by (auto simp: status_of_life)
  from step(2) show ?case
  proof cases
    case (reconcile ns name w r w')
    have "followed V w w'" by (rule trackedD [OF tracked_Reconcile [OF assms(2)] reconcile(3)])
    then obtain qs where qs: "requests w' = requests w @ qs" "(story k qs)\<^sup>*\<^sup>* (life_of V c1 k) (life_of V c2 k)"
      using reconcile(1,2) unfolding followed_def by blast
    have "?P (dsStatus s)" if "StatusUpdateReq s \<in> set qs" "session_key s = k" for s
      using ready_request_sourced [OF assms(1,2) _ reconcile(3) qs(1) that(1)] step(1) reconcile(1) that(2) by simp
    then show ?thesis using story_sourced [where P = ?P, OF qs(2) old zero _ u] by blast
  next
    case external
    show ?thesis by (rule story_sourced [where P = ?P, OF elsewhere_story [OF external, of k "[]"] old zero _ u]) simp_all
  qed
qed

text \<open>A client that reads what the cluster has stored at some time.\<close>

definition store_reader :: "'w kube \<Rightarrow> 'w store_view \<Rightarrow> 'w \<Rightarrow> ('v, 'u) dynamic \<Rightarrow> bool" where
  "store_reader K V c0 D \<longleftrightarrow> (\<forall>name ns v s v'. Get D name ns v = (Inr s, v') \<longrightarrow>
     (\<exists>c. (sys_step K V)\<^sup>*\<^sup>* c0 c \<and> status_of V c (ns, name) = Some (dsStatus s)))"

lemma GetConfig_Ok:
  assumes "GetConfig D T name ns w = Some (Ok cfg, w')"
  obtains s v v' where "Get D name ns v = (Inr s, v')" "dsProgress s = ProgressReady"
    "scSessionData cfg = siSessionData (stSessionInfo (dsStatus s))"
proof -
  obtain r w1 where wait: "WaitForReady T (get_by_name D name ns) w = Some (r, w1)"
    using assms by (cases "WaitForReady T (get_by_name D name ns) w") (auto simp: GetConfig_def)
  from wait show thesis
  proof (cases rule: WaitForReady_by_name)
    case (ready x v)
    then show ?thesis using that assms wait
      by (auto simp: GetConfig_def split: prod.splits sum.splits)
  next
    case (failed s e)
    then show ?thesis using assms wait by (cases s) (auto simp: GetConfig_def)
  qed
qed

lemma client_data_sourced:
  assumes "owner_law K" and "session_store K V" and "\<forall>k. status_of V c0 k = None"
    and "store_reader K V c0 D" and "GetConfig D T name ns w = Some (Ok cfg, w')"
  obtains st where "sourced K V c0 ns name st" "stProgress st = ProgressReady"
    "siSessionData (stSessionInfo st) = scSessionData cfg"
proof -
  obtain s v v' where s: "Get D name ns v = (Inr s, v')" "dsProgress s = ProgressReady"
    "scSessionData cfg = siSessionData (stSessionInfo (dsStatus s))"
    using assms(5) by (rule GetConfig_Ok)
  then obtain c where c: "(sys_step K V)\<^sup>*\<^sup>* c0 c" "status_of V c (ns, name) = Some (dsStatus s)"
    using assms(4) unfolding store_reader_def by blast
  have "ready_sourced K V c0 (ns, name) (dsStatus s)"
    using assms(3) by (intro reachable_sourced [OF assms(1,2) c(1) _ c(2)]) simp
  then show thesis using that s(2,3) by (simp add: ready_sourced_def)
qed

section \<open>A delivery on the reference server\<close>

text \<open>
  A session is created, its objects are there and its pod is ready; two reconciliations lead it
  to \<open>Ready\<close>, with the data of the side-car log.
\<close>

definition with_status :: "string \<Rightarrow> DatamoverSessionStatus \<Rightarrow> DatamoverSession" where
  "with_status v st = sample_session\<lparr>dsMeta := (dsMeta sample_session)\<lparr>omResourceVersion := v\<rparr>, dsStatus := st\<rparr>"

definition delivery_status :: "DatamoverSessionProgress \<Rightarrow> string \<Rightarrow> DatamoverSessionStatus" where
  "delivery_status p d = \<lparr>stSessionInfo = \<lparr>siPodName = ''s1-pod'', siServiceName = ''s1-service'',
     siSessionData = d, siPodErrors = []\<rparr>, stProgress = p\<rparr>"

definition delivery_server :: "DatamoverSession option \<Rightarrow> nat \<Rightarrow> (key \<Rightarrow> string \<Rightarrow> DatamoverSession option) \<Rightarrow> server" where
  "delivery_server s n past = (cluster ready_world)\<lparr>srvSessions := Map.empty((''ns'', ''s1'') := s),
     srvCounter := n, srvPast := past\<rparr>"

lemma with_status_simps [simp]:
  "dsName (with_status v st) = ''s1''" "dsNamespace (with_status v st) = ''ns''"
  "omUID (dsMeta (with_status v st)) = ''u1''" "omResourceVersion (dsMeta (with_status v st)) = v"
  "dsStatus (with_status v st) = st" "dsSpec (with_status v st) = dsSpec sample_session"
  "(with_status v st)\<lparr>dsStatus := st'\<rparr> = with_status v st'"
  "(with_status v st)\<lparr>dsMeta := (dsMeta (with_status u st2))\<lparr>omResourceVersion := v'\<rparr>\<rparr> = with_status v' st"
  by (simp_all add: with_status_def)

lemma delivery_versions [simp]: "nat_digits 7 = ''7''" "nat_digits 8 = ''8''"
  by (simp_all add: nat_digits.simps go_defs)

lemma owned_with_status: "isOwnedBy ref_kube (owned_meta n) (with_status v st)"
  using owned_by_sample [of n] by (simp add: isOwnedBy_def split: option.splits sum.splits)

lemma delivery_resources:
  "getResources ref_kube (with_status v st) \<lparr>cluster = delivery_server s n past, requests = q\<rparr>
     = (Ok ready_resources, \<lparr>cluster = delivery_server s n past, requests = q\<rparr>)"
proof -
  let ?w = "\<lparr>cluster = delivery_server s n past, requests = q\<rparr>"
  have "isPodReady ready_pod = Ok True"
    by (simp add: isPodReady_True_iff ready_pod_def ready_pod_status_def first_status_def ready_status_def)
  then have "getReadiness ref_kube ready_pod ?w = (Ok \<lparr>rdReady = True, rdData = ''aGk=''\<rparr>, ?w)"
    by (simp add: getReadiness_def fetchSessionData_def fetchSessionDataUsingSidecar_def ready_pod_def
        ready_pod_status_def ready_status_def getContainerLogs_def getContainerLogsReader_def kio_defs srv_defs
        delivery_server_def ready_world_def ready_data)
  moreover have "getPod ref_kube (with_status v st) ?w = (Ok (Some ready_pod), ?w)"
    by (simp add: getPod_def kio_defs srv_defs delivery_server_def ready_world_def ready_pod_def owned_with_status Let_def)
  moreover have "getService ref_kube (with_status v st) ?w = (Ok (Some owned_service), ?w)"
    by (simp add: getService_def kio_defs srv_defs delivery_server_def ready_world_def owned_service_def
        owned_with_status GetServiceName_def)
  moreover have "getNetworkPolicy ref_kube (with_status v st) ?w = (Ok (Some owned_policy), ?w)"
    by (simp add: getNetworkPolicy_def kio_defs srv_defs delivery_server_def ready_world_def owned_policy_def owned_with_status)
  ultimately show ?thesis
    by (simp add: getResources_def bindK_def liftK_def returnK_def deref_lifecycle_def ready_resources_def Let_def)
qed

lemma delivery_Reconcile:
  assumes "classify (with_status v st) ready_resources = Ok (state, r)"
  shows "Reconcile ref_kube ''ns'' ''s1'' \<lparr>cluster = delivery_server (Some (with_status v st)) n past, requests = q\<rparr>
    = act ref_kube (with_status v st) state r \<lparr>cluster = delivery_server (Some (with_status v st)) n past, requests = q\<rparr>"
proof -
  let ?w = "\<lparr>cluster = delivery_server (Some (with_status v st)) n past, requests = q\<rparr>"
  have "Reconcile ref_kube ''ns'' ''s1'' ?w = Run ref_kube (with_status v st) ?w"
    by (simp add: Reconcile_def kio_defs srv_defs delivery_server_def)
  then show ?thesis using Run_classified [OF delivery_resources assms] by simp
qed

lemma delivery_update:
  assumes "nat_digits n \<noteq> v" and "past (''ns'', ''s1'') (nat_digits n) = None"
  shows "statusUpdate ref_kube (with_status v st')
      \<lparr>cluster = delivery_server (Some (with_status v st)) n past, requests = q\<rparr>
    = (Ok (), \<lparr>cluster = delivery_server (Some (with_status (nat_digits n) st')) (Suc n)
           (past((''ns'', ''s1'') := (past (''ns'', ''s1''))(v \<mapsto> with_status v st))),
         requests = q @ [StatusUpdateReq (with_status v st')]\<rparr>)"
  using assms
  by (simp add: statusUpdate_def writeK_def srv_StatusUpdate_def delivery_server_def Let_def)

text \<open>The two reconciliations.\<close>

definition delivery_past :: "key \<Rightarrow> string \<Rightarrow> DatamoverSession option" where
  "delivery_past = (\<lambda>_ _. None)((''ns'', ''s1'') := [''1'' \<mapsto> with_status ''1'' zero_status])"

lemma delivery_create:
  "Reconcile ref_kube ''ns'' ''s1'' \<lparr>cluster = delivery_server (Some (with_status ''1'' zero_status)) 7 (\<lambda>_ _. None), requests = []\<rparr>
   = (Ok noRequeue, \<lparr>cluster = delivery_server (Some (with_status ''7'' (delivery_status ProgressResourcesCreated []))) 8 delivery_past,
        requests = [StatusUpdateReq (with_status ''1'' (delivery_status ProgressResourcesCreated []))]\<rparr>)"
proof -
  have cl: "classify (with_status ''1'' zero_status) ready_resources = Ok (CreateResourcesSuccess, Some ready_resources)"
    by (simp add: classify_def zero_status_def ready_resources_def resourcesEmpty_def resourcesExist_def podExists_def
        serviceOk_def networkPolicyOk_def)
  have upd: "set_info (set_progress (with_status ''1'' zero_status) ProgressResourcesCreated)
      \<lparr>siPodName = ''s1-pod'', siServiceName = ''s1-service'', siSessionData = [], siPodErrors = []\<rparr>
    = with_status ''1'' (delivery_status ProgressResourcesCreated [])"
    by (simp add: set_info_def set_progress_def delivery_status_def zero_status_def)
  show ?thesis
    using delivery_update [of 7 "''1''" "\<lambda>_ _. None" "delivery_status ProgressResourcesCreated []" zero_status "[]"]
    by (simp add: delivery_Reconcile [OF cl] act_def deref_resources_def UpdateStatusResources_def ready_resources_def
        serviceNameOf_def ready_pod_def owned_service_def upd bindK_def liftK_def returnK_def delivery_past_def)
qed

lemma delivery_ready:
  "\<exists>past. Reconcile ref_kube ''ns'' ''s1'' \<lparr>cluster = delivery_server (Some (with_status ''7'' (delivery_status ProgressResourcesCreated []))) 8 delivery_past, requests = q\<rparr>
   = (Ok noRequeue, \<lparr>cluster = delivery_server (Some (with_status ''8'' (delivery_status ProgressReady ''aGk=''))) 9 past,
        requests = q @ [StatusUpdateReq (with_status ''7'' (delivery_status ProgressReady ''aGk=''))]\<rparr>)"
proof -
  let ?st = "delivery_status ProgressResourcesCreated []"
  have cl: "classify (with_status ''7'' ?st) ready_resources = Ok (ReadinessSuccess, Some ready_resources)"
    using ready_classify by (simp add: classify_def delivery_status_def)
  have upd: "set_info (set_progress (with_status ''7'' ?st) ProgressReady)
      \<lparr>siPodName = ''s1-pod'', siServiceName = ''s1-service'', siSessionData = ''aGk='', siPodErrors = []\<rparr>
    = with_status ''7'' (delivery_status ProgressReady ''aGk='')"
    by (simp add: set_info_def set_progress_def delivery_status_def)
  have "delivery_past (''ns'', ''s1'') ''8'' = None" by (simp add: delivery_past_def)
  then show ?thesis
    using delivery_update [of 8 "''7''" delivery_past "delivery_status ProgressReady ''aGk=''" ?st q]
    by (simp add: delivery_Reconcile [OF cl] act_def UpdateStatusData_def ready_resources_def
        serviceNameOf_def ready_pod_def owned_service_def upd bindK_def returnK_def) auto
qed

definition delivered :: DatamoverSession where
  "delivered = with_status ''8'' (delivery_status ProgressReady ''aGk='')"

definition nowhere :: server where
  "nowhere = delivery_server None 7 (\<lambda>_ _. None)"

abbreviation delivery_start :: server where
  "delivery_start \<equiv> delivery_server (Some (with_status ''1'' zero_status)) 7 (\<lambda>_ _. None)"

abbreviation delivery_middle :: server where
  "delivery_middle \<equiv> delivery_server (Some (with_status ''7'' (delivery_status ProgressResourcesCreated []))) 8 delivery_past"

lemma delivery_history:
  obtains past where "sys_step ref_kube ref_view nowhere delivery_start"
    "sys_step ref_kube ref_view delivery_start delivery_middle"
    "sys_step ref_kube ref_view delivery_middle (delivery_server (Some delivered) 9 past)"
proof -
  have "elsewhere ref_view nowhere delivery_start"
    unfolding elsewhere_def
  proof (intro conjI allI)
    fix k
    show "vwVersions ref_view nowhere k \<subseteq>\<^sub>m vwVersions ref_view delivery_start k"
      by (simp add: nowhere_def delivery_server_def ref_view_def map_le_def)
    show "others\<^sup>*\<^sup>* (life_of ref_view nowhere k) (life_of ref_view delivery_start k)"
    proof (cases "k = (''ns'', ''s1'')")
      case True
      then show ?thesis by (intro r_into_rtranclp ref_born) (auto simp: nowhere_def delivery_server_def)
    next
      case False
      then have "life_of ref_view nowhere k = life_of ref_view delivery_start k"
        by (simp add: life_of_def uids_def ref_view_def nowhere_def delivery_server_def stored_def)
      then show ?thesis by simp
    qed
  qed
  then have "sys_step ref_kube ref_view nowhere delivery_start" by (rule sys_step.external)
  moreover have "sys_step ref_kube ref_view delivery_start delivery_middle"
    using sys_step.reconcile [OF delivery_create, of ref_view] by simp
  moreover obtain past where "Reconcile ref_kube ''ns'' ''s1'' \<lparr>cluster = delivery_middle, requests = []\<rparr>
      = (Ok noRequeue, \<lparr>cluster = delivery_server (Some delivered) 9 past,
        requests = [StatusUpdateReq (with_status ''7'' (delivery_status ProgressReady ''aGk=''))]\<rparr>)"
    using delivery_ready [of "[]"] by (auto simp: delivered_def)
  then have "sys_step ref_kube ref_view delivery_middle (delivery_server (Some delivered) 9 past)"
    using sys_step.reconcile [of ref_kube _ _ _ _ _ ref_view] by fastforce
  ultimately show thesis by (rule that)
qed

lemma delivery_reachable:
  "\<exists>c. (sys_step ref_kube ref_view)\<^sup>*\<^sup>* nowhere c \<and> status_of ref_view c (''ns'', ''s1'') = Some (dsStatus delivered)"
proof -
  obtain past where "sys_step ref_kube ref_view nowhere delivery_start"
    "sys_step ref_kube ref_view delivery_start delivery_middle"
    "sys_step ref_kube ref_view delivery_middle (delivery_server (Some delivered) 9 past)"
    by (rule delivery_history)
  then have "(sys_step ref_kube ref_view)\<^sup>*\<^sup>* nowhere (delivery_server (Some delivered) 9 past)"
    by (meson converse_rtranclp_into_rtranclp r_into_rtranclp)
  moreover have "status_of ref_view (delivery_server (Some delivered) 9 past) (''ns'', ''s1'') = Some (dsStatus delivered)"
    by (simp add: delivery_server_def)
  ultimately show ?thesis by blast
qed

text \<open>
  C40: A session changes its status at most three times.  Look at the cluster as often as wished,
  between any reconciliations and changes by others: as long as it is the same object, by its
  UID, that is stored under the key, the statuses seen, repetitions aside, are at most four.
\<close>

theorem status_changes_bounded:
  assumes "session_store K V" and "successively (sys_step K V)\<^sup>*\<^sup>* cs"
    and "\<forall>c \<in> set cs. \<exists>s. stored V c k = Some s \<and> omUID (dsMeta s) = u"
  shows "length (remdups_adj (map (\<lambda>c. status_of V c k) cs)) \<le> 4"
proof (cases "cs = []")
  case False
  let ?xs = "map (\<lambda>c. status_of V c k) cs" and ?f = "\<lambda>x. rank (the x)"
  have step: "status_of V c k = status_of V c' k \<or> ?f (status_of V c k) < ?f (status_of V c' k)"
    if c: "c \<in> set cs" "c' \<in> set cs" and path: "(sys_step K V)\<^sup>*\<^sup>* c c'" for c c'
  proof -
    obtain s s' where s: "stored V c k = Some s" "stored V c' k = Some s'" "omUID (dsMeta s') = omUID (dsMeta s)"
      using assms(3) c by metis
    show ?thesis using status_path_rank [OF same_object_path [OF assms(1) path s]] s by (auto simp: status_of_stored)
  qed
  then have "successively (\<lambda>x y. x = y \<or> ?f x < ?f y) ?xs"
    unfolding successively_map using assms(2) by (rule successively_mono [rotated])
  moreover have "\<forall>x \<in> set ?xs. ?f x < 4" by (simp add: rank_def)
  ultimately have "length (remdups_adj ?xs) + ?f (hd ?xs) \<le> 4" using False by (intro ranked_changes) auto
  then show ?thesis by simp
qed simp

theorem status_changes_bounded_witness:
  "\<exists>cs. length (remdups_adj (map (\<lambda>c. status_of ref_view c (''ns'', ''s1'')) cs)) \<le> 4 \<and>
     map (\<lambda>c. status_of ref_view c (''ns'', ''s1'')) cs = [Some zero_status, Some zero_status,
       Some (delivery_status ProgressResourcesCreated []), Some (delivery_status ProgressReady ''aGk='')]"
proof -
  obtain past where steps: "sys_step ref_kube ref_view delivery_start delivery_middle"
    "sys_step ref_kube ref_view delivery_middle (delivery_server (Some delivered) 9 past)"
    by (rule delivery_history)
  let ?cs = "[delivery_start, delivery_start, delivery_middle, delivery_server (Some delivered) 9 past]"
  have "successively (sys_step ref_kube ref_view)\<^sup>*\<^sup>* ?cs" using steps by (simp add: r_into_rtranclp)
  moreover have "\<forall>c \<in> set ?cs. \<exists>s. stored ref_view c (''ns'', ''s1'') = Some s \<and> omUID (dsMeta s) = ''u1''"
    by (simp add: delivery_server_def delivered_def)
  ultimately have "length (remdups_adj (map (\<lambda>c. status_of ref_view c (''ns'', ''s1'')) ?cs)) \<le> 4"
    by (rule status_changes_bounded [OF ref_session_store])
  then show ?thesis by (intro exI [of _ ?cs]) (simp add: delivery_server_def delivered_def)
qed

text \<open>A client of that server.\<close>

definition delivery_dynamic :: "(tick, DatamoverSession + Service) dynamic" where
  "delivery_dynamic = tick_dynamic\<lparr>dyn_Get := (\<lambda>gvr ns n w.
     (if gvr \<noteq> sessionResource then Inr (Inr served_service)
      else if ns = ''ns'' \<and> n = ''s1'' then Inr (Inl delivered) else Inl (not_found ()),
      \<lparr>tkNow = tkNow w + 1, tkReads = Suc (tkReads w)\<rparr>))\<rparr>"

lemma delivery_reader: "store_reader ref_kube ref_view nowhere delivery_dynamic"
  unfolding store_reader_def
proof (intro allI impI)
  fix name ns v s v' assume "Get delivery_dynamic name ns v = (Inr s, v')"
  then have "ns = ''ns''" "name = ''s1''" "s = delivered"
    by (auto simp: Get_def delivery_dynamic_def tick_dynamic_def split: if_splits prod.splits sum.splits)
  then show "\<exists>c. (sys_step ref_kube ref_view)\<^sup>*\<^sup>* nowhere c \<and> status_of ref_view c (ns, name) = Some (dsStatus s)"
    using delivery_reachable by simp
qed

lemma delivery_config:
  "\<exists>w'. GetConfig delivery_dynamic tick_timer ''s1'' ''ns'' w = Some (Ok \<lparr>scImplementation = ''kopia'',
     scService = Some served_service, scSessionData = ''aGk=''\<rparr>, w')"
proof -
  have "WaitForReady tick_timer (get_by_name delivery_dynamic ''s1'' ''ns'') w
      = Some (Returned (Some delivered) None, \<lparr>tkNow = tkNow w + 1, tkReads = Suc (tkReads w)\<rparr>)"
    unfolding WaitForReady_def WaitForReadyWithTimeout_def
    by (subst waitLoop.simps)
      (simp add: get_by_name_def Get_def delivery_dynamic_def tick_dynamic_def isSessionReady_def delivered_def
        delivery_status_def)
  moreover have "serviceResource \<noteq> sessionResource" by (simp add: serviceResource_def sessionResource_def ResourceNamePlural_def)
  ultimately show ?thesis
    by (simp add: GetConfig_def GetService_def delivery_dynamic_def tick_dynamic_def delivered_def delivery_status_def)
qed

end
