(* ===== verification/Progression.thy ===== *)
theory Progression
  imports Delivery
begin

text \<open>
  The way of a session to \<open>Ready\<close>, from its first reconciliation on.  The cluster is seen through
  a view: the stored sessions, services and network policies, the pods and their logs.  A live
  cluster answers reads from the view and takes every request; the interface is a locale, with
  the reference server as an instance.
\<close>

section \<open>A live cluster\<close>

record cluster_view =
  cvSessions :: "key \<rightharpoonup> DatamoverSession"
  cvPods :: "Pod list"
  cvServices :: "key \<rightharpoonup> Service"
  cvPolicies :: "key \<rightharpoonup> NetworkPolicy"
  cvLogs :: "key \<Rightarrow> string \<Rightarrow> string"

definition has_label :: "string \<Rightarrow> string \<Rightarrow> ObjectMeta \<Rightarrow> bool" where
  "has_label l v m \<longleftrightarrow> (case omLabels m of None \<Rightarrow> False | Some al \<Rightarrow> map_of al l = Some v)"

text \<open>What the server keeps of the metadata of an object it stores.\<close>

definition stored_meta :: "ObjectMeta \<Rightarrow> ObjectMeta \<Rightarrow> bool" where
  "stored_meta m m' \<longleftrightarrow> omNamespace m' = omNamespace m \<and> omLabels m' = omLabels m
     \<and> omOwnerReferences m' = omOwnerReferences m \<and> (omName m \<noteq> [] \<longrightarrow> omName m' = omName m)"

text \<open>The pods of a session, its service and its network policy, as far as it asks for them.\<close>

definition own_pods :: "'w kube \<Rightarrow> DatamoverSession \<Rightarrow> cluster_view \<Rightarrow> Pod list" where
  "own_pods K s V = filter (\<lambda>p. isOwnedBy K (podMeta p) s) (filter (\<lambda>p. omNamespace (podMeta p) = dsNamespace s \<and>
     has_label DatamoverSessionLabel (dsName s) (podMeta p)) (cvPods V))"

definition objects_there ::
  "'w kube \<Rightarrow> DatamoverSession \<Rightarrow> LifecycleConfig \<Rightarrow> cluster_view \<Rightarrow> Pod \<Rightarrow> Service \<Rightarrow> NetworkPolicy \<Rightarrow> bool" where
  "objects_there K s lc V p x y \<longleftrightarrow> own_pods K s V = [p] \<and>
     (lcServicePorts lc \<noteq> [] \<longrightarrow> cvServices V (dsNamespace s, GetServiceName s) = Some x \<and> isOwnedBy K (svcMeta x) s
        \<and> omName (svcMeta x) = GetServiceName s) \<and>
     (npcEnabled (lcNetworkPolicy lc) \<longrightarrow> cvPolicies V (dsNamespace s, dsName s) = Some y \<and> isOwnedBy K (npMeta y) s)"

definition nothing_there :: "'w kube \<Rightarrow> DatamoverSession \<Rightarrow> cluster_view \<Rightarrow> bool" where
  "nothing_there K s V \<longleftrightarrow> own_pods K s V = [] \<and> cvServices V (dsNamespace s, GetServiceName s) = None
     \<and> cvPolicies V (dsNamespace s, dsName s) = None"

text \<open>The pod runs, and the log of its side-car holds the session data.\<close>

definition publishes :: "cluster_view \<Rightarrow> Pod \<Rightarrow> string \<Rightarrow> bool" where
  "publishes V p d \<longleftrightarrow> isPodReady p = Ok True
     \<and> getDataFromLogs (cvLogs V (pod_key p) sessionDataContainerName) = Ok (Some d)"

text \<open>The resources a reconciliation then reads.\<close>

definition ready_objects :: "LifecycleConfig \<Rightarrow> Pod \<Rightarrow> string \<Rightarrow> Service \<Rightarrow> NetworkPolicy \<Rightarrow> resources" where
  "ready_objects lc p d x y = \<lparr>rsPod = Some p, rsPodReadiness = Some \<lparr>rdReady = True, rdData = d\<rparr>,
     rsService = (if lcServicePorts lc \<noteq> [] then Some x else None), rsNeedService = (lcServicePorts lc \<noteq> []),
     rsNetworkPolicy = (if npcEnabled (lcNetworkPolicy lc) then Some y else None),
     rsNeedNetworkPolicy = npcEnabled (lcNetworkPolicy lc)\<rparr>"

definition no_objects :: "LifecycleConfig \<Rightarrow> resources" where
  "no_objects lc = \<lparr>rsPod = None, rsPodReadiness = None, rsService = None, rsNeedService = (lcServicePorts lc \<noteq> []),
     rsNetworkPolicy = None, rsNeedNetworkPolicy = npcEnabled (lcNetworkPolicy lc)\<rparr>"

text \<open>A session whose status was updated, and what its status then says of its objects.\<close>

definition restated :: "DatamoverSession \<Rightarrow> string \<Rightarrow> DatamoverSessionProgress \<Rightarrow> SessionInfo \<Rightarrow> DatamoverSession" where
  "restated s rv p i = s\<lparr>dsStatus := \<lparr>stSessionInfo = i, stProgress = p\<rparr>, dsMeta := (dsMeta s)\<lparr>omResourceVersion := rv\<rparr>\<rparr>"

definition object_info :: "DatamoverSession \<Rightarrow> LifecycleConfig \<Rightarrow> Pod \<Rightarrow> string \<Rightarrow> SessionInfo" where
  "object_info s lc p d = \<lparr>siPodName = omName (podMeta p),
     siServiceName = (if lcServicePorts lc \<noteq> [] then GetServiceName s else []), siSessionData = d, siPodErrors = []\<rparr>"

lemma restated_simps [simp]:
  "dsName (restated s rv q i) = dsName s" "dsNamespace (restated s rv q i) = dsNamespace s"
  "dsSpec (restated s rv q i) = dsSpec s" "omUID (dsMeta (restated s rv q i)) = omUID (dsMeta s)"
  "dsStatus (restated s rv q i) = \<lparr>stSessionInfo = i, stProgress = q\<rparr>"
  "session_key (restated s rv q i) = session_key s" "GetServiceName (restated s rv q i) = GetServiceName s"
  "restated (restated s rv q i) rv' q' i' = restated s rv' q' i'"
  by (simp_all add: restated_def session_key_def GetServiceName_def)

lemma object_info_restated [simp]: "object_info (restated s rv q i) = object_info s"
  by (simp add: fun_eq_iff object_info_def)

lemma objects_there_restated [simp]: "objects_there K (restated s rv q i) = objects_there K s"
proof -
  have "isOwnedBy K m (restated s rv q i) = isOwnedBy K m s" for m
    by (simp add: isOwnedBy_def split: option.splits sum.splits)
  then show ?thesis by (simp add: fun_eq_iff objects_there_def own_pods_def)
qed

text \<open>
  What the rest of the cluster does between two passes: pods keep their metadata, those of the
  session come up and publish the session data; sessions, services and policies stay as they are.
\<close>

definition pods_started :: "'w kube \<Rightarrow> DatamoverSession \<Rightarrow> string \<Rightarrow> cluster_view \<Rightarrow> cluster_view \<Rightarrow> bool" where
  "pods_started K s d V V' \<longleftrightarrow> V' = V\<lparr>cvPods := cvPods V', cvLogs := cvLogs V'\<rparr> \<and>
     list_all2 (\<lambda>p p'. podMeta p' = podMeta p \<and> (isOwnedBy K (podMeta p) s \<longrightarrow> publishes V' p' d)) (cvPods V) (cvPods V')"

lemma list_all2_filter:
  "list_all2 P xs ys \<Longrightarrow> (\<And>x y. P x y \<Longrightarrow> A x = A y) \<Longrightarrow> list_all2 P (filter A xs) (filter A ys)"
  by (induction rule: list_all2_induct) auto

lemma pods_started_objects:
  assumes "pods_started K s d V V'" and "objects_there K s lc V p x y"
  obtains p' where "objects_there K s lc V' p' x y" "publishes V' p' d" "podMeta p' = podMeta p"
proof -
  let ?P = "\<lambda>p p'. podMeta p' = podMeta p \<and> (isOwnedBy K (podMeta p) s \<longrightarrow> publishes V' p' d)"
  have "list_all2 ?P (own_pods K s V) (own_pods K s V')"
    unfolding own_pods_def using assms(1) by (intro list_all2_filter) (auto simp: pods_started_def)
  moreover have "own_pods K s V = [p]" using assms(2) by (simp add: objects_there_def)
  ultimately obtain p' where p': "own_pods K s V' = [p']" "?P p p'" by (auto simp: list_all2_Cons1)
  have "isOwnedBy K (podMeta p) s"
    using arg_cong [OF \<open>own_pods K s V = [p]\<close>, of set] by (auto simp: own_pods_def)
  moreover have "cvServices V' = cvServices V" "cvPolicies V' = cvPolicies V"
    using assms(1) unfolding pods_started_def by (metis cluster_view.select_convs cluster_view.surjective cluster_view.update_convs)+
  ultimately show thesis using that p' assms(2) by (simp add: objects_there_def)
qed

locale live_cluster =
  fixes K :: "'w kube" and ok :: "'w \<Rightarrow> bool" and view :: "'w \<Rightarrow> cluster_view"
  assumes owners: "owner_law K" and references: "reference_law K"
    and get_session: "cvSessions (view c) (ns, n) = Some s \<Longrightarrow> session_key s = (ns, n) \<Longrightarrow> k_GetSession K ns n c = (Inr s, c)"
    and list_pods: "k_ListPods K ns l v c =
      (Inr (filter (\<lambda>p. omNamespace (podMeta p) = ns \<and> has_label l v (podMeta p)) (cvPods (view c))), c)"
    and get_service: "cvServices (view c) (ns, n) = Some x \<Longrightarrow> k_GetService K ns n c = (Inr x, c)"
    and no_service: "cvServices (view c) (ns, n) = None \<Longrightarrow> \<exists>e. lib_IsNotFound K e \<and> k_GetService K ns n c = (Inl e, c)"
    and get_policy: "cvPolicies (view c) (ns, n) = Some y \<Longrightarrow> k_GetNetworkPolicy K ns n c = (Inr y, c)"
    and no_policy: "cvPolicies (view c) (ns, n) = None \<Longrightarrow>
      \<exists>e. lib_IsNotFound K e \<and> k_GetNetworkPolicy K ns n c = (Inl e, c)"
    and log_client: "k_NewForConfig K = Inr ()"
    and stream_logs: "k_StreamLogs K ns n ct c = (Inr \<lparr>lsData = cvLogs (view c) (ns, n) ct, lsFails = False\<rparr>, c)"
    and create_pod: "ok c \<Longrightarrow> \<exists>p' c'. k_CreatePod K p c = (Inr (), c') \<and> ok c' \<and>
      view c' = (view c)\<lparr>cvPods := cvPods (view c) @ [p']\<rparr> \<and> stored_meta (podMeta p) (podMeta p')"
    and create_service: "ok c \<Longrightarrow> cvServices (view c) (omNamespace (svcMeta x), omName (svcMeta x)) = None \<Longrightarrow>
      \<exists>x' c'. k_CreateService K x c = (Inr (), c') \<and> ok c' \<and>
        view c' = (view c)\<lparr>cvServices := (cvServices (view c))((omNamespace (svcMeta x), omName (svcMeta x)) \<mapsto> x')\<rparr> \<and>
        stored_meta (svcMeta x) (svcMeta x')"
    and create_policy: "ok c \<Longrightarrow> cvPolicies (view c) (omNamespace (npMeta y), omName (npMeta y)) = None \<Longrightarrow>
      \<exists>y' c'. k_CreateNetworkPolicy K y c = (Inr (), c') \<and> ok c' \<and>
        view c' = (view c)\<lparr>cvPolicies := (cvPolicies (view c))((omNamespace (npMeta y), omName (npMeta y)) \<mapsto> y')\<rparr> \<and>
        stored_meta (npMeta y) (npMeta y')"
    and update_status: "ok c \<Longrightarrow> cvSessions (view c) (session_key s) = Some cur \<Longrightarrow>
      omResourceVersion (dsMeta s) = omResourceVersion (dsMeta cur) \<Longrightarrow>
      \<exists>rv c'. k_StatusUpdate K s c = (Inr (), c') \<and> ok c' \<and>
        view c' = (view c)\<lparr>cvSessions := (cvSessions (view c))(session_key s \<mapsto>
          cur\<lparr>dsStatus := dsStatus s, dsMeta := (dsMeta cur)\<lparr>omResourceVersion := rv\<rparr>\<rparr>)\<rparr>"
begin

text \<open>Reading the resources of a session off the view.\<close>

lemma getPod_view:
  "own_pods K s (view (cluster w)) = [] \<Longrightarrow> getPod K s w = (Ok None, w)"
  "own_pods K s (view (cluster w)) = [p] \<Longrightarrow> getPod K s w = (Ok (Some p), w)"
  by (simp_all add: getPod_def own_pods_def list_pods kio_defs Let_def)

lemma getService_view:
  "cvServices (view (cluster w)) (dsNamespace s, GetServiceName s) = None \<Longrightarrow> getService K s w = (Ok None, w)"
  "cvServices (view (cluster w)) (dsNamespace s, GetServiceName s) = Some x \<Longrightarrow> isOwnedBy K (svcMeta x) s \<Longrightarrow>
     getService K s w = (Ok (Some x), w)"
  using no_service [of "cluster w" "dsNamespace s" "GetServiceName s"]
    get_service [of "cluster w" "dsNamespace s" "GetServiceName s"]
  by (auto simp: getService_def kio_defs)

lemma getNetworkPolicy_view:
  "cvPolicies (view (cluster w)) (dsNamespace s, dsName s) = None \<Longrightarrow> getNetworkPolicy K s w = (Ok None, w)"
  "cvPolicies (view (cluster w)) (dsNamespace s, dsName s) = Some y \<Longrightarrow> isOwnedBy K (npMeta y) s \<Longrightarrow>
     getNetworkPolicy K s w = (Ok (Some y), w)"
  using no_policy [of "cluster w" "dsNamespace s" "dsName s"] get_policy [of "cluster w" "dsNamespace s" "dsName s"]
  by (auto simp: getNetworkPolicy_def kio_defs)

lemma fetchFromStatuses_view:
  assumes "st \<in> set sts" and "cstName st = sessionDataContainerName"
    and "getDataFromLogs (cvLogs (view (cluster w)) (pod_key p) sessionDataContainerName) = Ok (Some d)"
  shows "fetchFromStatuses K p sts w = (Ok (Some d), w)"
  using assms
  by (induction sts)
    (auto simp: getContainerLogs_def getContainerLogsReader_def log_client stream_logs kio_defs pod_key_def)

lemma getReadiness_view:
  assumes "isPodReady p = Ok True"
    and "getDataFromLogs (cvLogs (view (cluster w)) (pod_key p) sessionDataContainerName) = Ok (Some d)"
  shows "getReadiness K p w = (Ok \<lparr>rdReady = True, rdData = d\<rparr>, w)"
proof -
  obtain st where "first_status sessionDataContainerName (pstInitContainerStatuses (podStatus p)) = Some st"
    using assms(1) by (auto simp: isPodReady_True_iff)
  then have "st \<in> set (pstInitContainerStatuses (podStatus p))" "cstName st = sessionDataContainerName"
    by (auto simp: first_status_def find_Some_iff)
  from fetchFromStatuses_view [where w = w and p = p, OF this assms(2)] assms(1) show ?thesis
    by (simp add: getReadiness_def fetchSessionData_def fetchSessionDataUsingSidecar_def kio_simps)
qed

lemma getResources_ready:
  assumes "dssLifecycleConfig (dsSpec s) = Some lc" and "objects_there K s lc (view (cluster w)) p x y"
    and "publishes (view (cluster w)) p d"
  shows "getResources K s w = (Ok (ready_objects lc p d x y), w)"
  using assms getPod_view(2) [of s w p] getReadiness_view [of p w d] getService_view(2) [of w s x] getNetworkPolicy_view(2) [of w s y]
  by (simp add: getResources_def objects_there_def publishes_def ready_objects_def deref_lifecycle_def kio_defs Let_def)

lemma getResources_none:
  assumes "dssLifecycleConfig (dsSpec s) = Some lc" and "nothing_there K s (view (cluster w))"
  shows "getResources K s w = (Ok (no_objects lc), w)"
  using assms getPod_view(1) [of s w] getService_view(1) [of w s] getNetworkPolicy_view(1) [of w s]
  by (simp add: getResources_def nothing_there_def no_objects_def deref_lifecycle_def kio_defs Let_def)

text \<open>Creating the objects.\<close>

lemma stored_owned: "stored_meta m m' \<Longrightarrow> isOwnedBy K m' s = isOwnedBy K m s"
  by (rule isOwnedBy_cong [OF owners]) (simp_all add: stored_meta_def)

lemma CreatePod_view:
  assumes "MakePodSpec K s = (Ok pod, s')" and "ok (cluster w)"
  obtains p w' where "CreatePod K s w = (Ok s', w')" "ok (cluster w')"
    "view (cluster w') = (view (cluster w))\<lparr>cvPods := cvPods (view (cluster w)) @ [p]\<rparr>"
    "omNamespace (podMeta p) = dsNamespace s" "has_label DatamoverSessionLabel (dsName s) (podMeta p)" "isOwnedBy K (podMeta p) s"
proof -
  obtain lc where lc: "s' = share_maps K s lc" "podMeta pod = podObjectMeta s lc"
    using assms(1) by (auto elim: MakePodSpec_Ok)
  obtain m where m: "lib_SetControllerReference K s' (podMeta pod) = Inr m"
    using references lc unfolding reference_law_def by (fastforce simp: podObjectMeta_def zero_meta_def)
  let ?pod = "pod\<lparr>podMeta := m\<rparr>"
  obtain p c where p: "k_CreatePod K ?pod (cluster w) = (Inr (), c)" "ok c"
      "view c = (view (cluster w))\<lparr>cvPods := cvPods (view (cluster w)) @ [p]\<rparr>" "stored_meta m (podMeta p)"
    using create_pod [OF assms(2), of ?pod] by auto
  have "isOwnedBy K m s" using isOwnedBy_reference [OF owners m] lc by simp
  then show thesis
    using that [of "w\<lparr>cluster := c, requests := requests w @ [CreatePodReq ?pod]\<rparr>" p] assms(1) m p lc
      SetControllerReference_frame [OF owners m] stored_owned [OF p(4)]
    by (simp add: CreatePod_def kio_defs Let_def stored_meta_def has_label_def podObjectMeta_def)
qed

lemma CreateService_view:
  assumes "dssLifecycleConfig (dsSpec s) = Some lc" and "lcServicePorts lc \<noteq> []" and "ok (cluster w)"
    and "cvServices (view (cluster w)) (dsNamespace s, GetServiceName s) = None" and "GetServiceName s \<noteq> []"
  obtains x w' where "CreateService K s w = (Ok (), w')" "ok (cluster w')"
    "view (cluster w') = (view (cluster w))\<lparr>cvServices := (cvServices (view (cluster w)))((dsNamespace s, GetServiceName s) \<mapsto> x)\<rparr>"
    "isOwnedBy K (svcMeta x) s" "omName (svcMeta x) = GetServiceName s"
proof -
  let ?svc = "makeServiceSpec s lc (GetServiceName s)"
  obtain m where m: "lib_SetControllerReference K s (svcMeta ?svc) = Inr m"
    using references unfolding reference_law_def by (fastforce simp: makeServiceSpec_def zero_meta_def)
  note frame = SetControllerReference_frame [OF owners m]
  then have key: "omNamespace m = dsNamespace s" "omName m = GetServiceName s" by (simp_all add: makeServiceSpec_def)
  obtain x c where x: "k_CreateService K (?svc\<lparr>svcMeta := m\<rparr>) (cluster w) = (Inr (), c)" "ok c"
      "view c = (view (cluster w))\<lparr>cvServices := (cvServices (view (cluster w)))((dsNamespace s, GetServiceName s) \<mapsto> x)\<rparr>"
      "stored_meta m (svcMeta x)"
    using create_service [OF assms(3), of "?svc\<lparr>svcMeta := m\<rparr>"] assms(4) key by auto
  show thesis
    using that [of "w\<lparr>cluster := c, requests := requests w @ [CreateServiceReq (?svc\<lparr>svcMeta := m\<rparr>)]\<rparr>" x] assms m x key
      stored_owned [OF x(4)] isOwnedBy_reference [OF owners m]
    by (simp add: CreateService_def kio_defs Let_def deref_lifecycle_def stored_meta_def)
qed

lemma CreateNetworkPolicy_view:
  assumes "dssLifecycleConfig (dsSpec s) = Some lc" and "lcServicePorts lc \<noteq> []" and "npcEnabled (lcNetworkPolicy lc)"
    and "ok (cluster w)" and "cvPolicies (view (cluster w)) (dsNamespace s, dsName s) = None"
  obtains y w' where "CreateNetworkPolicy K s w = (Ok (), w')" "ok (cluster w')"
    "view (cluster w') = (view (cluster w))\<lparr>cvPolicies := (cvPolicies (view (cluster w)))((dsNamespace s, dsName s) \<mapsto> y)\<rparr>"
    "isOwnedBy K (npMeta y) s"
proof -
  let ?np = "makeNetworkPolicySpec s lc"
  obtain m where m: "lib_SetControllerReference K s (npMeta ?np) = Inr m"
    using references unfolding reference_law_def by (fastforce simp: makeNetworkPolicySpec_def zero_meta_def)
  then have key: "omNamespace m = dsNamespace s" "omName m = dsName s"
    using SetControllerReference_frame [OF owners m] by (simp_all add: makeNetworkPolicySpec_def)
  obtain y c where y: "k_CreateNetworkPolicy K (?np\<lparr>npMeta := m\<rparr>) (cluster w) = (Inr (), c)" "ok c"
      "view c = (view (cluster w))\<lparr>cvPolicies := (cvPolicies (view (cluster w)))((dsNamespace s, dsName s) \<mapsto> y)\<rparr>"
      "stored_meta m (npMeta y)"
    using create_policy [OF assms(4), of "?np\<lparr>npMeta := m\<rparr>"] assms(5) key by auto
  show thesis
    using that [of "w\<lparr>cluster := c, requests := requests w @ [CreateNetworkPolicyReq (?np\<lparr>npMeta := m\<rparr>)]\<rparr>" y] assms m y key
      stored_owned [OF y(4)] isOwnedBy_reference [OF owners m]
    by (simp add: CreateNetworkPolicy_def kio_defs Let_def deref_lifecycle_def)
qed

text \<open>
  Both as the code composes them: only when the session asks for the object.  The session they are
  called with is the one whose maps the creation of the pod has written to.
\<close>

lemma service_step:
  assumes "ok (cluster w)" and "cvServices (view (cluster w)) (dsNamespace s, GetServiceName s) = None"
  shows "\<exists>x w'. (if lcServicePorts lc \<noteq> [] then CreateService K (share_maps K s lc) else returnK ()) w = (Ok (), w')
    \<and> ok (cluster w') \<and> view (cluster w') = (view (cluster w))\<lparr>cvServices := if lcServicePorts lc \<noteq> []
        then (cvServices (view (cluster w)))((dsNamespace s, GetServiceName s) \<mapsto> x) else cvServices (view (cluster w))\<rparr>
    \<and> (lcServicePorts lc \<noteq> [] \<longrightarrow> isOwnedBy K (svcMeta x) s \<and> omName (svcMeta x) = GetServiceName s)"
proof (cases "lcServicePorts lc = []")
  case False
  let ?s = "share_maps K s lc"
  have name: "GetServiceName ?s = GetServiceName s" "GetServiceName ?s \<noteq> []" by (simp_all add: GetServiceName_def)
  have free: "cvServices (view (cluster w)) (dsNamespace ?s, GetServiceName ?s) = None" using assms(2) name(1) by simp
  obtain lc' where lc': "dssLifecycleConfig (dsSpec ?s) = Some lc'" "lcServicePorts lc' \<noteq> []"
    using share_maps_lifecycle [of K s lc] False by auto
  obtain x w' where "CreateService K ?s w = (Ok (), w')" "ok (cluster w')"
    "view (cluster w') = (view (cluster w))\<lparr>cvServices := (cvServices (view (cluster w)))((dsNamespace ?s, GetServiceName ?s) \<mapsto> x)\<rparr>"
    "isOwnedBy K (svcMeta x) ?s" "omName (svcMeta x) = GetServiceName ?s"
    by (rule CreateService_view [OF lc' assms(1) free name(2)])
  then show ?thesis using False name(1) by (intro exI [of _ x] exI [of _ w']) simp
qed (use assms in \<open>simp add: returnK_def\<close>)

lemma policy_step:
  assumes "ok (cluster w)" and "cvPolicies (view (cluster w)) (dsNamespace s, dsName s) = None"
    and "npcEnabled (lcNetworkPolicy lc) \<Longrightarrow> lcServicePorts lc \<noteq> []"
  shows "\<exists>y w'. (if npcEnabled (lcNetworkPolicy lc) then CreateNetworkPolicy K (share_maps K s lc) else returnK ()) w = (Ok (), w')
    \<and> ok (cluster w') \<and> view (cluster w') = (view (cluster w))\<lparr>cvPolicies := if npcEnabled (lcNetworkPolicy lc)
        then (cvPolicies (view (cluster w)))((dsNamespace s, dsName s) \<mapsto> y) else cvPolicies (view (cluster w))\<rparr>
    \<and> (npcEnabled (lcNetworkPolicy lc) \<longrightarrow> isOwnedBy K (npMeta y) s)"
proof (cases "npcEnabled (lcNetworkPolicy lc)")
  case True
  let ?s = "share_maps K s lc"
  obtain lc' where lc': "dssLifecycleConfig (dsSpec ?s) = Some lc'" "lcServicePorts lc' \<noteq> []" "npcEnabled (lcNetworkPolicy lc')"
    using share_maps_lifecycle [of K s lc] True assms(3) by auto
  obtain y w' where "CreateNetworkPolicy K ?s w = (Ok (), w')" "ok (cluster w')"
    "view (cluster w') = (view (cluster w))\<lparr>cvPolicies := (cvPolicies (view (cluster w)))((dsNamespace ?s, dsName ?s) \<mapsto> y)\<rparr>"
    "isOwnedBy K (npMeta y) ?s"
    by (rule CreateNetworkPolicy_view [OF lc' assms(1)]) (use assms(2) in simp)
  then show ?thesis using True by (intro exI [of _ y] exI [of _ w']) simp
qed (use assms in \<open>simp add: returnK_def\<close>)

text \<open>The first pass creates all objects.\<close>

lemma CreateResources_view:
  assumes "ValidateSession s = Ok ()" and lc: "dssLifecycleConfig (dsSpec s) = Some lc"
    and "OverridePodSpec K (basePodSpec K s lc) (poPodOverride (lcPodOptions lc)) = Ok spec"
    and "ok (cluster w)" and none: "nothing_there K s (view (cluster w))"
  shows "\<exists>p x y w'. CreateResources K s (Some (no_objects lc)) w = (Ok (), w') \<and> ok (cluster w')
    \<and> cvSessions (view (cluster w')) = cvSessions (view (cluster w)) \<and> objects_there K s lc (view (cluster w')) p x y"
proof -
  have ports: "lcServicePorts lc \<noteq> []" if "npcEnabled (lcNetworkPolicy lc)"
    using that assms(1) ValidateSession_lifecycle [OF lc] by (auto simp: valid_lifecycle_def)
  obtain pod where pod: "MakePodSpec K s = (Ok pod, share_maps K s lc)" using MakePodSpec_valid [OF assms(1-3)] by blast
  obtain p w1 where 1: "CreatePod K s w = (Ok (share_maps K s lc), w1)" "ok (cluster w1)"
      "view (cluster w1) = (view (cluster w))\<lparr>cvPods := cvPods (view (cluster w)) @ [p]\<rparr>"
      "omNamespace (podMeta p) = dsNamespace s" "has_label DatamoverSessionLabel (dsName s) (podMeta p)" "isOwnedBy K (podMeta p) s"
    by (rule CreatePod_view [OF pod assms(4)])
  have own: "own_pods K s (view (cluster w1)) = [p]" "cvServices (view (cluster w1)) (dsNamespace s, GetServiceName s) = None"
    using none 1(3-6) by (simp_all add: own_pods_def nothing_there_def)
  obtain x w2 where x: "(if lcServicePorts lc \<noteq> [] then CreateService K (share_maps K s lc) else returnK ()) w1 = (Ok (), w2)"
      "ok (cluster w2)" "view (cluster w2) = (view (cluster w1))\<lparr>cvServices := if lcServicePorts lc \<noteq> []
        then (cvServices (view (cluster w1)))((dsNamespace s, GetServiceName s) \<mapsto> x) else cvServices (view (cluster w1))\<rparr>"
      "lcServicePorts lc \<noteq> [] \<longrightarrow> isOwnedBy K (svcMeta x) s \<and> omName (svcMeta x) = GetServiceName s"
    using service_step [OF 1(2) own(2)] by blast
  have pol: "cvPolicies (view (cluster w2)) (dsNamespace s, dsName s) = None"
    using none 1(3) x(3) by (simp add: nothing_there_def)
  obtain y w3 where y: "(if npcEnabled (lcNetworkPolicy lc) then CreateNetworkPolicy K (share_maps K s lc) else returnK ()) w2 = (Ok (), w3)"
      "ok (cluster w3)" "view (cluster w3) = (view (cluster w2))\<lparr>cvPolicies := if npcEnabled (lcNetworkPolicy lc)
        then (cvPolicies (view (cluster w2)))((dsNamespace s, dsName s) \<mapsto> y) else cvPolicies (view (cluster w2))\<rparr>"
      "npcEnabled (lcNetworkPolicy lc) \<longrightarrow> isOwnedBy K (npMeta y) s"
    using policy_step [OF x(2) pol ports] by blast
  have "CreateResources K s (Some (no_objects lc)) w = (Ok (), w3)"
    using 1(1) x(1) y(1) by (simp add: CreateResources_Some no_objects_def kio_simps)
  moreover have "objects_there K s lc (view (cluster w3)) p x y"
    using own(1) x(3,4) y(3,4) by (auto simp: objects_there_def own_pods_def)
  moreover have "cvSessions (view (cluster w3)) = cvSessions (view (cluster w))" using 1(3) x(3) y(3) by simp
  ultimately show ?thesis using y(2) by blast
qed

lemma Reconcile_Run:
  assumes "cvSessions (view (cluster w)) (session_key s) = Some s" and "dssLifecycleConfig (dsSpec s) = Some lc"
  shows "Reconcile K (dsNamespace s) (dsName s) w = Run K s w"
  using get_session [of "cluster w" "dsNamespace s" "dsName s" s] assms
  by (simp add: Reconcile_def kio_defs session_key_def)

lemma first_pass:
  assumes "cvSessions (view (cluster w)) (session_key s) = Some s" and "ok (cluster w)"
    and "ValidateSession s = Ok ()" and "dssLifecycleConfig (dsSpec s) = Some lc"
    and "OverridePodSpec K (basePodSpec K s lc) (poPodOverride (lcPodOptions lc)) = Ok spec"
    and "dsProgress s = ProgressNone" and "siSessionData (stSessionInfo (dsStatus s)) = []"
    and "nothing_there K s (view (cluster w))"
  shows "\<exists>p x y w'. Reconcile K (dsNamespace s) (dsName s) w = (Ok (requeue_wait_sec 20), w') \<and> ok (cluster w')
    \<and> cvSessions (view (cluster w')) = cvSessions (view (cluster w)) \<and> objects_there K s lc (view (cluster w')) p x y"
proof -
  have "classify s (no_objects lc) = Ok (Init, Some (no_objects lc))"
    using assms(6,7) by (simp add: classify_def no_objects_def resourcesEmpty_def)
  from Run_classified [OF getResources_none [OF assms(4,8)] this]
  have "Reconcile K (dsNamespace s) (dsName s) w =
      bindK (tryCreateResources K s (Some (no_objects lc))) (\<lambda>_. returnK (requeue_wait_sec 20)) w"
    using assms(3) by (simp add: Reconcile_Run [OF assms(1,4)] act_def)
  then show ?thesis using CreateResources_view [OF assms(3,4,5,2,8)]
    by (fastforce simp: tryCreateResources_def kio_simps)
qed

text \<open>The status updates of the later passes, with the version the server gives them.\<close>

lemma statusUpdate_view:
  assumes "cvSessions (view (cluster w)) (session_key s) = Some s" and "ok (cluster w)"
  obtains rv w' where "statusUpdate K (set_info (set_progress s p) i) w = (Ok (), w')" "ok (cluster w')"
    "view (cluster w') = (view (cluster w))\<lparr>cvSessions := (cvSessions (view (cluster w)))(session_key s \<mapsto>
       restated s rv p i)\<rparr>"
proof -
  let ?s = "set_info (set_progress s p) i"
  have meta: "dsMeta ?s = dsMeta s" "dsStatus ?s = \<lparr>stSessionInfo = i, stProgress = p\<rparr>"
    by (simp_all add: set_info_def set_progress_def)
  then have key: "session_key ?s = session_key s" by (simp add: session_key_def)
  obtain rv c where "k_StatusUpdate K ?s (cluster w) = (Inr (), c)" "ok c"
    "view c = (view (cluster w))\<lparr>cvSessions := (cvSessions (view (cluster w)))(session_key s \<mapsto>
       s\<lparr>dsStatus := \<lparr>stSessionInfo = i, stProgress = p\<rparr>, dsMeta := (dsMeta s)\<lparr>omResourceVersion := rv\<rparr>\<rparr>)\<rparr>"
    using update_status [OF assms(2), of ?s s] assms(1) meta key by auto
  then show thesis
    using that [of "w\<lparr>cluster := c, requests := requests w @ [StatusUpdateReq ?s]\<rparr>" rv]
    by (simp add: statusUpdate_def writeK_def restated_def)
qed

text \<open>What the status says of the objects.\<close>

lemma ready_objects_classify:
  assumes "isPodReady p = Ok True"
  shows "dsProgress s = ProgressNone \<Longrightarrow> siSessionData (stSessionInfo (dsStatus s)) = [] \<Longrightarrow>
      classify s (ready_objects lc p d x y) = Ok (CreateResourcesSuccess, Some (ready_objects lc p d x y))"
    and "dsProgress s = ProgressResourcesCreated \<Longrightarrow>
      classify s (ready_objects lc p d x y) = Ok (ReadinessSuccess, Some (ready_objects lc p d x y))"
proof -
  have "\<not> podFailed p" using assms by (auto simp: isPodReady_True_iff podFailed_def)
  then show "dsProgress s = ProgressNone \<Longrightarrow> siSessionData (stSessionInfo (dsStatus s)) = [] \<Longrightarrow>
      classify s (ready_objects lc p d x y) = Ok (CreateResourcesSuccess, Some (ready_objects lc p d x y))"
    and "dsProgress s = ProgressResourcesCreated \<Longrightarrow>
      classify s (ready_objects lc p d x y) = Ok (ReadinessSuccess, Some (ready_objects lc p d x y))"
    by (simp_all add: classify_def ready_objects_def resourcesEmpty_def resourcesExist_def podExists_def serviceOk_def
        networkPolicyOk_def resourcesFailed_def resourcesReady_def api_defs)
qed

lemma later_pass:
  assumes "cvSessions (view (cluster w)) (session_key s) = Some s" and "ok (cluster w)"
    and "dssLifecycleConfig (dsSpec s) = Some lc" and "objects_there K s lc (view (cluster w)) p x y"
    and "publishes (view (cluster w)) p d"
    and "dsProgress s = ProgressNone \<and> siSessionData (stSessionInfo (dsStatus s)) = [] \<and> q = ProgressResourcesCreated \<and> e = []
      \<or> dsProgress s = ProgressResourcesCreated \<and> q = ProgressReady \<and> e = d"
  shows "\<exists>rv w'. Reconcile K (dsNamespace s) (dsName s) w = (Ok noRequeue, w') \<and> ok (cluster w') \<and>
    view (cluster w') = (view (cluster w))\<lparr>cvSessions := (cvSessions (view (cluster w)))(session_key s \<mapsto>
       restated s rv q (object_info s lc p e))\<rparr>"
proof -
  have ready: "isPodReady p = Ok True" using assms(5) by (simp add: publishes_def)
  note run = Reconcile_Run [OF assms(1,3)] Run_classified [OF getResources_ready [OF assms(3-5)]]
  let ?rs = "ready_objects lc p d x y" and ?up = "\<lambda>q e. statusUpdate K (set_info (set_progress s q) (object_info s lc p e))"
  have updates: "UpdateStatusResources K s q ?rs = ?up q []" "UpdateStatusData K s q ?rs = ?up q d" for q
    using assms(4) by (auto simp: UpdateStatusResources_def UpdateStatusData_def ready_objects_def object_info_def
        serviceNameOf_def objects_there_def)
  obtain rv w' where up: "statusUpdate K (set_info (set_progress s q) (object_info s lc p e)) w = (Ok (), w')" "ok (cluster w')"
    "view (cluster w') = (view (cluster w))\<lparr>cvSessions := (cvSessions (view (cluster w)))(session_key s \<mapsto>
       restated s rv q (object_info s lc p e))\<rparr>"
    by (rule statusUpdate_view [OF assms(1,2)])
  from assms(6) have "Reconcile K (dsNamespace s) (dsName s) w = bindK (?up q e) (\<lambda>_. returnK noRequeue) w"
  proof (elim disjE conjE)
    assume st: "dsProgress s = ProgressNone" "siSessionData (stSessionInfo (dsStatus s)) = []" "q = ProgressResourcesCreated" "e = []"
    show ?thesis unfolding run(1) run(2) [OF ready_objects_classify(1) [OF ready st(1,2)]]
      by (simp add: act_def deref_resources_def updates kio_simps st)
  next
    assume st: "dsProgress s = ProgressResourcesCreated" "q = ProgressReady" "e = d"
    show ?thesis unfolding run(1) run(2) [OF ready_objects_classify(2) [OF ready st(1)]]
      by (simp add: act_def updates st)
  qed
  then show ?thesis using up by (auto simp: kio_simps)
qed

text \<open>Three passes lead to \<open>Ready\<close>.\<close>

lemma two_passes:
  assumes "cvSessions (view (cluster w)) (session_key s) = Some s" and "ok (cluster w)"
    and "dssLifecycleConfig (dsSpec s) = Some lc" and "objects_there K s lc (view (cluster w)) p x y"
    and "publishes (view (cluster w)) p d"
    and "dsProgress s = ProgressNone" and "siSessionData (stSessionInfo (dsStatus s)) = []"
  shows "\<exists>rv w1 w2. Reconcile K (dsNamespace s) (dsName s) w = (Ok noRequeue, w1)
    \<and> Reconcile K (dsNamespace s) (dsName s) w1 = (Ok noRequeue, w2) \<and> ok (cluster w2)
    \<and> view (cluster w2) = (view (cluster w))\<lparr>cvSessions := (cvSessions (view (cluster w)))(session_key s \<mapsto>
         restated s rv ProgressReady (object_info s lc p d))\<rparr>"
proof -
  obtain rv w1 where 1: "Reconcile K (dsNamespace s) (dsName s) w = (Ok noRequeue, w1)" "ok (cluster w1)"
      "view (cluster w1) = (view (cluster w))\<lparr>cvSessions := (cvSessions (view (cluster w)))(session_key s \<mapsto>
         restated s rv ProgressResourcesCreated (object_info s lc p []))\<rparr>"
    using later_pass [OF assms(1-5), of ProgressResourcesCreated "[]"] assms(6,7) by auto
  let ?s = "restated s rv ProgressResourcesCreated (object_info s lc p [])"
  have "cvSessions (view (cluster w1)) (session_key ?s) = Some ?s" "dssLifecycleConfig (dsSpec ?s) = Some lc"
    "objects_there K ?s lc (view (cluster w1)) p x y" "publishes (view (cluster w1)) p d"
    using 1(3) assms(3-5) by (simp_all add: objects_there_def own_pods_def publishes_def)
  from later_pass [OF this(1) 1(2) this(2-4), of ProgressReady d]
  show ?thesis using 1(1,3) by auto
qed

end

section \<open>The reference server is live\<close>

definition ref_cluster_view :: "server \<Rightarrow> cluster_view" where
  "ref_cluster_view c = \<lparr>cvSessions = srvSessions c, cvPods = srvPods c, cvServices = srvServices c,
     cvPolicies = srvPolicies c, cvLogs = srvLogs c\<rparr>"

text \<open>The counter is ahead of every version in use.\<close>

definition version_used :: "nat \<Rightarrow> string \<Rightarrow> bool" where
  "version_used n v \<longleftrightarrow> (\<exists>m<n. v = nat_digits m)"

definition ref_ok :: "server \<Rightarrow> bool" where
  "ref_ok c \<longleftrightarrow> (\<forall>k s. srvSessions c k = Some s \<longrightarrow> version_used (srvCounter c) (omResourceVersion (dsMeta s)))
     \<and> (\<forall>k v. srvPast c k v \<noteq> None \<longrightarrow> version_used (srvCounter c) v)"

lemma version_used_Suc: "version_used n v \<Longrightarrow> version_used (Suc n) v" "version_used (Suc n) (nat_digits n)"
  by (auto simp: version_used_def less_Suc_eq)

lemma version_unused [simp]: "\<not> version_used n (nat_digits n)"
  by (auto simp: version_used_def)

lemma ref_ok_Suc: "ref_ok c \<Longrightarrow> srvSessions c' = srvSessions c \<Longrightarrow> srvPast c' = srvPast c \<Longrightarrow>
    srvCounter c' = Suc (srvCounter c) \<Longrightarrow> ref_ok c'"
  unfolding ref_ok_def by (metis version_used_Suc(1))

lemma ref_okD:
  "ref_ok c \<Longrightarrow> srvSessions c k = Some s \<Longrightarrow> version_used (srvCounter c) (omResourceVersion (dsMeta s))"
  "ref_ok c \<Longrightarrow> srvPast c k v \<noteq> None \<Longrightarrow> version_used (srvCounter c) v"
  unfolding ref_ok_def by blast+

lemma ref_update_status:
  assumes "ref_ok c" and "srvSessions c (session_key s) = Some cur"
    and "omResourceVersion (dsMeta s) = omResourceVersion (dsMeta cur)"
  shows "\<exists>rv c'. srv_StatusUpdate s c = (Inr (), c') \<and> ref_ok c' \<and>
    ref_cluster_view c' = (ref_cluster_view c)\<lparr>cvSessions := (srvSessions c)(session_key s \<mapsto>
      cur\<lparr>dsStatus := dsStatus s, dsMeta := (dsMeta cur)\<lparr>omResourceVersion := rv\<rparr>\<rparr>)\<rparr>"
proof -
  let ?v = "nat_digits (srvCounter c)"
  have fresh: "?v \<noteq> omResourceVersion (dsMeta cur)" "srvPast c (session_key s) ?v = None"
    using ref_okD [OF assms(1)] assms(2) by (metis version_unused)+
  let ?c = "c\<lparr>srvSessions := (srvSessions c)(session_key s \<mapsto> cur\<lparr>dsStatus := dsStatus s,
      dsMeta := (dsMeta cur)\<lparr>omResourceVersion := ?v\<rparr>\<rparr>), srvCounter := Suc (srvCounter c),
      srvPast := (srvPast c)(session_key s := (srvPast c (session_key s))(omResourceVersion (dsMeta cur) \<mapsto> cur))\<rparr>"
  have "srv_StatusUpdate s c = (Inr (), ?c)"
    using assms(2,3) fresh by (simp add: srv_StatusUpdate_def session_key_def Let_def)
  moreover have "ref_ok ?c" unfolding ref_ok_def
  proof (intro conjI allI impI)
    fix k t assume "srvSessions ?c k = Some t"
    then show "version_used (srvCounter ?c) (omResourceVersion (dsMeta t))"
      by (cases "k = session_key s") (auto intro: version_used_Suc ref_okD [OF assms(1)])
  next
    fix k v assume "srvPast ?c k v \<noteq> None"
    then have "v = omResourceVersion (dsMeta cur) \<or> srvPast c k v \<noteq> None" by (simp split: if_splits)
    then have "version_used (srvCounter c) v" using ref_okD(1) [OF assms(1,2)] ref_okD(2) [OF assms(1)] by blast
    then show "version_used (srvCounter ?c) v" by (simp add: version_used_Suc(1))
  qed
  ultimately show ?thesis by (auto simp: ref_cluster_view_def)
qed

interpretation ref_live: live_cluster ref_kube ref_ok ref_cluster_view
proof (unfold_locales, goal_cases)
  case (3 c ns n s)
  then show ?case by (simp add: srv_defs ref_cluster_view_def session_key_def)
next
  case (4 ns l v c)
  then show ?case by (simp add: srv_defs ref_cluster_view_def has_label_def)
next
  case (11 c p)
  then show ?case
    by (auto simp: srv_defs ref_cluster_view_def stored_meta_def assign_meta_def Let_def intro!: exI ref_ok_Suc [of c])
next
  case (12 c x)
  then show ?case
    by (auto simp: srv_defs ref_cluster_view_def stored_meta_def assign_meta_def Let_def intro!: exI ref_ok_Suc [of c])
next
  case (13 c y)
  then show ?case
    by (auto simp: srv_defs ref_cluster_view_def stored_meta_def assign_meta_def Let_def intro!: exI ref_ok_Suc [of c])
next
  case (14 c s cur)
  then show ?case using ref_update_status [of c s cur] by (simp add: ref_cluster_view_def)
qed (auto simp: srv_defs ref_cluster_view_def not_found_def ref_owner_law ref_reference_law)

section \<open>From creation to the client\<close>

lemma GetConfig_ready:
  assumes "Get D n ns u = (Inr s, u1)" and "dsProgress s = ProgressReady" and "GetService D s u1 = (Inr svc, u2)"
  shows "GetConfig D T n ns u = Some (Ok \<lparr>scImplementation = dssImplementation (dsSpec s), scService = svc,
    scSessionData = siSessionData (stSessionInfo (dsStatus s))\<rparr>, u2)"
  using assms
  by (simp add: GetConfig_def WaitForReady_def WaitForReadyWithTimeout_def waitLoop.simps get_by_name_def isSessionReady_def)

text \<open>
  Two reconciliations store the status \<open>Ready\<close>, with the names of the pod and the service and with
  the session data, and leave everything else as it was.
\<close>

definition completes ::
  "'w kube \<Rightarrow> ('w \<Rightarrow> cluster_view) \<Rightarrow> DatamoverSession \<Rightarrow> LifecycleConfig \<Rightarrow> Pod \<Rightarrow> string \<Rightarrow> 'w world \<Rightarrow> bool" where
  "completes K view s lc p d v \<longleftrightarrow> (\<exists>w2 w3 rv. Reconcile K (dsNamespace s) (dsName s) v = (Ok noRequeue, w2)
     \<and> Reconcile K (dsNamespace s) (dsName s) w2 = (Ok noRequeue, w3)
     \<and> view (cluster w3) = (view (cluster v))\<lparr>cvSessions := (cvSessions (view (cluster v)))((dsNamespace s, dsName s) \<mapsto>
          restated s rv ProgressReady (object_info s lc p d))\<rparr>)"

lemma live_completes:
  assumes "live_cluster K ok view" and "cvSessions V (session_key s) = Some s" and "dssLifecycleConfig (dsSpec s) = Some lc"
    and "dsProgress s = ProgressNone" and "siSessionData (stSessionInfo (dsStatus s)) = []"
    and "objects_there K s lc V p x y" and "ok (cluster v)" and started: "pods_started K s d V (view (cluster v))"
  shows "completes K view s lc p d v"
proof -
  obtain p' where p': "objects_there K s lc (view (cluster v)) p' x y" "publishes (view (cluster v)) p' d" "podMeta p' = podMeta p"
    by (rule pods_started_objects [OF started assms(6)])
  have "cvSessions (view (cluster v)) = cvSessions V"
    using started unfolding pods_started_def by (metis cluster_view.select_convs(1) cluster_view.surjective cluster_view.update_convs(2,5))
  then have "cvSessions (view (cluster v)) (session_key s) = Some s" using assms(2) by simp
  from live_cluster.two_passes [OF assms(1) this assms(7,3) p'(1,2) assms(4,5)]
  show ?thesis unfolding completes_def using p'(3) by (auto simp: session_key_def object_info_def)
qed

text \<open>
  C7: A session gets ready in three reconciliations.  On a cluster that answers from what it has
  stored and takes every request, the first reconciliation of a valid session without objects
  leaves it exactly one pod, and the service and the policy it asks for, all its own.  Whatever
  else runs meanwhile, once the pods of the session are up and their side-car publishes the data
  \<open>d\<close>, two more reconciliations store the status \<open>Ready\<close> with the names of the pod and the service and
  with \<open>d\<close>, and leave everything else as it was.  A client that then reads this session and its
  service gets its configuration, with \<open>d\<close>, without waiting.
\<close>

theorem session_becomes_ready:
  assumes "live_cluster K ok view" and "ok (cluster w)"
    and "cvSessions (view (cluster w)) (dsNamespace s, dsName s) = Some s"
    and "ValidateSession s = Ok ()" and "dssLifecycleConfig (dsSpec s) = Some lc"
    and "OverridePodSpec K (basePodSpec K s lc) (poPodOverride (lcPodOptions lc)) = Ok spec"
    and "dsProgress s = ProgressNone" and "siSessionData (stSessionInfo (dsStatus s)) = []"
    and "nothing_there K s (view (cluster w))"
  shows "\<exists>p x y w1. Reconcile K (dsNamespace s) (dsName s) w = (Ok (requeue_wait_sec 20), w1) \<and> ok (cluster w1)
    \<and> objects_there K s lc (view (cluster w1)) p x y
    \<and> (\<forall>v d. ok (cluster v) \<longrightarrow> pods_started K s d (view (cluster w1)) (view (cluster v)) \<longrightarrow> completes K view s lc p d v)
    \<and> (\<forall>(D :: ('v, 'u) dynamic) T u u1 svc u2 rv d.
         Get D (dsName s) (dsNamespace s) u = (Inr (restated s rv ProgressReady (object_info s lc p d)), u1) \<longrightarrow>
         GetService D (restated s rv ProgressReady (object_info s lc p d)) u1 = (Inr svc, u2) \<longrightarrow>
         GetConfig D T (dsName s) (dsNamespace s) u = Some (Ok \<lparr>scImplementation = dssImplementation (dsSpec s),
           scService = svc, scSessionData = d\<rparr>, u2))"
proof -
  have stored: "cvSessions (view (cluster w)) (session_key s) = Some s" using assms(3) by (simp add: session_key_def)
  obtain p x y w1 where first: "Reconcile K (dsNamespace s) (dsName s) w = (Ok (requeue_wait_sec 20), w1)" "ok (cluster w1)"
      "cvSessions (view (cluster w1)) = cvSessions (view (cluster w))" "objects_there K s lc (view (cluster w1)) p x y"
    using live_cluster.first_pass [OF assms(1) stored assms(2,4-9)] by blast
  have "cvSessions (view (cluster w1)) (session_key s) = Some s" using stored first(3) by simp
  note later = live_completes [OF assms(1) this assms(5,7,8) first(4)]
  have client: "GetConfig D T (dsName s) (dsNamespace s) u = Some (Ok \<lparr>scImplementation = dssImplementation (dsSpec s),
      scService = svc, scSessionData = d\<rparr>, u2)"
    if "Get D (dsName s) (dsNamespace s) u = (Inr (restated s rv ProgressReady (object_info s lc p d)), u1)"
      "GetService D (restated s rv ProgressReady (object_info s lc p d)) u1 = (Inr svc, u2)"
    for D :: "('v, 'u) dynamic" and T u u1 svc u2 rv d
    using GetConfig_ready [OF that(1) _ that(2)] by (simp add: object_info_def)
  show ?thesis
    by (intro exI [of _ p] exI [of _ x] exI [of _ y] exI [of _ w1] conjI allI impI first(1,2,4) later client)
qed

text \<open>The pods of the reference server come up, each with the same status and log.\<close>

definition boot :: "PodStatus \<Rightarrow> string \<Rightarrow> server \<Rightarrow> server" where
  "boot st log c = c\<lparr>srvPods := map (\<lambda>p. p\<lparr>podStatus := st\<rparr>) (srvPods c), srvLogs := (\<lambda>_ _. log)\<rparr>"

lemma ref_ok_boot: "ref_ok c \<Longrightarrow> ref_ok (boot st log c)"
  by (simp add: ref_ok_def boot_def)

lemma boot_started:
  assumes "\<And>m sp. isPodReady \<lparr>podMeta = m, podSpec = sp, podStatus = st\<rparr> = Ok True" and "getDataFromLogs log = Ok (Some d)"
  shows "pods_started ref_kube s d (ref_cluster_view c) (ref_cluster_view (boot st log c))"
proof -
  have "isPodReady (p\<lparr>podStatus := st\<rparr>) = Ok True" for p using assms(1) by (cases p) simp
  then show ?thesis using assms(2)
    by (simp add: pods_started_def ref_cluster_view_def boot_def publishes_def list_all2_map2 list_all2_same)
qed

theorem session_becomes_ready_witness:
  "\<exists>w1 w2 w3. Reconcile ref_kube ''ns'' ''s1'' sample_world = (Ok (requeue_wait_sec 20), w1)
     \<and> Reconcile ref_kube ''ns'' ''s1'' \<lparr>cluster = boot ready_pod_status (sidecar_log ''aGk='') (cluster w1), requests = []\<rparr> = (Ok noRequeue, w2)
     \<and> Reconcile ref_kube ''ns'' ''s1'' w2 = (Ok noRequeue, w3)
     \<and> map_option (\<lambda>s. (dsProgress s, siSessionData (stSessionInfo (dsStatus s)))) (srvSessions (cluster w3) (''ns'', ''s1''))
         = Some (ProgressReady, ''aGk='')"
proof -
  have ok: "ref_ok (cluster sample_world)"
    by (auto simp: ref_ok_def sample_world_def sample_server_def version_used_def nat_digits.simps go_defs intro!: exI [of _ 1])
  have stored: "cvSessions (ref_cluster_view (cluster sample_world)) (dsNamespace sample_session, dsName sample_session) = Some sample_session"
    "nothing_there ref_kube sample_session (ref_cluster_view (cluster sample_world))"
    by (simp_all add: ref_cluster_view_def sample_world_def sample_server_def nothing_there_def own_pods_def)
  have sample: "dssLifecycleConfig (dsSpec sample_session) = Some sample_lifecycle"
      "OverridePodSpec ref_kube (basePodSpec ref_kube sample_session sample_lifecycle)
         (poPodOverride (lcPodOptions sample_lifecycle)) = Ok (basePodSpec ref_kube sample_session sample_lifecycle)"
      "dsProgress sample_session = ProgressNone" "siSessionData (stSessionInfo (dsStatus sample_session)) = []"
    using OverridePodSpec_nil [OF ref_nil_override] by simp_all
  obtain p w1 where w1: "Reconcile ref_kube ''ns'' ''s1'' sample_world = (Ok (requeue_wait_sec 20), w1)" "ref_ok (cluster w1)"
    and rest: "\<forall>v d. ref_ok (cluster v) \<longrightarrow> pods_started ref_kube sample_session d (ref_cluster_view (cluster w1)) (ref_cluster_view (cluster v))
      \<longrightarrow> completes ref_kube ref_cluster_view sample_session sample_lifecycle p d v"
    using session_becomes_ready [where ?'v = unit and ?'u = unit,
        OF ref_live.live_cluster_axioms ok stored(1) sample_valid sample stored(2)]
    unfolding sample_simps(1,2) by (elim exE conjE) (rule that)
  have "isPodReady \<lparr>podMeta = m, podSpec = sp, podStatus = ready_pod_status\<rparr> = Ok True" for m sp
    by (simp add: isPodReady_True_iff ready_pod_status_def first_status_def ready_status_def)
  then have "pods_started ref_kube sample_session ''aGk='' (ref_cluster_view (cluster w1))
      (ref_cluster_view (boot ready_pod_status (sidecar_log ''aGk='') (cluster w1)))"
    using ready_data by (rule boot_started)
  with rest ref_ok_boot [OF w1(2)]
  have "completes ref_kube ref_cluster_view sample_session sample_lifecycle p ''aGk=''
      \<lparr>cluster = boot ready_pod_status (sidecar_log ''aGk='') (cluster w1), requests = []\<rparr>"
    by simp
  then show ?thesis using w1(1)
    by (auto simp: completes_def ref_cluster_view_def object_info_def)
qed

end
