(* ===== verification/Duplicates.thy ===== *)
theory Duplicates
  imports Outcomes
begin

text \<open>
  Two pods of one session.  The pods a reconciliation lists come from a cache that may lag behind
  the pods it created, the name of a session pod is chosen by the server, and a session that has
  made no progress gets a pod whenever none is listed: nothing keeps a second pod from being
  created.  From then on no reconciliation of the session does anything.
\<close>

section \<open>A pod is requested whenever none is listed\<close>

lemma emits_CreatePod_request:
  assumes "owner_law K" and "reference_law K" and made: "MakePodSpec K s = (Ok pod, s')"
  shows "emits (CreatePod K s) (\<lambda>_. pod_request K s)"
proof -
  obtain lc where lc: "s' = share_maps K s lc" "podMeta pod = podObjectMeta s lc"
    using made by (auto elim: MakePodSpec_Ok)
  obtain m' where ref: "lib_SetControllerReference K s' (podMeta pod) = Inr m'"
    using assms(2) lc unfolding reference_law_def by (fastforce simp: podObjectMeta_def zero_meta_def)
  have "CreatePod K s = handleK (writeK (CreatePodReq (pod\<lparr>podMeta := m'\<rparr>)) (k_CreatePod K (pod\<lparr>podMeta := m'\<rparr>)))
      (\<lambda>e. errorK (WrapError e ''Failed to create pod'')) (\<lambda>_. returnK s')"
    by (simp add: fun_eq_iff CreatePod_def made ref kio_simps Let_def)
  then have "emits (CreatePod K s) (\<lambda>_ qs. qs = [CreatePodReq (pod\<lparr>podMeta := m'\<rparr>)])"
    by (simp only:) (rule emits_mono [OF emits_create], simp)
  moreover have "emits (CreatePod K s) (\<lambda>_ qs. qs = [] \<or> pod_request K s qs)"
    by (rule emits_mono [OF emits_CreatePod [OF assms(1)]]) simp
  ultimately show ?thesis unfolding emits_def by (metis append_same_eq not_Cons_self2 same_append_eq)
qed

definition starts_with_pod :: "'w kube \<Rightarrow> DatamoverSession \<Rightarrow> request list \<Rightarrow> bool" where
  "starts_with_pod K s qs \<longleftrightarrow> (\<exists>ps rest. qs = ps @ rest \<and> pod_request K s ps)"

lemma emits_create_without_pod:
  assumes "owner_law K" and "reference_law K" and "MakePodSpec K s = (Ok pod, s')" and "rsPod rs = None"
  shows "emits (tryCreateResources K s (Some rs)) (\<lambda>_. starts_with_pod K s)"
proof -
  have "emits (CreateResources K s (Some rs)) (\<lambda>_. starts_with_pod K s)"
    unfolding CreateResources_Some if_P [OF assms(4)]
    by (rule emits_bind [OF emits_CreatePod_request [OF assms(1-3)], where B = "\<lambda>_ _ _. True"])
      (auto simp: starts_with_pod_def intro!: emits_bind emits_if emits_mono [OF emits_CreateService [OF assms(1)]]
        emits_mono [OF emits_CreateNetworkPolicy [OF assms(1)]] emits_mono [OF emits_return])
  then show ?thesis unfolding tryCreateResources_def
    by (rule emits_handle [where H = "\<lambda>_ _ qs. qs = []" and B = "\<lambda>_ _ qs. qs = []"])
      (auto intro: emits_silent run_intro)
qed

lemma Run_without_pod:
  assumes "owner_law K" and "reference_law K" and "MakePodSpec K s = (Ok pod, s')" and "ValidateSession s = Ok ()"
    and "dsProgress s = ProgressNone" and "siSessionData (stSessionInfo (dsStatus s)) = []"
    and "getResources K s w = (Ok rs, w1)" and "rsPod rs = None" and "Run K s w = (r, w')"
  shows "\<exists>p rest. requests w' = requests w @ CreatePodReq p # rest \<and> session_owns K s (podMeta p)"
proof -
  have quiet: "requests w1 = requests w" using silentD [OF silent_getResources(1) assms(7)] .
  have "\<not> resourcesExist rs" using assms(8) by (simp add: resourcesExist_def podExists_def)
  then obtain st where "classify s rs = Ok (st, Some rs)" and st: "st = Init \<or> st = CreateResourcesInProgress"
    using assms(5,6) by (cases "resourcesEmpty rs") (auto simp: classify_def)
  then have "Run K s w = act K s st (Some rs) w1" using Run_classified [OF assms(7)] by simp
  moreover have "emits (act K s st (Some rs)) (\<lambda>_. starts_with_pod K s)"
    using st assms(4) by (auto simp: act_def intro!: emits_then_silent emits_create_without_pod [OF assms(1-3,8)] run_intro)
  ultimately obtain qs where "requests w' = requests w1 @ qs" "starts_with_pod K s qs"
    using emitsD assms(9) by metis
  then show ?thesis using quiet by (auto simp: starts_with_pod_def pod_request_def)
qed

section \<open>Two listed pods end every reconciliation\<close>

definition multiple_pods :: "string \<Rightarrow> error" where
  "multiple_pods name = WrapError (NewError (''found multiple pods for '' @ name)) ''Error while getting resources''"

lemma two_of_filter:
  assumes "i < j" and "j < length xs" and "P (xs ! i)" and "P (xs ! j)"
  shows "\<exists>a b ys. filter P xs = a # b # ys"
proof -
  have "{i, j} \<subseteq> {k. k < length xs \<and> P (xs ! k)}" using assms by auto
  then have "card {i, j} \<le> length (filter P xs)" unfolding length_filter_conv_card by (intro card_mono) auto
  then have "2 \<le> length (filter P xs)" using assms(1) by simp
  then show ?thesis by (cases "filter P xs"; cases "tl (filter P xs)") auto
qed

lemma Run_multiple_pods:
  assumes "k_ListPods K (dsNamespace s) DatamoverSessionLabel (dsName s) (cluster w) = (Inr pods, c)"
    and "filter (\<lambda>pod. isOwnedBy K (podMeta pod) s) pods = a # b # others_left"
  shows "Run K s w = (Err (multiple_pods (dsName s)), w\<lparr>cluster := c\<rparr>)"
  using assms
  by (simp add: Run_def GetState_def getResources_def getPod_def kio_defs multiple_pods_def Let_def)

text \<open>
  The session, in any version, is stuck once two pods with the owner references of the given ones
  are listed: an error, the same one for ever, and no request.
\<close>

definition stuck_with :: "'w kube \<Rightarrow> DatamoverSession \<Rightarrow> Pod \<Rightarrow> Pod \<Rightarrow> bool" where
  "stuck_with K s p q \<longleftrightarrow>
     (\<forall>s2 u pods c i j. dsName s2 = dsName s \<longrightarrow> omUID (dsMeta s2) = omUID (dsMeta s) \<longrightarrow>
        k_ListPods K (dsNamespace s2) DatamoverSessionLabel (dsName s2) (cluster u) = (Inr pods, c) \<longrightarrow>
        i < j \<longrightarrow> j < length pods \<longrightarrow>
        omOwnerReferences (podMeta (pods ! i)) = omOwnerReferences (podMeta p) \<longrightarrow>
        omOwnerReferences (podMeta (pods ! j)) = omOwnerReferences (podMeta q) \<longrightarrow>
        Run K s2 u = (Err (multiple_pods (dsName s2)), u\<lparr>cluster := c\<rparr>))"

lemma session_owns_stuck:
  assumes "owner_law K" and "session_owns K s (podMeta p)" and "session_owns K s (podMeta q)"
  shows "stuck_with K s p q"
proof -
  have owned: "isOwnedBy K m s2"
    if "session_owns K s (podMeta x)" "omOwnerReferences m = omOwnerReferences (podMeta x)"
      "dsName s2 = dsName s" "omUID (dsMeta s2) = omUID (dsMeta s)" for m x s2
    using isOwnedBy_cong [OF assms(1) that(2-4)] that(1) by (simp add: session_owns_def)
  have "Run K s2 u = (Err (multiple_pods (dsName s2)), u\<lparr>cluster := c\<rparr>)"
    if "dsName s2 = dsName s" "omUID (dsMeta s2) = omUID (dsMeta s)"
      "k_ListPods K (dsNamespace s2) DatamoverSessionLabel (dsName s2) (cluster u) = (Inr pods, c)" "i < j" "j < length pods"
      "omOwnerReferences (podMeta (pods ! i)) = omOwnerReferences (podMeta p)"
      "omOwnerReferences (podMeta (pods ! j)) = omOwnerReferences (podMeta q)" for s2 u pods c i j
    using two_of_filter [OF that(4,5) owned [OF assms(2) that(6,1,2)] owned [OF assms(3) that(7,1,2)]]
      Run_multiple_pods [OF that(3)] by blast
  then show ?thesis unfolding stuck_with_def by blast
qed

text \<open>
  C14: A session can get two pods, and then it is stuck.  Let two reconciliations of a valid session
  without progress both list no pod of it, the second because its cache lags: both request a
  pod, controlled by the session.  Once two pods with the owner references of these are listed,
  every reconciliation of the session, whatever its status has become, ends with an error; it
  requests nothing, so that no status ever reports the failure.
\<close>

theorem duplicate_pods_stuck:
  assumes "owner_law K" and "reference_law K" and "ValidateSession s = Ok ()"
    and "dssLifecycleConfig (dsSpec s) = Some lc"
    and "OverridePodSpec K (basePodSpec K s lc) (poPodOverride (lcPodOptions lc)) = Ok spec"
    and "dsProgress s = ProgressNone" and "siSessionData (stSessionInfo (dsStatus s)) = []"
    and "getResources K s w = (Ok rs, w1)" and "rsPod rs = None" and "Run K s w = (r, w')"
    and "getResources K s v = (Ok rs', v1)" and "rsPod rs' = None" and "Run K s v = (r', v')"
  shows "\<exists>p q pmore qmore. requests w' = requests w @ CreatePodReq p # pmore \<and> session_owns K s (podMeta p) \<and>
    requests v' = requests v @ CreatePodReq q # qmore \<and> session_owns K s (podMeta q) \<and> stuck_with K s p q"
proof -
  obtain pod where pod: "MakePodSpec K s = (Ok pod, share_maps K s lc)"
    using MakePodSpec_valid [OF assms(3-5)] by blast
  note requested = Run_without_pod [OF assms(1,2) pod assms(3,6,7)]
  obtain p pmore where p: "requests w' = requests w @ CreatePodReq p # pmore" "session_owns K s (podMeta p)"
    using requested [OF assms(8-10)] by blast
  obtain q qmore where q: "requests v' = requests v @ CreatePodReq q # qmore" "session_owns K s (podMeta q)"
    using requested [OF assms(11-13)] by blast
  show ?thesis using p q session_owns_stuck [OF assms(1) p(2) q(2)] by blast
qed

theorem duplicate_pods_stuck_witness:
  "\<exists>p q qs. (\<exists>r w'. Run open_kube sample_session sample_world = (r, w') \<and> requests w' = CreatePodReq p # qs) \<and>
     Run open_kube sample_session \<lparr>cluster = sample_server\<lparr>srvPods := [p, q]\<rparr>, requests = []\<rparr>
       = (Err (multiple_pods ''s1''), \<lparr>cluster = sample_server\<lparr>srvPods := [p, q]\<rparr>, requests = []\<rparr>)"
proof -
  obtain r w' where run: "Run open_kube sample_session sample_world = (r, w')" by force
  have sample: "dssLifecycleConfig (dsSpec sample_session) = Some sample_lifecycle"
      "OverridePodSpec open_kube (basePodSpec open_kube sample_session sample_lifecycle)
         (poPodOverride (lcPodOptions sample_lifecycle)) = Ok (basePodSpec open_kube sample_session sample_lifecycle)"
      "dsProgress sample_session = ProgressNone" "siSessionData (stSessionInfo (dsStatus sample_session)) = []"
    using OverridePodSpec_nil [OF open_laws(4)] by simp_all
  obtain p q pmore where pq: "requests w' = requests sample_world @ CreatePodReq p # pmore"
      "session_owns open_kube sample_session (podMeta p)" "session_owns open_kube sample_session (podMeta q)"
    and stuck: "stuck_with open_kube sample_session p q"
    using duplicate_pods_stuck [OF open_laws(1,2) sample_valid sample open_resources resources.select_convs(1) run
      open_resources resources.select_convs(1) run]
    by (elim exE conjE) (rule that)
  let ?u = "\<lparr>cluster = sample_server\<lparr>srvPods := [p, q]\<rparr>, requests = []\<rparr>"
  have "k_ListPods open_kube (dsNamespace sample_session) DatamoverSessionLabel (dsName sample_session) (cluster ?u)
      = (Inr [p, q], cluster ?u)"
    using pq by (auto simp: open_kube_def srv_defs session_owns_def map_get_def split: option.splits)
  with stuck [unfolded stuck_with_def, rule_format, of sample_session ?u "[p, q]" "cluster ?u" 0 1]
  have "Run open_kube sample_session ?u = (Err (multiple_pods ''s1''), ?u)" by simp
  then show ?thesis using run pq(1) by (auto simp: sample_world_def)
qed

end
