(* ===== verification/Operations.thy ===== *)
theory Operations
  imports Volumes Reference
begin

text \<open>
  \<open>pkg/client/operation.go\<close>: the five operations a client pod can run.  An operation is known
  to the rest of the client by the results of its four methods; the record \<open>Operation\<close> is that
  interface, and each implementation has a function into it.
\<close>

section \<open>The interface\<close>

record Operation =
  opMakeVolumes :: "Volume list \<times> VolumeMount list \<times> opaque list"
  opMakeArgs :: "string list"
  opMakeContainers :: "Container list"
  opMakeInitContainers :: "Container list"

definition StreamFileDir :: string where
  "StreamFileDir = ''/tmp/stream_file/''"

definition StreamFileName :: string where
  "StreamFileName = ''data''"

definition streamDefaultInitImage :: string where
  "streamDefaultInitImage = ''busybox:latest''"

definition OpFsBackup :: string where "OpFsBackup = ''fs_backup''"
definition OpFsRestore :: string where "OpFsRestore = ''fs_restore''"
definition OpFsSidecar :: string where "OpFsSidecar = ''fs_sidecar''"
definition OpStreamBackup :: string where "OpStreamBackup = ''stream_backup''"
definition OpStreamRestore :: string where "OpStreamRestore = ''stream_restore''"

lemmas op_names = OpFsBackup_def OpFsRestore_def OpFsSidecar_def OpStreamBackup_def OpStreamRestore_def

section \<open>Shared pieces\<close>

definition streamVolumeMount :: VolumeMount where
  "streamVolumeMount = \<lparr>vmName = ''stream-file'', vmMountPath = StreamFileDir, vmRest = zero_opaque\<rparr>"

definition makeStreamFileVolume :: "Volume \<times> VolumeMount" where
  "makeStreamFileVolume =
     (\<lparr>volName = ''stream-file'', volSource = EmptyDirSource StorageMediumMemory\<rparr>,
      \<lparr>vmName = ''stream-file'', vmMountPath = StreamFileDir, vmRest = zero_opaque\<rparr>)"

definition makePvcVolumes :: "'z lib_scheme \<Rightarrow> string \<Rightarrow> bool \<Rightarrow> smap \<Rightarrow> Volume list \<times> VolumeMount list \<times> opaque list" where
  "makePvcVolumes L mountPrefix readOnly pvcMap =
     (let entries = map_range (lib_range L) pvcMap in
      (map (\<lambda>(name, pvc). \<lparr>volName = name, volSource = PersistentVolumeClaimSource pvc readOnly\<rparr>) entries,
       map (\<lambda>(name, pvc). \<lparr>vmName = name, vmMountPath = mountPrefix @ name, vmRest = zero_opaque\<rparr>) entries,
       []))"

definition makeDataPvcVolumes :: "'z lib_scheme \<Rightarrow> string \<Rightarrow> bool \<Rightarrow> Volume list \<times> VolumeMount list \<times> opaque list" where
  "makeDataPvcVolumes L pvc readOnly = makePvcVolumes L ''/mnt/data/'' readOnly [(''data'', pvc)]"

definition streamFileName :: string where
  "streamFileName = path_Join [StreamFileDir, StreamFileName]"

definition appendStreamFileMount :: "Container \<Rightarrow> Container" where
  "appendStreamFileMount c = c\<lparr>ctVolumeMounts := ctVolumeMounts c @ [streamVolumeMount]\<rparr>"

definition streamInitImage :: "string \<Rightarrow> string" where
  "streamInitImage img = (if img = [] then streamDefaultInitImage else img)"

definition streamInitContainer :: "string \<Rightarrow> Container" where
  "streamInitContainer initImage = zero_container\<lparr>ctName := ''initstreamfile'',
     ctCommand := [''mkfifo'', streamFileName], ctImage := streamInitImage initImage,
     ctVolumeMounts := [streamVolumeMount]\<rparr>"

section \<open>The five operations\<close>

record FileSystemBackupOperation =
  fbPath :: string
  fbTag :: string
  fbPVC :: string
  fbReadOnlyMount :: bool

record FileSystemRestoreOperation =
  frPath :: string
  frBackupID :: string
  frPVC :: string

record FileSystemSidecarOperation =
  fscFileName :: string
  fscVolumeMount :: VolumeMount

record StreamBackupOperation =
  sbTag :: string
  sbStreamGenerator :: Container
  sbBackupObjectName :: string
  sbInitImage :: string

record StreamRestoreOperation =
  srBackupID :: string
  srStreamIngestor :: Container
  srBackupObjectName :: string
  srInitImage :: string

definition FileSystemBackup_MakeVolumes :: "'z lib_scheme \<Rightarrow> FileSystemBackupOperation \<Rightarrow> Volume list \<times> VolumeMount list \<times> opaque list" where
  "FileSystemBackup_MakeVolumes L b = makeDataPvcVolumes L (fbPVC b) (fbReadOnlyMount b)"

definition FileSystemBackup_MakeArgs :: "FileSystemBackupOperation \<Rightarrow> string list" where
  "FileSystemBackup_MakeArgs b = [OpFsBackup, fbPath b, fbTag b]"

definition FileSystemBackup_MakeContainers :: "FileSystemBackupOperation \<Rightarrow> Container list" where
  "FileSystemBackup_MakeContainers b = []"

definition FileSystemBackup_MakeInitContainers :: "FileSystemBackupOperation \<Rightarrow> Container list" where
  "FileSystemBackup_MakeInitContainers b = []"

definition FileSystemBackup :: "'z lib_scheme \<Rightarrow> FileSystemBackupOperation \<Rightarrow> Operation" where
  "FileSystemBackup L b = \<lparr>opMakeVolumes = FileSystemBackup_MakeVolumes L b, opMakeArgs = FileSystemBackup_MakeArgs b,
     opMakeContainers = FileSystemBackup_MakeContainers b, opMakeInitContainers = FileSystemBackup_MakeInitContainers b\<rparr>"

definition FileSystemRestore_MakeVolumes :: "'z lib_scheme \<Rightarrow> FileSystemRestoreOperation \<Rightarrow> Volume list \<times> VolumeMount list \<times> opaque list" where
  "FileSystemRestore_MakeVolumes L r = makeDataPvcVolumes L (frPVC r) False"

definition FileSystemRestore_MakeArgs :: "FileSystemRestoreOperation \<Rightarrow> string list" where
  "FileSystemRestore_MakeArgs r = [OpFsRestore, frPath r, frBackupID r]"

definition FileSystemRestore_MakeContainers :: "FileSystemRestoreOperation \<Rightarrow> Container list" where
  "FileSystemRestore_MakeContainers r = []"

definition FileSystemRestore_MakeInitContainers :: "FileSystemRestoreOperation \<Rightarrow> Container list" where
  "FileSystemRestore_MakeInitContainers r = []"

definition FileSystemRestore :: "'z lib_scheme \<Rightarrow> FileSystemRestoreOperation \<Rightarrow> Operation" where
  "FileSystemRestore L r = \<lparr>opMakeVolumes = FileSystemRestore_MakeVolumes L r, opMakeArgs = FileSystemRestore_MakeArgs r,
     opMakeContainers = FileSystemRestore_MakeContainers r, opMakeInitContainers = FileSystemRestore_MakeInitContainers r\<rparr>"

definition FileSystemSidecar_MakeVolumes :: "FileSystemSidecarOperation \<Rightarrow> Volume list \<times> VolumeMount list \<times> opaque list" where
  "FileSystemSidecar_MakeVolumes m = ([], [fscVolumeMount m], [])"

definition FileSystemSidecar_MakeArgs :: "FileSystemSidecarOperation \<Rightarrow> string list" where
  "FileSystemSidecar_MakeArgs m = [OpFsSidecar, fscFileName m]"

definition FileSystemSidecar_MakeContainers :: "FileSystemSidecarOperation \<Rightarrow> Container list" where
  "FileSystemSidecar_MakeContainers m = []"

definition FileSystemSidecar_MakeInitContainers :: "FileSystemSidecarOperation \<Rightarrow> Container list" where
  "FileSystemSidecar_MakeInitContainers m = []"

definition FileSystemSidecar :: "FileSystemSidecarOperation \<Rightarrow> Operation" where
  "FileSystemSidecar m = \<lparr>opMakeVolumes = FileSystemSidecar_MakeVolumes m, opMakeArgs = FileSystemSidecar_MakeArgs m,
     opMakeContainers = FileSystemSidecar_MakeContainers m, opMakeInitContainers = FileSystemSidecar_MakeInitContainers m\<rparr>"

definition StreamBackup_MakeVolumes :: "StreamBackupOperation \<Rightarrow> Volume list \<times> VolumeMount list \<times> opaque list" where
  "StreamBackup_MakeVolumes b = (case makeStreamFileVolume of (v, m) \<Rightarrow> ([v], [m], []))"

definition StreamBackup_MakeArgs :: "StreamBackupOperation \<Rightarrow> string list" where
  "StreamBackup_MakeArgs b = [OpStreamBackup, streamFileName, sbBackupObjectName b, sbTag b]"

definition StreamBackup_MakeContainers :: "StreamBackupOperation \<Rightarrow> Container list" where
  "StreamBackup_MakeContainers b = [appendStreamFileMount (sbStreamGenerator b)]"

definition StreamBackup_MakeInitContainers :: "StreamBackupOperation \<Rightarrow> Container list" where
  "StreamBackup_MakeInitContainers b = [streamInitContainer (sbInitImage b)]"

definition StreamBackup :: "StreamBackupOperation \<Rightarrow> Operation" where
  "StreamBackup b = \<lparr>opMakeVolumes = StreamBackup_MakeVolumes b, opMakeArgs = StreamBackup_MakeArgs b,
     opMakeContainers = StreamBackup_MakeContainers b, opMakeInitContainers = StreamBackup_MakeInitContainers b\<rparr>"

definition StreamRestore_MakeVolumes :: "StreamRestoreOperation \<Rightarrow> Volume list \<times> VolumeMount list \<times> opaque list" where
  "StreamRestore_MakeVolumes r = (case makeStreamFileVolume of (v, m) \<Rightarrow> ([v], [m], []))"

definition StreamRestore_MakeArgs :: "StreamRestoreOperation \<Rightarrow> string list" where
  "StreamRestore_MakeArgs r = [OpStreamRestore, streamFileName, srBackupObjectName r, srBackupID r]"

definition StreamRestore_MakeContainers :: "StreamRestoreOperation \<Rightarrow> Container list" where
  "StreamRestore_MakeContainers r = [appendStreamFileMount (srStreamIngestor r)]"

definition StreamRestore_MakeInitContainers :: "StreamRestoreOperation \<Rightarrow> Container list" where
  "StreamRestore_MakeInitContainers r = [streamInitContainer (srInitImage r)]"

definition StreamRestore :: "StreamRestoreOperation \<Rightarrow> Operation" where
  "StreamRestore r = \<lparr>opMakeVolumes = StreamRestore_MakeVolumes r, opMakeArgs = StreamRestore_MakeArgs r,
     opMakeContainers = StreamRestore_MakeContainers r, opMakeInitContainers = StreamRestore_MakeInitContainers r\<rparr>"

lemmas FileSystemBackup_defs = FileSystemBackup_def FileSystemBackup_MakeVolumes_def FileSystemBackup_MakeArgs_def FileSystemBackup_MakeContainers_def
  FileSystemBackup_MakeInitContainers_def
lemmas FileSystemRestore_defs = FileSystemRestore_def FileSystemRestore_MakeVolumes_def FileSystemRestore_MakeArgs_def FileSystemRestore_MakeContainers_def
  FileSystemRestore_MakeInitContainers_def
lemmas FileSystemSidecar_defs = FileSystemSidecar_def FileSystemSidecar_MakeVolumes_def FileSystemSidecar_MakeArgs_def FileSystemSidecar_MakeContainers_def
  FileSystemSidecar_MakeInitContainers_def
lemmas StreamBackup_defs = StreamBackup_def StreamBackup_MakeVolumes_def StreamBackup_MakeArgs_def StreamBackup_MakeContainers_def
  StreamBackup_MakeInitContainers_def
lemmas StreamRestore_defs = StreamRestore_def StreamRestore_MakeVolumes_def StreamRestore_MakeArgs_def StreamRestore_MakeContainers_def
  StreamRestore_MakeInitContainers_def

section \<open>The contract\<close>

definition op_volumes :: "Operation \<Rightarrow> Volume list" where "op_volumes p = fst (opMakeVolumes p)"
definition op_mounts :: "Operation \<Rightarrow> VolumeMount list" where "op_mounts p = fst (snd (opMakeVolumes p))"
definition op_devices :: "Operation \<Rightarrow> opaque list" where "op_devices p = snd (snd (opMakeVolumes p))"

lemmas op_parts = op_volumes_def op_mounts_def op_devices_def

definition operation_names :: "string list" where
  "operation_names = [OpFsBackup, OpFsRestore, OpFsSidecar, OpStreamBackup, OpStreamRestore]"

lemma operation_names_distinct: "distinct operation_names"
  by (simp add: operation_names_def op_names)

text \<open>
  What every operation promises: its first argument is its name; its volumes have distinct
  names and are all mounted in the main container; its init containers mount no other
  volume.  One whose mounts are those of its volumes is self-contained.
\<close>

locale operation =
  fixes name :: string and op_of :: "'a \<Rightarrow> Operation"
  assumes known: "name \<in> set operation_names"
    and named: "opMakeArgs (op_of x) \<noteq> [] \<and> hd (opMakeArgs (op_of x)) = name"
    and distinct_volumes: "distinct (map volName (op_volumes (op_of x)))"
    and mounted: "volName ` set (op_volumes (op_of x)) \<subseteq> vmName ` set (op_mounts (op_of x))"
    and init_mounts: "c \<in> set (opMakeInitContainers (op_of x)) \<Longrightarrow>
      vmName ` set (ctVolumeMounts c) \<subseteq> volName ` set (op_volumes (op_of x))"

locale self_contained_operation = operation +
  assumes matched_op: "matched (op_volumes (op_of x), op_mounts (op_of x))"
begin

lemma mounts_are_volumes: "vmName ` set (op_mounts (op_of x)) = volName ` set (op_volumes (op_of x))"
  using matched_names [OF matched_op, of x] by simp

lemma containers_find_volumes:
  "m \<in> set (op_mounts (op_of x)) \<union> \<Union> (set ` ctVolumeMounts ` set (opMakeInitContainers (op_of x))) \<Longrightarrow>
   vmName m \<in> volName ` set (op_volumes (op_of x))"
  using mounts_are_volumes [of x] init_mounts by blast

end

section \<open>The operations keep the contract\<close>

lemma map_range_singleton:
  assumes "range_order ord"
  shows "map_range ord [(k, v)] = [(k, v)]"
proof -
  have "mset (ord [k]) = {#k#}" using assms by (simp add: range_order_def)
  then have "ord [k] = [k]" by simp
  then show ?thesis by (simp add: map_range_def map_filter_simps)
qed

lemma data_volumes:
  assumes "range_order (lib_range L)"
  shows "makeDataPvcVolumes L pvc ro =
    ([\<lparr>volName = ''data'', volSource = PersistentVolumeClaimSource pvc ro\<rparr>],
     [\<lparr>vmName = ''data'', vmMountPath = ''/mnt/data/data'', vmRest = zero_opaque\<rparr>], [])"
  by (simp add: makeDataPvcVolumes_def makePvcVolumes_def map_range_singleton [OF assms])

lemma streamFileName_value: "streamFileName = ''/tmp/stream_file/data''"
  by (simp add: streamFileName_def StreamFileDir_def StreamFileName_def go_defs)

lemma pvc_volumes_names:
  "map vmName (fst (snd (makePvcVolumes L mp ro m))) = map volName (fst (makePvcVolumes L mp ro m))"
  by (simp add: makePvcVolumes_def Let_def split_def comp_def)

interpretation stream_backup: self_contained_operation OpStreamBackup StreamBackup
  by unfold_locales
    (auto simp: StreamBackup_defs makeStreamFileVolume_def op_parts matched_def operation_names_def
      streamInitContainer_def streamVolumeMount_def)

interpretation stream_restore: self_contained_operation OpStreamRestore StreamRestore
  by unfold_locales
    (auto simp: StreamRestore_defs makeStreamFileVolume_def op_parts matched_def operation_names_def
      streamInitContainer_def streamVolumeMount_def)

interpretation fs_sidecar: operation OpFsSidecar FileSystemSidecar
  by unfold_locales (auto simp: FileSystemSidecar_defs op_parts operation_names_def)

text \<open>
  The two file system operations range over a Go map; for a library that visits each entry
  once, in some order, they keep the contract too.
\<close>

locale map_iteration =
  fixes L :: "'z lib_scheme"
  assumes each_once: "range_order (lib_range L)"

sublocale map_iteration \<subseteq> fs_backup: self_contained_operation OpFsBackup "FileSystemBackup L"
  by unfold_locales
    (auto simp: FileSystemBackup_defs data_volumes [OF each_once] op_parts matched_def operation_names_def)

sublocale map_iteration \<subseteq> fs_restore: self_contained_operation OpFsRestore "FileSystemRestore L"
  by unfold_locales
    (auto simp: FileSystemRestore_defs data_volumes [OF each_once] op_parts matched_def operation_names_def)

context map_iteration
begin

lemma repository_operations:
  assumes "op \<in> range StreamBackup \<union> range StreamRestore \<union> range (FileSystemBackup L) \<union> range (FileSystemRestore L)"
  shows "matched (op_volumes op, op_mounts op)"
    and "c \<in> set (opMakeInitContainers op) \<Longrightarrow> vmName ` set (ctVolumeMounts c) \<subseteq> volName ` set (op_volumes op)"
proof -
  from assms consider x where "op = StreamBackup x" | x where "op = StreamRestore x"
    | x where "op = FileSystemBackup L x" | x where "op = FileSystemRestore L x" by blast
  then show "matched (op_volumes op, op_mounts op)"
    by cases (simp_all add: stream_backup.matched_op stream_restore.matched_op fs_backup.matched_op fs_restore.matched_op)
next
  fix c assume c: "c \<in> set (opMakeInitContainers op)"
  from assms consider x where "op = StreamBackup x" | x where "op = StreamRestore x"
    | x where "op = FileSystemBackup L x" | x where "op = FileSystemRestore L x" by blast
  then show "vmName ` set (ctVolumeMounts c) \<subseteq> volName ` set (op_volumes op)"
    using c
    by cases (auto dest: stream_backup.init_mounts stream_restore.init_mounts fs_backup.init_mounts fs_restore.init_mounts)
qed

end

interpretation ref: map_iteration ref_kube
  by unfold_locales (rule ref_range_order)

end
