(* ===== verification/Clients.thy ===== *)
theory Clients
  imports Operations Pods Sessions
begin

text \<open>
  \<open>pkg/client/client.go\<close>: the pod a client runs against a session.  Credentials and operation
  are interfaces; the first is known here by the result of its one method, the second by the
  record of theory \<open>Operations\<close>, and a nil interface value is \<open>None\<close>.
\<close>

section \<open>Credentials\<close>

definition NamePrefix :: string where "NamePrefix = ''dm-client-''"
definition MainContainerName :: string where "MainContainerName = ''container''"

definition tokenProjectionPath :: string where "tokenProjectionPath = ''token''"
definition tokenProjectionAudience :: string where "tokenProjectionAudience = ''datamover''"
definition tokenMoutName :: string where "tokenMoutName = ''client-token''"
definition tokenMountPath :: string where "tokenMountPath = ''/etc/client-token''"
definition secretMountName :: string where "secretMountName = ''client-secret''"
definition secretMountPath :: string where "secretMountPath = ''/etc/client-secret''"
definition envSessionURL :: string where "envSessionURL = ''SESSION_URL''"
definition envSessionData :: string where "envSessionData = ''SESSION_DATA''"

lemmas client_names = tokenProjectionPath_def tokenProjectionAudience_def tokenMoutName_def tokenMountPath_def
  secretMountName_def secretMountPath_def envSessionURL_def envSessionData_def MainContainerName_def

type_synonym Credentials = "error + contribution"

record ClientCredentialsSecret =
  ccsSecretName :: string

record ClientCredentialsToken =
  cctExpirationSeconds :: "int option"

definition ClientCredentialsSecret_GetVolumes :: "ClientCredentialsSecret \<Rightarrow> Credentials" where
  "ClientCredentialsSecret_GetVolumes config =
     (if ccsSecretName config = [] then Inl (NewError ''Credential secret is empty'')
      else if ccsSecretName config = []
      then Inl (NewError ''SecretName should be set for CredentialsMode == secret'')
      else Inr
        ([\<lparr>volName = secretMountName,
           volSource = SecretSource \<lparr>svSecretName = ccsSecretName config, svRest = zero_opaque\<rparr>\<rparr>],
         [mount secretMountName secretMountPath]))"

definition ClientCredentialsToken_GetVolumes :: "ClientCredentialsToken \<Rightarrow> Credentials" where
  "ClientCredentialsToken_GetVolumes config = Inr
     ([\<lparr>volName = tokenMoutName, volSource = ProjectedSource
          [\<lparr>satpPath = tokenProjectionPath, satpExpirationSeconds = cctExpirationSeconds config,
            satpAudience = tokenProjectionAudience\<rparr>]\<rparr>,
       \<lparr>volName = secretMountName, volSource = EmptyDirSource StorageMediumMemory\<rparr>],
      [mount tokenMoutName tokenMountPath, mount secretMountName secretMountPath])"

section \<open>The pod\<close>

record CreateClientArgs =
  caOperation :: "Operation option"
  caNamespace :: string
  caImage :: string
  caSessionNamespace :: string
  caSessionName :: string
  caGenerateName :: string
  caConfigMap :: "string option"
  caSecrets :: "smap option"
  caCredentialsConfig :: "Credentials option"
  caEnv :: "EnvVar list"
  caPodOptions :: PodOptions

definition makeSecretVolumes :: "'z lib_scheme \<Rightarrow> smap option \<Rightarrow> contribution" where
  "makeSecretVolumes L secrets =
     (let entries = map_range (lib_range L) (case secrets of None \<Rightarrow> [] | Some m \<Rightarrow> m) in
      (map (\<lambda>(name, secret). \<lparr>volName = name,
         volSource = SecretSource \<lparr>svSecretName = secret, svRest = zero_opaque\<rparr>\<rparr>) entries,
       map (\<lambda>(name, secret). mount name (''/etc/secrets/'' @ name)) entries))"

definition makeConfigVolumes :: "string option \<Rightarrow> contribution" where
  "makeConfigVolumes configMap = (case configMap of
      None \<Rightarrow> ([], [])
    | Some n \<Rightarrow> ([\<lparr>volName = ''config'', volSource = ConfigMapSource \<lparr>cmvName = n, cmvRest = zero_opaque\<rparr>\<rparr>],
        [mount ''config'' ''/etc/config'']))"

definition env :: "string \<Rightarrow> string \<Rightarrow> EnvVar" where
  "env name val = \<lparr>evName = name, evValue = val, evRest = zero_opaque\<rparr>"

definition sessionConfigEnvs :: "SessionConfig \<Rightarrow> EnvVar list" where
  "sessionConfigEnvs cfg =
     (let (url, protocols) = (case scService cfg of
            None \<Rightarrow> ([], [])
          | Some service \<Rightarrow>
              (omName (svcMeta service) @ ''.'' @ omNamespace (svcMeta service) @ ''.svc.cluster.local'',
               Join (map (\<lambda>port. spName port @ '':'' @ Itoa (sint (spPort port))) (svcPorts service)) '';''))
      in [env ImplementationEnvVarName (scImplementation cfg), env envSessionURL url,
          env ProtocolsEnvVarName protocols, env envSessionData (scSessionData cfg)])"

text \<open>The set of names seen so far is a Go map to booleans; its keys are enough.\<close>

fun validateList :: "string list \<Rightarrow> Volume list \<Rightarrow> error + string list" where
  "validateList uniqNames [] = Inr uniqNames"
| "validateList uniqNames (vol # vols) =
     (if volName vol \<in> set uniqNames then Inl (NewError (''Duplicate volume name: '' @ volName vol))
      else validateList (volName vol # uniqNames) vols)"

fun validateLists :: "string list \<Rightarrow> Volume list list \<Rightarrow> error + unit" where
  "validateLists uniqNames [] = Inr ()"
| "validateLists uniqNames (l # ls) = (case validateList uniqNames l of
      Inl e \<Rightarrow> Inl e | Inr names \<Rightarrow> validateLists names ls)"

definition validateVolumeNames :: "Volume list list \<Rightarrow> error + unit" where
  "validateVolumeNames volumeLists = validateLists [] volumeLists"

definition client_contributions ::
  "'z lib_scheme \<Rightarrow> CreateClientArgs \<Rightarrow> contribution \<Rightarrow> Operation \<Rightarrow> contribution list" where
  "client_contributions L args creds op =
     (let extraVolumes = poExtraVolumes (caPodOptions args) in
      [makeSecretVolumes L (caSecrets args), creds, (op_volumes op, op_mounts op),
       makeConfigVolumes (caConfigMap args),
       (extraVolumes, map (\<lambda>vol. mount (volName vol) (''/mnt/volumes/'' @ volName vol)) extraVolumes)])"

definition clientContainer ::
  "'z lib_scheme \<Rightarrow> CreateClientArgs \<Rightarrow> SessionConfig \<Rightarrow> contribution \<Rightarrow> Operation \<Rightarrow> Container" where
  "clientContainer L args cfg creds op = zero_container\<lparr>
     ctName := MainContainerName, ctImage := caImage args, ctArgs := opMakeArgs op,
     ctEnv := sessionConfigEnvs cfg @ caEnv args,
     ctVolumeMounts := concat (map snd (client_contributions L args creds op)),
     ctVolumeDevices := op_devices op,
     ctSecurityContext := poContainerSecurityContext (caPodOptions args),
     ctResources := poResources (caPodOptions args)\<rparr>"

definition clientPodSpec ::
  "'z lib_scheme \<Rightarrow> CreateClientArgs \<Rightarrow> SessionConfig \<Rightarrow> contribution \<Rightarrow> Operation \<Rightarrow> PodSpec" where
  "clientPodSpec L args cfg creds op = \<lparr>
     psVolumes = concat (map fst (client_contributions L args creds op)),
     psInitContainers = opMakeInitContainers op,
     psContainers = [clientContainer L args cfg creds op] @ opMakeContainers op @ poExtraContainers (caPodOptions args),
     psRestartPolicy = RestartPolicyNever,
     psServiceAccountName = poServiceAccount (caPodOptions args),
     psAutomountServiceAccountToken = None,
     psPriorityClassName = poPriorityClassName (caPodOptions args),
     psSecurityContext = poPodSecurityContext (caPodOptions args),
     psShareProcessNamespace = None,
     psRest = zero_opaque\<rparr>"

definition deref_interface :: "string \<Rightarrow> 'a option \<Rightarrow> 'a outcome" where
  "deref_interface what v = (case v of None \<Rightarrow> Panic (''nil interface: '' @ what) | Some x \<Rightarrow> Ok x)"

definition MakeClientPod :: "'z lib_scheme \<Rightarrow> CreateClientArgs \<Rightarrow> SessionConfig \<Rightarrow> Pod outcome" where
  "MakeClientPod L args cfg =
     bindO (deref_interface ''CredentialsConfig'' (caCredentialsConfig args)) (\<lambda>config.
     case config of
       Inl e \<Rightarrow> Err (WrapError e ''Failed to generate credentials volumes config'')
     | Inr creds \<Rightarrow>
         bindO (deref_interface ''Operation'' (caOperation args)) (\<lambda>op.
         bindO (of_sum (validateVolumeNames (map fst (client_contributions L args creds op)))) (\<lambda>_.
         let genName = (if caGenerateName args = [] then NamePrefix else caGenerateName args) in
         bindO (OverridePodSpec L (clientPodSpec L args cfg creds op) (poPodOverride (caPodOptions args))) (\<lambda>spec.
         Ok \<lparr>podMeta = zero_meta\<lparr>omGenerateName := genName, omNamespace := caNamespace args,
                omLabels := poLabels (caPodOptions args), omAnnotations := poAnnotations (caPodOptions args)\<rparr>,
             podSpec = spec, podStatus = zero_pod_status\<rparr>))))"

definition CreateClientPod ::
  "'z lib_scheme \<Rightarrow> ('w, 'u) dynamic \<Rightarrow> 'w timer \<Rightarrow> (string \<Rightarrow> Pod \<Rightarrow> 'w \<Rightarrow> (error + Pod) \<times> 'w) \<Rightarrow>
   CreateClientArgs \<Rightarrow> 'w \<Rightarrow> (Pod outcome \<times> 'w) option" where
  "CreateClientPod L D T pods_Create args w =
     (case GetConfig D T (caSessionName args) (caSessionNamespace args) w of
        None \<Rightarrow> None
      | Some (Panic m, w1) \<Rightarrow> Some (Panic m, w1)
      | Some (Err e, w1) \<Rightarrow> Some (Err (WrapError e ''Cannot extract datamover session config''), w1)
      | Some (Ok cfg, w1) \<Rightarrow>
          (case MakeClientPod L args cfg of
             Panic m \<Rightarrow> Some (Panic m, w1)
           | Err e \<Rightarrow> Some (Err (WrapError e ''Failed to generate client pod spec''), w1)
           | Ok pod \<Rightarrow>
               (case pods_Create (caNamespace args) pod w1 of
                  (Inl e, w2) \<Rightarrow> Some (Err (WrapError e ''Failed to run client pod''), w2)
                | (Inr pod', w2) \<Rightarrow> Some (Ok pod', w2))))"

section \<open>The volume contract\<close>

text \<open>
  What a credentials configuration promises when it succeeds: mounts for its own volumes only,
  and a client secret directory at the documented place.
\<close>

locale credentials =
  fixes get_volumes :: "'a \<Rightarrow> Credentials"
  assumes matched_credentials: "get_volumes x = Inr vm \<Longrightarrow> matched vm"
    and secret_mounted: "get_volumes x = Inr vm \<Longrightarrow> mount secretMountName secretMountPath \<in> set (snd vm)"
begin

lemma secret_volume_exists:
  "get_volumes x = Inr vm \<Longrightarrow> \<exists>v \<in> set (fst vm). volName v = secretMountName"
proof -
  assume get: "get_volumes x = Inr vm"
  have "secretMountName \<in> vmName ` set (snd vm)"
    using secret_mounted [OF get] by (force simp: mount_def image_iff)
  then show ?thesis using matched_names [OF matched_credentials [OF get]] by (metis image_iff)
qed

end

interpretation secret_credentials: credentials ClientCredentialsSecret_GetVolumes
  by unfold_locales (auto simp: ClientCredentialsSecret_GetVolumes_def matched_def mount_def split: if_splits)

interpretation token_credentials: credentials ClientCredentialsToken_GetVolumes
  by unfold_locales (auto simp: ClientCredentialsToken_GetVolumes_def matched_def mount_def)

interpretation client_secrets: volume_builder "makeSecretVolumes L" for L
  by unfold_locales (auto simp: matched_def makeSecretVolumes_def mount_def Let_def)

interpretation client_config: volume_builder makeConfigVolumes
  by unfold_locales (auto simp: matched_def makeConfigVolumes_def mount_def split: option.splits)

lemma matched_client:
  assumes "matched creds" and "matched (op_volumes op, op_mounts op)"
  shows "matched (concat_contributions (client_contributions L args creds op))"
  by (rule matched_concat)
    (use assms client_secrets.matched_build client_config.matched_build in
      \<open>auto simp: client_contributions_def Let_def, simp add: matched_def mount_def comp_def\<close>)

section \<open>Volume names\<close>

lemma validateList_Inr_iff:
  "validateList seen vs = Inr names \<longleftrightarrow>
     distinct (map volName vs) \<and> set (map volName vs) \<inter> set seen = {} \<and> names = rev (map volName vs) @ seen"
  by (induction seen vs arbitrary: names rule: validateList.induct) auto

lemma validateLists_Inr_iff:
  "validateLists seen ls = Inr () \<longleftrightarrow>
     distinct (map volName (concat ls)) \<and> set (map volName (concat ls)) \<inter> set seen = {}"
proof (induction ls arbitrary: seen)
  case (Cons l ls)
  show ?case
  proof (cases "validateList seen l")
    case (Inl e)
    then have "\<not> (distinct (map volName l) \<and> set (map volName l) \<inter> set seen = {})"
      using validateList_Inr_iff [of seen l] by fastforce
    then show ?thesis using Inl by auto
  next
    case (Inr names)
    let ?a = "map volName l" and ?b = "map volName (concat ls)"
    have a: "distinct ?a" "set ?a \<inter> set seen = {}" and names: "names = rev ?a @ seen"
      using Inr validateList_Inr_iff by auto
    have "validateLists seen (l # ls) = Inr () \<longleftrightarrow> distinct ?b \<and> set ?b \<inter> (set ?a \<union> set seen) = {}"
      using Cons [of names] Inr by (simp only: validateLists.simps sum.case names set_append set_rev)
    also have "\<dots> \<longleftrightarrow> distinct (?a @ ?b) \<and> set (?a @ ?b) \<inter> set seen = {}"
      using a by (simp only: distinct_append set_append) blast
    finally show ?thesis by simp
  qed
qed simp

lemma validateVolumeNames_iff:
  "validateVolumeNames ls = Inr () \<longleftrightarrow> distinct (map volName (concat ls))"
  by (simp add: validateVolumeNames_def validateLists_Inr_iff)

lemma validateList_Inl:
  "validateList seen vs = Inl e \<Longrightarrow> \<exists>v \<in> set vs. e = NewError (''Duplicate volume name: '' @ volName v)"
  by (induction seen vs rule: validateList.induct) (auto split: if_splits)

lemma validateLists_Inl:
  "validateLists seen ls = Inl e \<Longrightarrow> \<exists>v \<in> set (concat ls). e = NewError (''Duplicate volume name: '' @ volName v)"
  by (induction seen ls rule: validateLists.induct) (auto split: sum.splits dest!: validateList_Inl)

text \<open>
  The check for duplicate volume names is exact: it accepts a list of volume lists if and
  only if all the names in it are distinct, within and across the lists, and otherwise names
  one of the volumes.
\<close>

theorem validateVolumeNames_correct:
  "(validateVolumeNames ls = Inr () \<longleftrightarrow> distinct (map volName (concat ls)))
   \<and> (\<forall>e. validateVolumeNames ls = Inl e \<longrightarrow>
        (\<exists>v \<in> set (concat ls). e = NewError (''Duplicate volume name: '' @ volName v)))"
  using validateVolumeNames_iff validateLists_Inl [of "[]" ls] by (auto simp: validateVolumeNames_def)

definition named_volume :: "string \<Rightarrow> Volume" where
  "named_volume n = \<lparr>volName = n, volSource = EmptyDirSource []\<rparr>"

theorem validateVolumeNames_correct_witness:
  "\<exists>e (v :: Volume). validateVolumeNames [[named_volume ''a''], [named_volume ''a'']] = Inl e
     \<and> e = NewError (''Duplicate volume name: '' @ volName v)"
proof -
  let ?ls = "[[named_volume ''a''], [named_volume ''a'']]"
  have dup: "\<not> distinct (map volName (concat ?ls))" by (simp add: named_volume_def)
  obtain e where e: "validateVolumeNames ?ls = Inl e"
    using dup validateVolumeNames_iff [of ?ls] by (cases "validateVolumeNames ?ls") auto
  have "\<exists>v \<in> set (concat ?ls). e = NewError (''Duplicate volume name: '' @ volName v)"
    by (rule conjunct2 [OF validateVolumeNames_correct, THEN spec, THEN mp, OF e])
  then obtain v :: Volume where "e = NewError (''Duplicate volume name: '' @ volName v)" by blast
  with e show ?thesis by (intro exI conjI)
qed

section \<open>What the client pod is\<close>

lemma MakeClientPod_Ok:
  assumes "MakeClientPod L args cfg = Ok pod"
  obtains creds op where "caCredentialsConfig args = Some (Inr creds)" "caOperation args = Some op"
    "distinct (map volName (psVolumes (clientPodSpec L args cfg creds op)))"
    "OverridePodSpec L (clientPodSpec L args cfg creds op) (poPodOverride (caPodOptions args)) = Ok (podSpec pod)"
    "omNamespace (podMeta pod) = caNamespace args"
    "omGenerateName (podMeta pod) = (if caGenerateName args = [] then NamePrefix else caGenerateName args)"
proof -
  obtain v where v: "caCredentialsConfig args = Some v"
    using assms by (cases "caCredentialsConfig args") (simp_all add: MakeClientPod_def deref_interface_def)
  then obtain creds where c: "caCredentialsConfig args = Some (Inr creds)"
    using assms by (cases v) (simp_all add: MakeClientPod_def deref_interface_def)
  then obtain op where o: "caOperation args = Some op"
    using assms by (cases "caOperation args") (simp_all add: MakeClientPod_def deref_interface_def)
  let ?names = "validateVolumeNames (map fst (client_contributions L args creds op))"
  let ?over = "OverridePodSpec L (clientPodSpec L args cfg creds op) (poPodOverride (caPodOptions args))"
  have names: "?names = Inr ()"
    using assms c o by (cases ?names) (simp_all add: MakeClientPod_def deref_interface_def)
  obtain spec' where sp: "?over = Ok spec'"
    using assms c o names by (cases ?over) (simp_all add: MakeClientPod_def deref_interface_def Let_def)
  then have pod: "pod = \<lparr>podMeta = zero_meta\<lparr>omGenerateName := (if caGenerateName args = [] then NamePrefix else caGenerateName args),
      omNamespace := caNamespace args, omLabels := poLabels (caPodOptions args),
      omAnnotations := poAnnotations (caPodOptions args)\<rparr>, podSpec = spec', podStatus = zero_pod_status\<rparr>"
    using assms c o names by (simp add: MakeClientPod_def deref_interface_def Let_def)
  have spec: "?over = Ok (podSpec pod)"
    and meta: "omNamespace (podMeta pod) = caNamespace args"
    "omGenerateName (podMeta pod) = (if caGenerateName args = [] then NamePrefix else caGenerateName args)"
    using sp by (simp_all add: pod)
  show thesis
    by (rule that [OF c o _ spec meta]) (use names in \<open>simp add: validateVolumeNames_iff clientPodSpec_def\<close>)
qed

lemma client_parts:
  "psVolumes (clientPodSpec L args cfg creds op) = concat (map fst (client_contributions L args creds op))"
  "ctVolumeMounts (clientContainer L args cfg creds op) = concat (map snd (client_contributions L args creds op))"
  by (simp_all add: clientPodSpec_def clientContainer_def)

lemma client_mounts_matched:
  assumes "matched creds" and "matched (op_volumes op, op_mounts op)"
  shows "map vmName (ctVolumeMounts (clientContainer L args cfg creds op))
    = map volName (psVolumes (clientPodSpec L args cfg creds op))"
  using matched_client [OF assms, of L args] by (simp add: matched_def concat_contributions_def client_parts)

lemma client_op_volumes:
  "set (op_volumes op) \<subseteq> set (psVolumes (clientPodSpec L args cfg creds op))"
  by (auto simp: client_parts client_contributions_def Let_def)

lemma repository_credentials:
  assumes "Inr creds \<in> range ClientCredentialsSecret_GetVolumes \<union> range ClientCredentialsToken_GetVolumes"
  shows "matched creds"
proof -
  from assms consider x where "ClientCredentialsSecret_GetVolumes x = Inr creds"
    | x where "ClientCredentialsToken_GetVolumes x = Inr creds" by auto
  then show ?thesis by cases (rule secret_credentials.matched_credentials token_credentials.matched_credentials, assumption)+
qed

text \<open>The side-car operation adds one mount, in the middle, to those of the pod's own volumes.\<close>

lemma sidecar_mounts:
  assumes "matched creds"
  shows "\<exists>u v. map vmName (ctVolumeMounts (clientContainer L args cfg creds (FileSystemSidecar m)))
      = u @ [vmName (fscVolumeMount m)] @ v
    \<and> map volName (psVolumes (clientPodSpec L args cfg creds (FileSystemSidecar m))) = u @ v"
  using assms client_secrets.matched_build [of L "caSecrets args"] client_config.matched_build [of "caConfigMap args"]
  by (intro exI [of _ "map volName (fst (makeSecretVolumes L (caSecrets args)) @ fst creds)"]
      exI [of _ "map volName (fst (makeConfigVolumes (caConfigMap args)) @ poExtraVolumes (caPodOptions args))"])
    (simp add: client_parts client_contributions_def Let_def op_parts FileSystemSidecar_defs matched_def mount_def comp_def)

text \<open>
  C31: A client pod is wired consistently, for the credentials and the operations of the package.
  A made pod has the result of the override as its specification: without an override, the very
  specification \<open>base\<close> the code builds (an override may change all of it).  In \<open>base\<close> volume
  names are distinct and the main container comes first.  For the two stream operations and for
  file system backup and restore, it mounts exactly the pod's volumes, one mount per volume in
  the same order, and every init container finds the volumes it mounts.  For the file system
  side-car, it has one mount more, the one the operation was given, which has no volume of its own
  and relies on one of the others; there are no init containers.
\<close>

theorem client_pod_volumes:
  assumes "range_order (lib_range L)" and "nil_override_law L" and "MakeClientPod L args cfg = Ok pod"
    and "caCredentialsConfig args = Some cr"
    and "cr \<in> range ClientCredentialsSecret_GetVolumes \<union> range ClientCredentialsToken_GetVolumes"
    and "caOperation args = Some op"
  shows "\<exists>base main rest. OverridePodSpec L base (poPodOverride (caPodOptions args)) = Ok (podSpec pod)
    \<and> (poPodOverride (caPodOptions args) = None \<longrightarrow> podSpec pod = base)
    \<and> distinct (map volName (psVolumes base))
    \<and> psContainers base = main # rest \<and> ctName main = MainContainerName \<and> ctImage main = caImage args
    \<and> (op \<in> range StreamBackup \<union> range StreamRestore \<union> range (FileSystemBackup L) \<union> range (FileSystemRestore L) \<longrightarrow>
        map vmName (ctVolumeMounts main) = map volName (psVolumes base) \<and>
        (\<forall>c \<in> set (psInitContainers base). vmName ` set (ctVolumeMounts c) \<subseteq> volName ` set (psVolumes base)))
    \<and> (\<forall>m. op = FileSystemSidecar m \<longrightarrow> psInitContainers base = [] \<and>
        (\<exists>u v. map vmName (ctVolumeMounts main) = u @ [vmName (fscVolumeMount m)] @ v
           \<and> map volName (psVolumes base) = u @ v))"
proof -
  obtain creds where cr: "cr = Inr creds"
    and made: "distinct (map volName (psVolumes (clientPodSpec L args cfg creds op)))"
    "OverridePodSpec L (clientPodSpec L args cfg creds op) (poPodOverride (caPodOptions args)) = Ok (podSpec pod)"
    using MakeClientPod_Ok [OF assms(3)] assms(4,6) by (metis option.inject)
  let ?base = "clientPodSpec L args cfg creds op" and ?main = "clientContainer L args cfg creds op"
  note ops = map_iteration.repository_operations [OF map_iteration.intro [OF assms(1)]]
  have creds: "matched creds" using repository_credentials assms(5) unfolding cr by blast
  have init: "psInitContainers ?base = opMakeInitContainers op" by (simp add: clientPodSpec_def)
  have found: "volName ` set (op_volumes op) \<subseteq> volName ` set (psVolumes ?base)"
    using client_op_volumes by (rule image_mono)
  have self: "map vmName (ctVolumeMounts ?main) = map volName (psVolumes ?base) \<and>
      (\<forall>c \<in> set (psInitContainers ?base). vmName ` set (ctVolumeMounts c) \<subseteq> volName ` set (psVolumes ?base))"
    if op: "op \<in> range StreamBackup \<union> range StreamRestore \<union> range (FileSystemBackup L) \<union> range (FileSystemRestore L)"
    unfolding init using client_mounts_matched [OF creds ops(1) [OF op]] ops(2) [OF op] found
    by (meson order_trans)
  have side: "psInitContainers ?base = [] \<and> (\<exists>u v. map vmName (ctVolumeMounts ?main) = u @ [vmName (fscVolumeMount m)] @ v
      \<and> map volName (psVolumes ?base) = u @ v)" if "op = FileSystemSidecar m" for m
    unfolding init using sidecar_mounts [OF creds] that by (simp add: FileSystemSidecar_defs)
  have "poPodOverride (caPodOptions args) = None \<longrightarrow> podSpec pod = ?base"
    using made(2) OverridePodSpec_nil [OF assms(2)] by auto
  then show ?thesis
    by (intro exI [of _ ?base] exI [of _ ?main] exI [of _ "tl (psContainers ?base)"] conjI made impI allI self side)
      (simp_all add: clientPodSpec_def clientContainer_def)
qed

definition sample_backup :: StreamBackupOperation where
  "sample_backup = \<lparr>sbTag = ''t'', sbStreamGenerator = zero_container\<lparr>ctName := ''gen''\<rparr>,
     sbBackupObjectName = ''obj'', sbInitImage = []\<rparr>"

definition sample_creds :: contribution where
  "sample_creds = ([\<lparr>volName = secretMountName,
     volSource = SecretSource \<lparr>svSecretName = ''s'', svRest = zero_opaque\<rparr>\<rparr>], [mount secretMountName secretMountPath])"

definition sample_args :: CreateClientArgs where
  "sample_args = \<lparr>caOperation = Some (StreamBackup sample_backup), caNamespace = ''apps'', caImage = ''img'',
     caSessionNamespace = ''ns'', caSessionName = ''s1'', caGenerateName = [], caConfigMap = Some ''cm'',
     caSecrets = None, caCredentialsConfig = Some (ClientCredentialsSecret_GetVolumes \<lparr>ccsSecretName = ''s''\<rparr>),
     caEnv = [], caPodOptions = sample_options\<rparr>"

definition sample_config :: SessionConfig where
  "sample_config = \<lparr>scImplementation = ''kopia'', scService = Some served_service, scSessionData = ''aGk=''\<rparr>"

lemma sample_args_simps [simp]:
  "caOperation sample_args = Some (StreamBackup sample_backup)"
  "caCredentialsConfig sample_args = Some (Inr sample_creds)"
  "poPodOverride (caPodOptions sample_args) = None"
  "caSessionName sample_args = ''s1''" "caSessionNamespace sample_args = ''ns''" "caNamespace sample_args = ''apps''"
  by (simp_all add: sample_args_def ClientCredentialsSecret_GetVolumes_def sample_creds_def)

lemma sample_contributions:
  "map fst (client_contributions ref_kube sample_args sample_creds (StreamBackup sample_backup)) =
     [[], fst sample_creds, [fst makeStreamFileVolume],
      [\<lparr>volName = ''config'', volSource = ConfigMapSource \<lparr>cmvName = ''cm'', cmvRest = zero_opaque\<rparr>\<rparr>], []]"
  by (simp add: client_contributions_def makeSecretVolumes_def makeConfigVolumes_def sample_args_def op_parts
      StreamBackup_defs makeStreamFileVolume_def map_range_def map_filter_simps sample_options_def Let_def)

lemma sample_client_pod: "\<exists>pod. MakeClientPod ref_kube sample_args cfg = Ok pod"
proof -
  have "validateVolumeNames (map fst (client_contributions ref_kube sample_args sample_creds (StreamBackup sample_backup))) = Inr ()"
    unfolding validateVolumeNames_iff sample_contributions
    by (simp add: sample_creds_def makeStreamFileVolume_def client_names)
  then show ?thesis
    by (simp add: MakeClientPod_def deref_interface_def OverridePodSpec_nil [OF ref_nil_override] Let_def)
qed

theorem client_pod_volumes_witness:
  "\<exists>pod main rest. MakeClientPod ref_kube sample_args sample_config = Ok pod \<and> psContainers (podSpec pod) = main # rest
     \<and> distinct (map volName (psVolumes (podSpec pod)))
     \<and> map vmName (ctVolumeMounts main) = map volName (psVolumes (podSpec pod))"
proof -
  obtain pod where pod: "MakeClientPod ref_kube sample_args sample_config = Ok pod" using sample_client_pod by blast
  have creds: "caCredentialsConfig sample_args = Some (ClientCredentialsSecret_GetVolumes \<lparr>ccsSecretName = ''s''\<rparr>)"
    by (simp add: sample_args_def)
  have op: "caOperation sample_args = Some (StreamBackup sample_backup)" by simp
  obtain base main rest where base: "podSpec pod = base" "distinct (map volName (psVolumes base))"
    "psContainers base = main # rest" "map vmName (ctVolumeMounts main) = map volName (psVolumes base)"
    using client_pod_volumes [OF ref_range_order ref_nil_override pod creds _ op] by auto
  then show ?thesis using pod by auto
qed

section \<open>Streams\<close>

text \<open>
  The parts of a stream operation meet in one named pipe: one volume, mounted at the same
  place in the main container, in the generator or ingestor and in the init container, which
  makes the pipe whose path is the main container's second argument.
\<close>

definition stream_wired :: "Operation \<Rightarrow> bool" where
  "stream_wired op \<longleftrightarrow> map volName (op_volumes op) = [vmName streamVolumeMount]
     \<and> op_mounts op = [streamVolumeMount]
     \<and> (\<forall>c \<in> set (opMakeContainers op) \<union> set (opMakeInitContainers op). streamVolumeMount \<in> set (ctVolumeMounts c))
     \<and> (\<exists>file. file = vmMountPath streamVolumeMount @ StreamFileName
          \<and> map ctCommand (opMakeInitContainers op) = [[''mkfifo'', file]]
          \<and> length (opMakeArgs op) = 4 \<and> opMakeArgs op ! 1 = file)"

text \<open>
  C32: Both stream operations are wired so, whatever the container the user supplies, and the
  init container has an image even when none is given.
\<close>

theorem stream_operations_wired:
  "stream_wired (StreamBackup b) \<and> stream_wired (StreamRestore r)
   \<and> map ctImage (opMakeInitContainers (StreamBackup b)) = [streamInitImage (sbInitImage b)]
   \<and> map ctImage (opMakeInitContainers (StreamRestore r)) = [streamInitImage (srInitImage r)]
   \<and> streamInitImage img \<noteq> []"
  by (simp add: stream_wired_def StreamBackup_defs StreamRestore_defs op_parts makeStreamFileVolume_def
      streamVolumeMount_def appendStreamFileMount_def streamInitContainer_def streamFileName_value StreamFileDir_def
      StreamFileName_def streamInitImage_def streamDefaultInitImage_def)

section \<open>The environment of the client\<close>

definition client_protocols :: "SessionConfig \<Rightarrow> string" where
  "client_protocols cfg = evValue (sessionConfigEnvs cfg ! 2)"

text \<open>
  C33: The client is told how to reach the session: its environment starts with the four
  session variables, with distinct names; the protocol list can be read back and gives every
  port of the session's service, by name, with its service port; the URL is the cluster-local
  name of the service, or empty when there is none.
\<close>

theorem client_session_env:
  assumes "\<forall>p \<in> set (case scService cfg of None \<Rightarrow> [] | Some svc \<Rightarrow> svcPorts svc). plain_name (spName p)"
  shows "take 4 (ctEnv (clientContainer L args cfg creds op)) = sessionConfigEnvs cfg
    \<and> map evName (sessionConfigEnvs cfg)
        = [ImplementationEnvVarName, envSessionURL, ProtocolsEnvVarName, envSessionData]
    \<and> distinct (map evName (sessionConfigEnvs cfg))
    \<and> read_protocols (client_protocols cfg) = (case scService cfg of None \<Rightarrow> []
        | Some svc \<Rightarrow> map (\<lambda>p. (spName p, Itoa (sint (spPort p)))) (svcPorts svc))
    \<and> evValue (sessionConfigEnvs cfg ! 1) = (case scService cfg of None \<Rightarrow> []
        | Some svc \<Rightarrow> omName (svcMeta svc) @ ''.'' @ omNamespace (svcMeta svc) @ ''.svc.cluster.local'')"
proof -
  have names: "map evName (sessionConfigEnvs cfg)
      = [ImplementationEnvVarName, envSessionURL, ProtocolsEnvVarName, envSessionData]"
    by (cases "scService cfg") (simp_all add: sessionConfigEnvs_def env_def)
  have "read_protocols (client_protocols cfg) = (case scService cfg of None \<Rightarrow> []
        | Some svc \<Rightarrow> map (\<lambda>p. (spName p, Itoa (sint (spPort p)))) (svcPorts svc))"
  proof (cases "scService cfg")
    case None
    then show ?thesis by (simp add: client_protocols_def sessionConfigEnvs_def env_def read_protocols_def)
  next
    case (Some svc)
    let ?fs = "map (\<lambda>p. (spName p, sint (spPort p))) (svcPorts svc)"
    have "client_protocols cfg = Join (map (\<lambda>(n, i). n @ '':'' @ Itoa i) ?fs) '';''"
      using Some by (simp add: client_protocols_def sessionConfigEnvs_def env_def comp_def)
    moreover have "read_protocols (Join (map (\<lambda>(n, i). n @ '':'' @ Itoa i) ?fs) '';'') = map (\<lambda>(n, i). (n, Itoa i)) ?fs"
    proof (cases "svcPorts svc = []")
      case False
      then show ?thesis using assms Some by (intro read_protocols_fields) auto
    qed (simp add: read_protocols_def)
    ultimately show ?thesis using Some by (simp only: option.case map_map comp_def prod.case)
  qed
  moreover have "length (sessionConfigEnvs cfg) = 4"
    by (cases "scService cfg") (simp_all add: sessionConfigEnvs_def)
  moreover have "distinct (map evName (sessionConfigEnvs cfg))"
    unfolding names by (simp add: client_names ImplementationEnvVarName_def ProtocolsEnvVarName_def)
  moreover have "evValue (sessionConfigEnvs cfg ! 1) = (case scService cfg of None \<Rightarrow> []
        | Some svc \<Rightarrow> omName (svcMeta svc) @ ''.'' @ omNamespace (svcMeta svc) @ ''.svc.cluster.local'')"
    by (cases "scService cfg") (simp_all add: sessionConfigEnvs_def env_def)
  ultimately show ?thesis using names by (simp add: clientContainer_def)
qed

theorem client_session_env_witness:
  "read_protocols (client_protocols sample_config) = [(''kopia'', Itoa (sint (spPort sample_port)))]"
  using client_session_env [of sample_config ref_kube sample_args sample_creds "StreamBackup sample_backup"]
  by (simp add: sample_config_def served_service_def plain_name_def sample_port_def)

section \<open>Creating the client pod\<close>

lemma MakeClientPod_no_panic:
  assumes "caCredentialsConfig args \<noteq> None" and "caOperation args \<noteq> None"
  shows "MakeClientPod L args cfg \<noteq> Panic m"
  using assms
  by (auto simp: MakeClientPod_def deref_interface_def bindO_Panic_iff Let_def split: sum.splits)

text \<open>
  C30: A client pod is only started against a ready session.  \<open>CreateClientPod\<close> always ends and
  does not crash when credentials and operation are given; when it returns a pod, that pod was
  created in the client's namespace from the specification made for the configuration of a
  session that was read ready.
\<close>

theorem CreateClientPod_correct:
  assumes "timer_law T" and "counted T (get_by_name D (caSessionName args) (caSessionNamespace args)) calls"
    and "caCredentialsConfig args \<noteq> None" and "caOperation args \<noteq> None"
  shows "\<exists>out w'. CreateClientPod L D T pods_Create args w = Some (out, w') \<and> (\<forall>m. out \<noteq> Panic m)
    \<and> (\<forall>pod. out = Ok pod \<longrightarrow> (\<exists>s v v' cfg w1 made.
         Get D (caSessionName args) (caSessionNamespace args) v = (Inr s, v') \<and> config_of D s cfg v' w1
         \<and> MakeClientPod L args cfg = Ok made \<and> pods_Create (caNamespace args) made w1 = (Inr pod, w')))"
proof -
  obtain out w1 where cfg: "GetConfig D T (caSessionName args) (caSessionNamespace args) w = Some (out, w1)"
      "\<And>m. out \<noteq> Panic m"
      "\<And>c. out = Ok c \<Longrightarrow> \<exists>s v v'. Get D (caSessionName args) (caSessionNamespace args) v = (Inr s, v') \<and> config_of D s c v' w1"
    using GetConfig_total [OF assms(1,2), of w] by blast
  show ?thesis
  proof (cases out)
    case (Ok c)
    show ?thesis
    proof (cases "MakeClientPod L args c")
      case made: (Ok pod)
      obtain y w2 where create: "pods_Create (caNamespace args) pod w1 = (y, w2)" by force
      show ?thesis
        using cfg(1) cfg(3) [OF Ok] Ok made create
        by (cases y) (simp_all add: CreateClientPod_def, blast)
    next
      case (Err e)
      then show ?thesis using cfg(1) Ok by (simp add: CreateClientPod_def)
    next
      case (Panic m)
      then show ?thesis using MakeClientPod_no_panic [OF assms(3,4)] by blast
    qed
  next
    case (Err e)
    then show ?thesis using cfg(1) by (simp add: CreateClientPod_def)
  next
    case (Panic m)
    then show ?thesis using cfg(2) by blast
  qed
qed

theorem CreateClientPod_correct_witness:
  "\<exists>pod w'. CreateClientPod ref_kube tick_dynamic tick_timer (\<lambda>ns p w. (Inr p, w)) sample_args
      \<lparr>tkNow = 0, tkReads = 0\<rparr> = Some (Ok pod, w')
    \<and> (\<exists>s v v' cfg w1. Get tick_dynamic ''s1'' ''ns'' v = (Inr s, v') \<and> config_of tick_dynamic s cfg v' w1)"
proof -
  let ?w = "\<lparr>tkNow = 0, tkReads = 0\<rparr>"
  obtain w1 where "GetConfig tick_dynamic tick_timer ''s1'' ''ns'' ?w = Some (Ok sample_config, w1)"
    using tick_config [of ?w] by (auto simp: sample_config_def)
  moreover obtain pod where "MakeClientPod ref_kube sample_args sample_config = Ok pod" using sample_client_pod by blast
  ultimately have run: "CreateClientPod ref_kube tick_dynamic tick_timer (\<lambda>ns p w. (Inr p, w)) sample_args ?w
      = Some (Ok pod, w1)"
    by (simp add: CreateClientPod_def)
  have counted: "counted tick_timer (get_by_name tick_dynamic (caSessionName sample_args) (caSessionNamespace sample_args)) tkReads"
    by (rule tick_counted)
  obtain out w' where out: "CreateClientPod ref_kube tick_dynamic tick_timer (\<lambda>ns p w. (Inr p, w)) sample_args ?w
        = Some (out, w')"
      "\<forall>pod. out = Ok pod \<longrightarrow> (\<exists>s v v' cfg w1 made. Get tick_dynamic (caSessionName sample_args)
         (caSessionNamespace sample_args) v = (Inr s, v') \<and> config_of tick_dynamic s cfg v' w1
         \<and> MakeClientPod ref_kube sample_args cfg = Ok made \<and> (Inr made, w1) = (Inr pod :: error + Pod, w'))"
    using CreateClientPod_correct [OF tick_laws(1) counted, of ref_kube "\<lambda>ns p w. (Inr p, w)" ?w] by auto
  have "out = Ok pod" using run out(1) by simp
  with out(2) show ?thesis using run by (metis sample_args_simps(4,5))
qed

end
