(* ===== verification/Memory.thy ===== *)
theory Memory
  imports Prelude
begin

text \<open>
  A Go memory and what it means to copy an object in it.  Pointers, maps and slices are
  addresses; a copy function takes a value, allocates, and returns the copy with the memory it
  leaves.  A \<open>shape\<close> describes the values of a type inside a memory: the addresses a value owns,
  the addresses it shares with its copies, what it reads as, when it is well formed, and when
  its parts do not overlap.  The locale \<open>copier\<close> is the contract of a copy function with
  respect to a shape, and one lemma per way to build types (plain data, structs, slices,
  pointers) builds the contract of a copy function from those of its parts.
\<close>

section \<open>Memory\<close>

type_synonym addr = nat

record 'c mem =
  memNext :: addr
  memCell :: "addr \<Rightarrow> 'c"

definition alloc :: "'c \<Rightarrow> 'c mem \<Rightarrow> addr \<times> 'c mem" where
  "alloc c m = (memNext m, \<lparr>memNext = Suc (memNext m), memCell = (memCell m)(memNext m := c)\<rparr>)"

definition assign :: "addr \<Rightarrow> 'c \<Rightarrow> 'c mem \<Rightarrow> 'c mem" where
  "assign a c m = m\<lparr>memCell := (memCell m)(a := c)\<rparr>"

definition extends :: "'c mem \<Rightarrow> 'c mem \<Rightarrow> bool" where
  "extends m m' \<longleftrightarrow> memNext m \<le> memNext m' \<and> (\<forall>a < memNext m. memCell m' a = memCell m a)"

definition agree :: "addr set \<Rightarrow> 'c mem \<Rightarrow> 'c mem \<Rightarrow> bool" where
  "agree A m m' \<longleftrightarrow> memNext m \<le> memNext m' \<and> (\<forall>a \<in> A. memCell m' a = memCell m a)"

lemma extends_refl [simp]: "extends m m"
  by (simp add: extends_def)

lemma extends_trans: "extends m m1 \<Longrightarrow> extends m1 m2 \<Longrightarrow> extends m m2"
  by (simp add: extends_def)

lemma extends_agree: "extends m m' \<Longrightarrow> A \<subseteq> {..<memNext m} \<Longrightarrow> agree A m m'"
  by (auto simp: extends_def agree_def)

lemma agree_mono: "agree A m m' \<Longrightarrow> B \<subseteq> A \<Longrightarrow> agree B m m'"
  by (auto simp: agree_def)

lemma agree_Un [simp]: "agree (A \<union> B) m m' \<longleftrightarrow> agree A m m' \<and> agree B m m'"
  by (auto simp: agree_def)

lemma agree_assign: "a \<notin> A \<Longrightarrow> agree A m (assign a c m)"
  by (auto simp: agree_def assign_def)

lemma alloc_simps [simp]:
  "fst (alloc c m) = memNext m" "memNext (snd (alloc c m)) = Suc (memNext m)"
  "memCell (snd (alloc c m)) (memNext m) = c"
  by (simp_all add: alloc_def)

lemma assign_simps [simp]:
  "memNext (assign a c m) = memNext m" "memCell (assign a c m) a = c"
  "b \<noteq> a \<Longrightarrow> memCell (assign a c m) b = memCell m b"
  by (simp_all add: assign_def)

lemma extends_alloc: "extends m (snd (alloc c m))"
  by (simp add: extends_def alloc_def)

lemma extends_assign: "extends m m' \<Longrightarrow> memNext m \<le> a \<Longrightarrow> extends m (assign a c m')"
  by (simp add: extends_def assign_def)

section \<open>Shapes and copy functions\<close>

record ('a, 'c, 'v) shape =
  sh_owned :: "'c mem \<Rightarrow> 'a \<Rightarrow> addr set"
  sh_shared :: "'c mem \<Rightarrow> 'a \<Rightarrow> addr set"
  sh_view :: "'c mem \<Rightarrow> 'a \<Rightarrow> 'v"
  sh_ok :: "'c mem \<Rightarrow> 'a \<Rightarrow> bool"
  sh_tree :: "'c mem \<Rightarrow> 'a \<Rightarrow> bool"

abbreviation sh_reach :: "('a, 'c, 'v) shape \<Rightarrow> 'c mem \<Rightarrow> 'a \<Rightarrow> addr set" where
  "sh_reach S m x \<equiv> sh_owned S m x \<union> sh_shared S m x"

type_synonym ('a, 'c) copying = "'a \<Rightarrow> 'c mem \<Rightarrow> ('a \<times> 'c mem) option"

text \<open>The value reads the same in both memories, and reaches the same addresses.\<close>

definition reads_same :: "('a, 'c, 'v) shape \<Rightarrow> 'c mem \<Rightarrow> 'c mem \<Rightarrow> 'a \<Rightarrow> bool" where
  "reads_same S m m' x \<longleftrightarrow> sh_ok S m' x \<and> sh_owned S m' x = sh_owned S m x \<and>
     sh_shared S m' x = sh_shared S m x \<and> sh_view S m' x = sh_view S m x \<and>
     sh_tree S m' x = sh_tree S m x"

text \<open>
  \<open>x'\<close> in \<open>m'\<close> is a copy of \<open>x\<close> in \<open>m\<close>: no old cell has changed, the copy reads as the
  original did, owns fresh addresses only, does not overlap itself, and shares what a copy
  shares.
\<close>

definition copied :: "('a, 'c, 'v) shape \<Rightarrow> 'c mem \<Rightarrow> 'a \<Rightarrow> 'c mem \<Rightarrow> 'a \<Rightarrow> bool" where
  "copied S m x m' x' \<longleftrightarrow> extends m m' \<and> sh_ok S m' x' \<and> sh_tree S m' x' \<and>
     sh_view S m' x' = sh_view S m x \<and> sh_owned S m' x' \<subseteq> {memNext m..<memNext m'} \<and>
     sh_shared S m' x' = sh_shared S m x"

locale copier =
  fixes copy :: "('a, 'c) copying" and S :: "('a, 'c, 'v) shape"
  assumes bounded: "sh_ok S m x \<Longrightarrow> sh_reach S m x \<subseteq> {..<memNext m}"
    and frame: "sh_ok S m x \<Longrightarrow> agree (sh_reach S m x) m m' \<Longrightarrow> reads_same S m m' x"
    and copies: "sh_ok S m x \<Longrightarrow> \<exists>x' m'. copy x m = Some (x', m') \<and> copied S m x m' x'"
begin

lemma frame_extends: "sh_ok S m x \<Longrightarrow> extends m m' \<Longrightarrow> reads_same S m m' x"
  by (rule frame) (auto intro!: extends_agree dest: bounded)

lemma copied_later:
  assumes "copied S m x m1 x'" and "extends m1 m2"
  shows "copied S m x m2 x'"
proof -
  have "reads_same S m1 m2 x'" using assms frame_extends by (simp add: copied_def)
  moreover have "memNext m1 \<le> memNext m2" using assms(2) by (simp add: extends_def)
  ultimately show ?thesis
    using assms extends_trans [of m m1 m2] by (auto simp: copied_def reads_same_def dest!: subsetD)
qed

lemma copied_from:
  assumes "sh_ok S m x" and "extends m m1" and "copied S m1 x m2 x'"
  shows "copied S m x m2 x'"
proof -
  have "memNext m \<le> memNext m1" using assms(2) by (simp add: extends_def)
  then show ?thesis
    using frame_extends [OF assms(1,2)] assms(2,3) extends_trans [of m m1 m2]
    by (auto simp: copied_def reads_same_def dest!: subsetD)
qed

text \<open>Whatever is written into the copy, outside of what it shares, the original does not change.\<close>

lemma original_kept:
  assumes "sh_ok S m x" and "copied S m x m' x'"
    and "agree (- sh_owned S m' x') m' m''"
  shows "reads_same S m m'' x"
proof (rule frame [OF assms(1)])
  have "sh_reach S m x \<subseteq> {..<memNext m}" using bounded [OF assms(1)] .
  then have "sh_reach S m x \<subseteq> - sh_owned S m' x'" using assms(2) by (fastforce simp: copied_def)
  then have "agree (sh_reach S m x) m' m''" using agree_mono [OF assms(3)] by blast
  moreover have "agree (sh_reach S m x) m m'"
    using extends_agree bounded [OF assms(1)] assms(2) by (auto simp: copied_def)
  ultimately show "agree (sh_reach S m x) m m''" unfolding agree_def by auto
qed

end

text \<open>A deep copy: nothing is shared.\<close>

locale deep_copier = copier +
  assumes nothing_shared: "sh_shared S m x = {}"
begin

lemma copy_disjoint:
  "sh_ok S m x \<Longrightarrow> copied S m x m' x' \<Longrightarrow> sh_reach S m x \<inter> sh_reach S m' x' = {}"
  using bounded [of m x] nothing_shared by (fastforce simp: copied_def)

end

section \<open>Plain data and structs\<close>

definition val_copy :: "('a, 'c) copying" where
  "val_copy x m = Some (x, m)"

definition val_shape :: "('a, 'c, 'a) shape" where
  "val_shape = \<lparr>sh_owned = \<lambda>m x. {}, sh_shared = \<lambda>m x. {}, sh_view = \<lambda>m x. x,
     sh_ok = \<lambda>m x. True, sh_tree = \<lambda>m x. True\<rparr>"

lemma val_shape_simps [simp]:
  "sh_owned val_shape m x = {}" "sh_shared val_shape m x = {}" "sh_view val_shape m x = x"
  "sh_ok val_shape m x" "sh_tree val_shape m x"
  by (simp_all add: val_shape_def)

lemma val_copier: "copier val_copy val_shape"
  by unfold_locales (simp_all add: val_copy_def reads_same_def copied_def)

text \<open>Two fields, copied one after the other.\<close>

definition pair_copy :: "('a, 'c) copying \<Rightarrow> ('b, 'c) copying \<Rightarrow> ('a \<times> 'b, 'c) copying" where
  "pair_copy c d xy m = Option.bind (c (fst xy) m) (\<lambda>(x', m1).
     Option.bind (d (snd xy) m1) (\<lambda>(y', m2). Some ((x', y'), m2)))"

definition pair_shape :: "('a, 'c, 'v) shape \<Rightarrow> ('b, 'c, 'u) shape \<Rightarrow> ('a \<times> 'b, 'c, 'v \<times> 'u) shape" where
  "pair_shape S T = \<lparr>sh_owned = \<lambda>m (x, y). sh_owned S m x \<union> sh_owned T m y,
     sh_shared = \<lambda>m (x, y). sh_shared S m x \<union> sh_shared T m y,
     sh_view = \<lambda>m (x, y). (sh_view S m x, sh_view T m y),
     sh_ok = \<lambda>m (x, y). sh_ok S m x \<and> sh_ok T m y,
     sh_tree = \<lambda>m (x, y). sh_tree S m x \<and> sh_tree T m y \<and> sh_owned S m x \<inter> sh_owned T m y = {}\<rparr>"

lemma pair_shape_simps [simp]:
  "sh_owned (pair_shape S T) m (x, y) = sh_owned S m x \<union> sh_owned T m y"
  "sh_shared (pair_shape S T) m (x, y) = sh_shared S m x \<union> sh_shared T m y"
  "sh_view (pair_shape S T) m (x, y) = (sh_view S m x, sh_view T m y)"
  "sh_ok (pair_shape S T) m (x, y) \<longleftrightarrow> sh_ok S m x \<and> sh_ok T m y"
  "sh_tree (pair_shape S T) m (x, y) \<longleftrightarrow>
     sh_tree S m x \<and> sh_tree T m y \<and> sh_owned S m x \<inter> sh_owned T m y = {}"
  by (simp_all add: pair_shape_def)

lemma copied_pair:
  assumes "copied S m x m1 x'" "copied S m x m2 x'" "copied T m y m2 y'"
    and fresh: "sh_owned S m2 x' = sh_owned S m1 x'" "sh_owned T m2 y' \<subseteq> {memNext m1..<memNext m2}"
  shows "copied (pair_shape S T) m (x, y) m2 (x', y')"
proof -
  have "sh_owned S m1 x' \<inter> {memNext m1..<memNext m2} = {}"
    using assms(1) by (fastforce simp: copied_def)
  then show ?thesis using assms by (auto simp: copied_def)
qed

lemma pair_copier:
  assumes "copier c S" and "copier d T"
  shows "copier (pair_copy c d) (pair_shape S T)"
proof (unfold_locales, goal_cases)
  case (1 m xy)
  then show ?case using copier.bounded [OF assms(1), of m "fst xy"] copier.bounded [OF assms(2), of m "snd xy"]
    by (cases xy) auto
next
  case (2 m xy m')
  then show ?case
    using copier.frame [OF assms(1), of m "fst xy" m'] copier.frame [OF assms(2), of m "snd xy" m']
    by (cases xy) (auto simp: reads_same_def)
next
  case (3 m xy)
  obtain x y where [simp]: "xy = (x, y)" by (cases xy)
  obtain x' m1 where x: "c x m = Some (x', m1)" "copied S m x m1 x'"
    using copier.copies [OF assms(1), of m x] 3 by auto
  then have ext: "extends m m1" by (simp add: copied_def)
  have ok: "sh_ok T m y" using 3 by simp
  then have "sh_ok T m1 y" using copier.frame_extends [OF assms(2) ok ext] by (simp add: reads_same_def)
  then obtain y' m2 where y: "d y m1 = Some (y', m2)" "copied T m1 y m2 y'"
    using copier.copies [OF assms(2)] by blast
  then have ext2: "extends m1 m2" by (simp add: copied_def)
  have "reads_same S m1 m2 x'"
    using copier.frame_extends [OF assms(1) _ ext2] x(2) by (simp add: copied_def)
  then have "copied (pair_shape S T) m (x, y) m2 (x', y')"
    using x(2) copier.copied_later [OF assms(1) x(2) ext2] copier.copied_from [OF assms(2) ok ext y(2)] y(2)
    by (intro copied_pair) (auto simp: reads_same_def copied_def)
  then show ?case using x y by (simp add: pair_copy_def)
qed

text \<open>
  A struct: \<open>dest\<close> selects the fields that are copied, \<open>mk\<close> writes them into a shallow copy of
  the struct, and \<open>vw\<close> reads the struct from the plain fields and the views of the others.
\<close>

definition struct_copy ::
  "('a \<Rightarrow> 'b) \<Rightarrow> ('a \<Rightarrow> 'b \<Rightarrow> 'a) \<Rightarrow> ('b, 'c) copying \<Rightarrow> ('a, 'c) copying" where
  "struct_copy dest mk c x m = map_option (\<lambda>(t, m'). (mk x t, m')) (c (dest x) m)"

definition struct_shape ::
  "('a \<Rightarrow> 'b) \<Rightarrow> ('a \<Rightarrow> 'v \<Rightarrow> 'u) \<Rightarrow> ('b, 'c, 'v) shape \<Rightarrow> ('a, 'c, 'u) shape" where
  "struct_shape dest vw S = \<lparr>sh_owned = \<lambda>m x. sh_owned S m (dest x), sh_shared = \<lambda>m x. sh_shared S m (dest x),
     sh_view = \<lambda>m x. vw x (sh_view S m (dest x)), sh_ok = \<lambda>m x. sh_ok S m (dest x),
     sh_tree = \<lambda>m x. sh_tree S m (dest x)\<rparr>"

lemma struct_shape_simps [simp]:
  "sh_owned (struct_shape dest vw S) m x = sh_owned S m (dest x)"
  "sh_shared (struct_shape dest vw S) m x = sh_shared S m (dest x)"
  "sh_view (struct_shape dest vw S) m x = vw x (sh_view S m (dest x))"
  "sh_ok (struct_shape dest vw S) m x \<longleftrightarrow> sh_ok S m (dest x)"
  "sh_tree (struct_shape dest vw S) m x \<longleftrightarrow> sh_tree S m (dest x)"
  by (simp_all add: struct_shape_def)

lemma struct_copier:
  assumes "copier c S" and mk: "\<And>x t. dest (mk x t) = t" "\<And>x t v. vw (mk x t) v = vw x v"
  shows "copier (struct_copy dest mk c) (struct_shape dest vw S)"
proof (unfold_locales, goal_cases)
  case (1 m x)
  then show ?case using copier.bounded [OF assms(1)] by simp
next
  case (2 m x m')
  then show ?case using copier.frame [OF assms(1), of m "dest x" m'] by (simp add: reads_same_def)
next
  case (3 m x)
  then obtain t m' where "c (dest x) m = Some (t, m')" "copied S m (dest x) m' t"
    using copier.copies [OF assms(1), of m "dest x"] by auto
  then show ?case by (intro exI [of _ "mk x t"] exI [of _ m']) (simp add: struct_copy_def copied_def mk)
qed

section \<open>Slices, maps and pointers\<close>

text \<open>The elements of a slice or the values of a map, copied one after the other.\<close>

primrec list_copy :: "('a, 'c) copying \<Rightarrow> ('a list, 'c) copying" where
  "list_copy c [] m = Some ([], m)"
| "list_copy c (x # xs) m = Option.bind (c x m) (\<lambda>(x', m1).
     Option.bind (list_copy c xs m1) (\<lambda>(xs', m2). Some (x' # xs', m2)))"

primrec list_tree :: "('a, 'c, 'v) shape \<Rightarrow> 'c mem \<Rightarrow> 'a list \<Rightarrow> bool" where
  "list_tree S m [] \<longleftrightarrow> True"
| "list_tree S m (x # xs) \<longleftrightarrow> sh_tree S m x \<and> list_tree S m xs \<and>
     sh_owned S m x \<inter> \<Union> (sh_owned S m ` set xs) = {}"

definition list_shape :: "('a, 'c, 'v) shape \<Rightarrow> ('a list, 'c, 'v list) shape" where
  "list_shape S = \<lparr>sh_owned = \<lambda>m xs. \<Union> (sh_owned S m ` set xs), sh_shared = \<lambda>m xs. \<Union> (sh_shared S m ` set xs),
     sh_view = \<lambda>m xs. map (sh_view S m) xs, sh_ok = \<lambda>m xs. list_all (sh_ok S m) xs,
     sh_tree = list_tree S\<rparr>"

lemma list_shape_simps [simp]:
  "sh_owned (list_shape S) m xs = \<Union> (sh_owned S m ` set xs)"
  "sh_shared (list_shape S) m xs = \<Union> (sh_shared S m ` set xs)"
  "sh_view (list_shape S) m xs = map (sh_view S m) xs"
  "sh_ok (list_shape S) m xs \<longleftrightarrow> list_all (sh_ok S m) xs"
  "sh_tree (list_shape S) m xs \<longleftrightarrow> list_tree S m xs"
  by (simp_all add: list_shape_def)

lemma list_val_shape [simp]:
  "list_tree val_shape m xs" "map (sh_view val_shape m) xs = xs" "list_all (sh_ok val_shape m) xs"
  by (induction xs) simp_all

text \<open>A list is its head and its tail: the contract of the list follows from that of the pair.\<close>

lemma copied_Cons_iff:
  "copied (list_shape S) m (x # xs) m' (x' # xs') \<longleftrightarrow>
   copied (pair_shape S (list_shape S)) m (x, xs) m' (x', xs')"
  by (simp add: copied_def)

lemma list_frame:
  assumes "copier c S"
  shows "list_all (sh_ok S m) xs \<Longrightarrow> agree (sh_reach (list_shape S) m xs) m m' \<Longrightarrow>
    reads_same (list_shape S) m m' xs"
proof (induction xs)
  case (Cons x xs)
  then have "reads_same S m m' x"
    by (intro copier.frame [OF assms]) (auto elim: agree_mono)
  moreover have "reads_same (list_shape S) m m' xs" using Cons by (auto elim: agree_mono)
  ultimately show ?case by (auto simp: reads_same_def)
qed (simp add: reads_same_def)

lemma list_bounded:
  "copier c S \<Longrightarrow> list_all (sh_ok S m) xs \<Longrightarrow> sh_reach (list_shape S) m xs \<subseteq> {..<memNext m}"
  by (induction xs) (auto dest!: copier.bounded)

lemma list_copies:
  assumes "copier c S"
  shows "list_all (sh_ok S m) xs \<Longrightarrow> \<exists>xs' m'. list_copy c xs m = Some (xs', m') \<and> copied (list_shape S) m xs m' xs'"
proof (induction xs arbitrary: m)
  case Nil
  then show ?case by (simp add: copied_def)
next
  case (Cons x xs)
  obtain x' m1 where x: "c x m = Some (x', m1)" "copied S m x m1 x'"
    using copier.copies [OF assms, of m x] Cons.prems by auto
  then have ext: "extends m m1" by (simp add: copied_def)
  have all: "list_all (sh_ok S m) xs" using Cons.prems by simp
  have same: "reads_same (list_shape S) m m1 xs"
    by (rule list_frame [OF assms all extends_agree [OF ext list_bounded [OF assms all]]])
  then obtain xs' m2 where xs: "list_copy c xs m1 = Some (xs', m2)" "copied (list_shape S) m1 xs m2 xs'"
    using Cons.IH [of m1] by (auto simp: reads_same_def)
  then have ext2: "extends m1 m2" by (simp add: copied_def)
  have "reads_same S m1 m2 x'" using copier.frame_extends [OF assms _ ext2] x(2) by (simp add: copied_def)
  moreover have "memNext m \<le> memNext m1" using ext by (simp add: extends_def)
  then have "copied (list_shape S) m xs m2 xs'"
    using xs(2) same extends_trans [OF ext] by (auto simp: copied_def reads_same_def dest!: subsetD)
  ultimately have "copied (list_shape S) m (x # xs) m2 (x' # xs')"
    unfolding copied_Cons_iff using x(2) copier.copied_later [OF assms x(2) ext2] xs(2)
    by (intro copied_pair) (auto simp: reads_same_def copied_def)
  then show ?case using x xs by simp
qed

lemma list_copier:
  assumes "copier c S"
  shows "copier (list_copy c) (list_shape S)"
proof (unfold_locales, goal_cases)
  case (1 m xs)
  then show ?case by (intro list_bounded [OF assms]) simp
next
  case (2 m xs m')
  then show ?case by (intro list_frame [OF assms]) simp_all
next
  case (3 m xs)
  then show ?case by (intro list_copies [OF assms]) simp
qed

text \<open>
  A pointer: nil stays nil; otherwise a new cell receives the shallow copy of the target, and
  then what the copy function makes of it.  \<open>rd\<close> reads the cells of the pointer's type, \<open>wr\<close>
  makes them.  A map or slice variable is a pointer to its contents.
\<close>

definition ptr_copy ::
  "('c \<Rightarrow> 'a option) \<Rightarrow> ('a \<Rightarrow> 'c) \<Rightarrow> ('a, 'c) copying \<Rightarrow> (addr option, 'c) copying" where
  "ptr_copy rd wr c p m =
     (case p of
        None \<Rightarrow> Some (None, m)
      | Some a \<Rightarrow> Option.bind (rd (memCell m a)) (\<lambda>v.
          let (out, m1) = alloc (wr v) m in
          Option.bind (c v m1) (\<lambda>(v', m2). Some (Some out, assign out (wr v') m2))))"

definition target :: "('c \<Rightarrow> 'a option) \<Rightarrow> 'c mem \<Rightarrow> addr option \<Rightarrow> 'a option" where
  "target rd m p = Option.bind p (\<lambda>a. rd (memCell m a))"

definition ptr_shape ::
  "('c \<Rightarrow> 'a option) \<Rightarrow> ('a, 'c, 'v) shape \<Rightarrow> (addr option, 'c, 'v option) shape" where
  "ptr_shape rd S = \<lparr>
     sh_owned = \<lambda>m p. set_option p \<union> (case target rd m p of None \<Rightarrow> {} | Some v \<Rightarrow> sh_owned S m v),
     sh_shared = \<lambda>m p. (case target rd m p of None \<Rightarrow> {} | Some v \<Rightarrow> sh_shared S m v),
     sh_view = \<lambda>m p. map_option (sh_view S m) (target rd m p),
     sh_ok = \<lambda>m p. (case p of None \<Rightarrow> True | Some a \<Rightarrow> a < memNext m \<and>
        (case rd (memCell m a) of None \<Rightarrow> False | Some v \<Rightarrow> sh_ok S m v)),
     sh_tree = \<lambda>m p. (case p of None \<Rightarrow> True | Some a \<Rightarrow>
        (case rd (memCell m a) of None \<Rightarrow> True | Some v \<Rightarrow> sh_tree S m v \<and> a \<notin> sh_owned S m v))\<rparr>"

lemma target_simps [simp]: "target rd m None = None" "target rd m (Some a) = rd (memCell m a)"
  by (simp_all add: target_def)

lemma ptr_shape_simps [simp]:
  "sh_owned (ptr_shape rd S) m p = set_option p \<union> (case target rd m p of None \<Rightarrow> {} | Some v \<Rightarrow> sh_owned S m v)"
  "sh_shared (ptr_shape rd S) m p = (case target rd m p of None \<Rightarrow> {} | Some v \<Rightarrow> sh_shared S m v)"
  "sh_view (ptr_shape rd S) m p = map_option (sh_view S m) (target rd m p)"
  "sh_ok (ptr_shape rd S) m None"
  "sh_ok (ptr_shape rd S) m (Some a) \<longleftrightarrow> a < memNext m \<and>
     (case rd (memCell m a) of None \<Rightarrow> False | Some v \<Rightarrow> sh_ok S m v)"
  "sh_tree (ptr_shape rd S) m None"
  "sh_tree (ptr_shape rd S) m (Some a) \<longleftrightarrow>
     (case rd (memCell m a) of None \<Rightarrow> True | Some v \<Rightarrow> sh_tree S m v \<and> a \<notin> sh_owned S m v)"
  by (simp_all add: ptr_shape_def)

lemma ptr_copies:
  assumes "copier c S" and rw: "\<And>v. rd (wr v) = Some v"
    and a: "a < memNext m" "rd (memCell m a) = Some v" "sh_ok S m v"
  shows "\<exists>p' m'. ptr_copy rd wr c (Some a) m = Some (p', m') \<and> copied (ptr_shape rd S) m (Some a) m' p'"
proof -
  let ?b = "memNext m" and ?m1 = "snd (alloc (wr v) m)"
  have ext: "extends m ?m1" by (rule extends_alloc)
  have same: "reads_same S m ?m1 v" by (rule copier.frame_extends [OF assms(1) a(3) ext])
  then obtain v' m2 where c: "c v ?m1 = Some (v', m2)" "copied S ?m1 v m2 v'"
    using copier.copies [OF assms(1), of ?m1 v] by (auto simp: reads_same_def)
  let ?m3 = "assign ?b (wr v') m2"
  have shared: "sh_shared S m2 v' = sh_shared S m v" using c(2) same by (simp add: copied_def reads_same_def)
  have "?b \<notin> sh_owned S m2 v'" using c(2) by (auto simp: copied_def)
  moreover have "?b \<notin> sh_shared S m2 v'" using copier.bounded [OF assms(1) a(3)] shared by auto
  ultimately have kept: "reads_same S m2 ?m3 v'"
    using c(2) by (intro copier.frame [OF assms(1)] agree_assign) (auto simp: copied_def)
  have ext2: "extends m m2" using c(2) extends_trans [OF ext] by (simp add: copied_def)
  then have "copied (ptr_shape rd S) m (Some a) ?m3 (Some ?b)"
    using c(2) same kept a rw \<open>?b \<notin> sh_owned S m2 v'\<close> extends_assign [OF ext2, of ?b "wr v'"]
    by (fastforce simp: copied_def reads_same_def extends_def)
  then show ?thesis using c(1) a(2) by (auto simp: ptr_copy_def split_def)
qed

lemma ptr_copier:
  assumes "copier c S" and rw: "\<And>v. rd (wr v) = Some v"
  shows "copier (ptr_copy rd wr c) (ptr_shape rd S)"
proof (unfold_locales, goal_cases)
  case (1 m p)
  then show ?case using copier.bounded [OF assms(1), of m] by (cases p) (auto split: option.splits)
next
  case (2 m p m')
  show ?case
  proof (cases p)
    case None
    then show ?thesis by (simp add: reads_same_def)
  next
    case (Some a)
    then obtain v where v: "a < memNext m" "rd (memCell m a) = Some v" "sh_ok S m v"
      using 2 by (auto split: option.splits)
    then have "memCell m' a = memCell m a" "memNext m \<le> memNext m'" "agree (sh_reach S m v) m m'"
      using 2(2) Some by (auto simp: agree_def)
    moreover from this(3) have "reads_same S m m' v" by (rule copier.frame [OF assms(1) v(3)])
    ultimately show ?thesis using v Some by (simp add: reads_same_def)
  qed
next
  case (3 m p)
  show ?case
  proof (cases p)
    case None
    then show ?thesis by (simp add: ptr_copy_def copied_def)
  next
    case (Some a)
    then obtain v where "a < memNext m" "rd (memCell m a) = Some v" "sh_ok S m v"
      using 3 by (auto split: option.splits)
    then show ?thesis unfolding Some by (intro ptr_copies [OF assms])
  qed
qed

lemmas copier_intros = val_copier pair_copier list_copier ptr_copier

section \<open>Writing into an object\<close>

text \<open>
  \<open>field_write S m x a w v\<close>: the object \<open>x\<close>, well formed and without overlap, owns the address
  \<open>a\<close>, and writing \<open>w\<close> there leaves it well formed, owning and sharing what it did, and reading
  as \<open>v\<close>.  One rule per way to build shapes leads from the field written to the whole object;
  the other fields are kept by the frame law.
\<close>

definition field_write :: "('a, 'c, 'v) shape \<Rightarrow> 'c mem \<Rightarrow> 'a \<Rightarrow> addr \<Rightarrow> 'c \<Rightarrow> 'v \<Rightarrow> bool" where
  "field_write S m x a w v \<longleftrightarrow> (sh_ok S m x \<longrightarrow> sh_tree S m x \<longrightarrow>
     (let m' = assign a w m in
      a \<in> sh_owned S m x \<and> sh_ok S m' x \<and> sh_tree S m' x \<and> sh_owned S m' x = sh_owned S m x \<and>
      sh_shared S m' x = sh_shared S m x \<and> sh_view S m' x = v))"

lemma frame_assign:
  "copier c S \<Longrightarrow> sh_ok S m x \<Longrightarrow> a \<notin> sh_reach S m x \<Longrightarrow> reads_same S m (assign a w m) x"
  by (rule copier.frame) (auto intro: agree_assign)

lemma field_write_left:
  assumes "copier d T" and "a \<notin> sh_shared T m y" and "field_write S m x a w v"
  shows "field_write (pair_shape S T) m (x, y) a w (v, sh_view T m y)"
  using assms frame_assign [OF assms(1), of m y a w]
  by (auto simp: field_write_def reads_same_def Let_def)

lemma field_write_right:
  assumes "copier c S" and "a \<notin> sh_shared S m x" and "field_write T m y a w u"
  shows "field_write (pair_shape S T) m (x, y) a w (sh_view S m x, u)"
  using assms frame_assign [OF assms(1), of m x a w]
  by (auto simp: field_write_def reads_same_def Let_def)

lemma field_write_struct:
  "field_write S m (dest x) a w v \<Longrightarrow> u = vw x v \<Longrightarrow> field_write (struct_shape dest vw S) m x a w u"
  by (simp add: field_write_def Let_def)

lemma field_write_ptr:
  assumes "rd (memCell m b) = Some x" and "field_write S m x a w v"
  shows "field_write (ptr_shape rd S) m (Some b) a w (Some v)"
proof (unfold field_write_def, intro impI)
  assume "sh_ok (ptr_shape rd S) m (Some b)" and "sh_tree (ptr_shape rd S) m (Some b)"
  then have b: "b < memNext m" "sh_ok S m x" "sh_tree S m x" "b \<notin> sh_owned S m x"
    using assms(1) by simp_all
  with assms(2) have "a \<in> sh_owned S m x" by (simp add: field_write_def Let_def)
  then have "memCell (assign a w m) b = memCell m b" using b(4) by (intro assign_simps) auto
  with b assms show "let m' = assign a w m in
      a \<in> sh_owned (ptr_shape rd S) m (Some b) \<and> sh_ok (ptr_shape rd S) m' (Some b) \<and>
      sh_tree (ptr_shape rd S) m' (Some b) \<and> sh_owned (ptr_shape rd S) m' (Some b) = sh_owned (ptr_shape rd S) m (Some b) \<and>
      sh_shared (ptr_shape rd S) m' (Some b) = sh_shared (ptr_shape rd S) m (Some b) \<and>
      sh_view (ptr_shape rd S) m' (Some b) = Some v"
    by (simp add: field_write_def Let_def)
qed

end
