(* ===== verification/DeepCopies.thy ===== *)
theory DeepCopies
  imports Memory Pods
begin

text \<open>
  The deep-copy methods of the API types, \<open>api/v1alpha1/zz_generated.deepcopy.go\<close> and
  \<open>deepcopy.go\<close>, on objects in memory.  The structs of the API package carry addresses where
  Go has pointers, maps and slices; third-party structs are values of a type parameter \<open>'x\<close>,
  with their own \<open>DeepCopyInto\<close> as a parameter.  The view of an object is the value of theory
  \<open>Api\<close> it stands for, which ties the memory model to the rest of the development.  A map is
  copied entry by entry; the order of the visits decides only which addresses the copies get.
\<close>

section \<open>Objects in memory\<close>

record NetworkPolicyConfigObj =
  hnEnabled :: bool
  hnFrom :: "addr option"

record 'x PodOptionsObj =
  hoResources :: 'x
  hoExtraVolumes :: "addr option"
  hoLabels :: "addr option"
  hoAnnotations :: "addr option"
  hoExtraContainers :: "addr option"
  hoPriorityClassName :: string
  hoPodSecurityContext :: "addr option"
  hoContainerSecurityContext :: "addr option"
  hoShareProcessNamespace :: "addr option"
  hoServiceAccount :: string
  hoImagePullPolicy :: string
  hoPodOverride :: "addr option"

record 'x LifecycleConfigObj =
  hlImage :: string
  hlServicePorts :: "addr option"
  hlNetworkPolicy :: NetworkPolicyConfigObj
  hlPodOptions :: "'x PodOptionsObj"
  hlStartupProbe :: "addr option"
  hlLivenessProbe :: "addr option"

record DatamoverSessionSpecObj =
  hsImplementation :: string
  hsConfiguration :: "addr option"
  hsConfigurationSecrets :: "addr option"
  hsClientSecretRef :: "addr option"
  hsEnv :: "addr option"
  hsLifecycleConfig :: "addr option"

record 'x DatamoverSessionObj =
  hdKind :: string
  hdAPIVersion :: string
  hdMeta :: 'x
  hdSpec :: DatamoverSessionSpecObj
  hdStatus :: DatamoverSessionStatus

record 'x DatamoverSessionListObj =
  htKind :: string
  htAPIVersion :: string
  htMeta :: 'x
  htItems :: "addr option"

text \<open>
  A cell of the memory: a third-party struct, an array of them, a map to them, a map of
  strings, a flag, the contents of a JSON map, the header of an override map, or one of the
  API structs.
\<close>

datatype 'x cell =
    ForeignCell 'x
  | ForeignSlice "'x list"
  | ForeignMap "'x gomap"
  | StringMap smap
  | BoolCell bool
  | JSONMap opaque
  | OverrideCell "addr option"
  | PolicyCell NetworkPolicyConfigObj
  | OptionsCell "'x PodOptionsObj"
  | LifecycleCell "'x LifecycleConfigObj"
  | SpecCell DatamoverSessionSpecObj
  | InfoCell SessionInfo
  | StatusCell DatamoverSessionStatus
  | SessionCell "'x DatamoverSessionObj"
  | SessionSlice "'x DatamoverSessionObj list"
  | SessionListCell "'x DatamoverSessionListObj"

definition as_Foreign :: "'x cell \<Rightarrow> 'x option" where
  "as_Foreign c = (case c of ForeignCell v \<Rightarrow> Some v | _ \<Rightarrow> None)"

definition as_ForeignSlice :: "'x cell \<Rightarrow> 'x list option" where
  "as_ForeignSlice c = (case c of ForeignSlice v \<Rightarrow> Some v | _ \<Rightarrow> None)"

definition as_ForeignMap :: "'x cell \<Rightarrow> 'x gomap option" where
  "as_ForeignMap c = (case c of ForeignMap v \<Rightarrow> Some v | _ \<Rightarrow> None)"

definition as_StringMap :: "'x cell \<Rightarrow> smap option" where
  "as_StringMap c = (case c of StringMap v \<Rightarrow> Some v | _ \<Rightarrow> None)"

definition as_Bool :: "'x cell \<Rightarrow> bool option" where
  "as_Bool c = (case c of BoolCell v \<Rightarrow> Some v | _ \<Rightarrow> None)"

definition as_JSONMap :: "'x cell \<Rightarrow> opaque option" where
  "as_JSONMap c = (case c of JSONMap v \<Rightarrow> Some v | _ \<Rightarrow> None)"

definition as_Policy :: "'x cell \<Rightarrow> NetworkPolicyConfigObj option" where
  "as_Policy c = (case c of PolicyCell v \<Rightarrow> Some v | _ \<Rightarrow> None)"

definition as_Options :: "'x cell \<Rightarrow> 'x PodOptionsObj option" where
  "as_Options c = (case c of OptionsCell v \<Rightarrow> Some v | _ \<Rightarrow> None)"

definition as_Lifecycle :: "'x cell \<Rightarrow> 'x LifecycleConfigObj option" where
  "as_Lifecycle c = (case c of LifecycleCell v \<Rightarrow> Some v | _ \<Rightarrow> None)"

definition as_Spec :: "'x cell \<Rightarrow> DatamoverSessionSpecObj option" where
  "as_Spec c = (case c of SpecCell v \<Rightarrow> Some v | _ \<Rightarrow> None)"

definition as_Info :: "'x cell \<Rightarrow> SessionInfo option" where
  "as_Info c = (case c of InfoCell v \<Rightarrow> Some v | _ \<Rightarrow> None)"

definition as_Status :: "'x cell \<Rightarrow> DatamoverSessionStatus option" where
  "as_Status c = (case c of StatusCell v \<Rightarrow> Some v | _ \<Rightarrow> None)"

definition as_Session :: "'x cell \<Rightarrow> 'x DatamoverSessionObj option" where
  "as_Session c = (case c of SessionCell v \<Rightarrow> Some v | _ \<Rightarrow> None)"

definition as_SessionSlice :: "'x cell \<Rightarrow> 'x DatamoverSessionObj list option" where
  "as_SessionSlice c = (case c of SessionSlice v \<Rightarrow> Some v | _ \<Rightarrow> None)"

definition as_SessionList :: "'x cell \<Rightarrow> 'x DatamoverSessionListObj option" where
  "as_SessionList c = (case c of SessionListCell v \<Rightarrow> Some v | _ \<Rightarrow> None)"

lemma as_simps [simp]:
  "as_Foreign (ForeignCell v) = Some v" "as_ForeignSlice (ForeignSlice vs) = Some vs"
  "as_ForeignMap (ForeignMap fm) = Some fm" "as_StringMap (StringMap sm) = Some sm"
  "as_Bool (BoolCell b) = Some b" "as_JSONMap (JSONMap j) = Some j"
  "as_Policy (PolicyCell np) = Some np" "as_Options (OptionsCell po) = Some po"
  "as_Lifecycle (LifecycleCell lc) = Some lc" "as_Spec (SpecCell sp) = Some sp"
  "as_Info (InfoCell i) = Some i" "as_Status (StatusCell st) = Some st"
  "as_Session (SessionCell s) = Some s" "as_SessionSlice (SessionSlice ss) = Some ss"
  "as_SessionList (SessionListCell sl) = Some sl"
  by (simp_all add: as_Foreign_def as_ForeignSlice_def as_ForeignMap_def as_StringMap_def as_Bool_def
      as_JSONMap_def as_Policy_def as_Options_def as_Lifecycle_def as_Spec_def as_Info_def as_Status_def
      as_Session_def as_SessionSlice_def as_SessionList_def)

section \<open>Third-party structs\<close>

text \<open>
  What the code relies on of third-party types: their \<open>DeepCopyInto\<close> methods, and the value of
  theory \<open>Api\<close> each kind of struct stands for.  Their documented contract is that of a deep
  copy, for a shape that gives all these readings.
\<close>

record foreign_view =
  asMeta :: ObjectMeta
  asConfigMap :: ConfigMapVolumeSource
  asSecret :: SecretVolumeSource
  asPort :: ServicePort
  asVolume :: Volume
  asContainer :: Container
  asProbe :: Probe
  asOpaque :: opaque

record 'x foreign =
  fn_DeepCopyInto :: "('x, 'x cell) copying"
  fn_shape :: "('x, 'x cell, foreign_view) shape"

definition foreign_law :: "'x foreign \<Rightarrow> bool" where
  "foreign_law F \<longleftrightarrow> deep_copier (fn_DeepCopyInto F) (fn_shape F)"

section \<open>The methods\<close>

text \<open>
  The blocks the generated code repeats for a field: a pointer to a struct, a slice of
  structs, a map to structs, a map of strings, a pointer to a flag.  What the new cell holds
  before the loop of the block is overwritten by it.
\<close>

definition copy_struct :: "'x foreign \<Rightarrow> (addr option, 'x cell) copying" where
  "copy_struct F = ptr_copy as_Foreign ForeignCell (fn_DeepCopyInto F)"

definition copy_structs :: "'x foreign \<Rightarrow> (addr option, 'x cell) copying" where
  "copy_structs F = ptr_copy as_ForeignSlice ForeignSlice (list_copy (fn_DeepCopyInto F))"

definition copy_secrets :: "'x foreign \<Rightarrow> (addr option, 'x cell) copying" where
  "copy_secrets F = ptr_copy as_ForeignMap ForeignMap (list_copy (pair_copy val_copy (fn_DeepCopyInto F)))"

definition copy_strings :: "(addr option, 'x cell) copying" where
  "copy_strings = ptr_copy as_StringMap StringMap (list_copy val_copy)"

definition copy_flag :: "(addr option, 'x cell) copying" where
  "copy_flag = ptr_copy as_Bool BoolCell val_copy"

definition PodOverride_DeepCopyInto :: "(addr option, 'x cell) copying" where
  "PodOverride_DeepCopyInto inp m = Some (inp, m)"

definition PodOverride_DeepCopy :: "(addr option, 'x cell) copying" where
  "PodOverride_DeepCopy inp m =
     (case inp of
        None \<Rightarrow> Some (None, m)
      | Some _ \<Rightarrow>
          let (out, m1) = alloc (OverrideCell None) m in
          Option.bind (PodOverride_DeepCopyInto inp m1) (\<lambda>(v, m2). Some (v, assign out (OverrideCell v) m2)))"

definition NetworkPolicyConfig_DeepCopyInto :: "'x foreign \<Rightarrow> (NetworkPolicyConfigObj, 'x cell) copying" where
  "NetworkPolicyConfig_DeepCopyInto F inp m =
     Option.bind (copy_structs F (hnFrom inp) m) (\<lambda>(from, m1). Some (inp\<lparr>hnFrom := from\<rparr>, m1))"

definition NetworkPolicyConfig_DeepCopy :: "'x foreign \<Rightarrow> (addr option, 'x cell) copying" where
  "NetworkPolicyConfig_DeepCopy F = ptr_copy as_Policy PolicyCell (NetworkPolicyConfig_DeepCopyInto F)"

definition PodOptions_DeepCopyInto :: "'x foreign \<Rightarrow> ('x PodOptionsObj, 'x cell) copying" where
  "PodOptions_DeepCopyInto F inp m =
     Option.bind (fn_DeepCopyInto F (hoResources inp) m) (\<lambda>(resources, m1).
     Option.bind (copy_structs F (hoExtraVolumes inp) m1) (\<lambda>(extraVolumes, m2).
     Option.bind (copy_strings (hoLabels inp) m2) (\<lambda>(labels, m3).
     Option.bind (copy_strings (hoAnnotations inp) m3) (\<lambda>(annotations, m4).
     Option.bind (copy_structs F (hoExtraContainers inp) m4) (\<lambda>(extraContainers, m5).
     Option.bind (copy_struct F (hoPodSecurityContext inp) m5) (\<lambda>(podSecurityContext, m6).
     Option.bind (copy_struct F (hoContainerSecurityContext inp) m6) (\<lambda>(containerSecurityContext, m7).
     Option.bind (copy_flag (hoShareProcessNamespace inp) m7) (\<lambda>(shareProcessNamespace, m8).
     Option.bind (PodOverride_DeepCopy (hoPodOverride inp) m8) (\<lambda>(podOverride, m9).
     Some (inp\<lparr>hoResources := resources, hoExtraVolumes := extraVolumes, hoLabels := labels,
       hoAnnotations := annotations, hoExtraContainers := extraContainers,
       hoPodSecurityContext := podSecurityContext, hoContainerSecurityContext := containerSecurityContext,
       hoShareProcessNamespace := shareProcessNamespace, hoPodOverride := podOverride\<rparr>, m9))))))))))"

definition PodOptions_DeepCopy :: "'x foreign \<Rightarrow> (addr option, 'x cell) copying" where
  "PodOptions_DeepCopy F = ptr_copy as_Options OptionsCell (PodOptions_DeepCopyInto F)"

definition LifecycleConfig_DeepCopyInto :: "'x foreign \<Rightarrow> ('x LifecycleConfigObj, 'x cell) copying" where
  "LifecycleConfig_DeepCopyInto F inp m =
     Option.bind (copy_structs F (hlServicePorts inp) m) (\<lambda>(servicePorts, m1).
     Option.bind (NetworkPolicyConfig_DeepCopyInto F (hlNetworkPolicy inp) m1) (\<lambda>(networkPolicy, m2).
     Option.bind (PodOptions_DeepCopyInto F (hlPodOptions inp) m2) (\<lambda>(podOptions, m3).
     Option.bind (copy_struct F (hlStartupProbe inp) m3) (\<lambda>(startupProbe, m4).
     Option.bind (copy_struct F (hlLivenessProbe inp) m4) (\<lambda>(livenessProbe, m5).
     Some (inp\<lparr>hlServicePorts := servicePorts, hlNetworkPolicy := networkPolicy, hlPodOptions := podOptions,
       hlStartupProbe := startupProbe, hlLivenessProbe := livenessProbe\<rparr>, m5))))))"

definition LifecycleConfig_DeepCopy :: "'x foreign \<Rightarrow> (addr option, 'x cell) copying" where
  "LifecycleConfig_DeepCopy F = ptr_copy as_Lifecycle LifecycleCell (LifecycleConfig_DeepCopyInto F)"

definition DatamoverSessionSpec_DeepCopyInto :: "'x foreign \<Rightarrow> (DatamoverSessionSpecObj, 'x cell) copying" where
  "DatamoverSessionSpec_DeepCopyInto F inp m =
     Option.bind (copy_struct F (hsConfiguration inp) m) (\<lambda>(configuration, m1).
     Option.bind (copy_secrets F (hsConfigurationSecrets inp) m1) (\<lambda>(configurationSecrets, m2).
     Option.bind (copy_struct F (hsClientSecretRef inp) m2) (\<lambda>(clientSecretRef, m3).
     Option.bind (copy_strings (hsEnv inp) m3) (\<lambda>(env, m4).
     Option.bind (LifecycleConfig_DeepCopy F (hsLifecycleConfig inp) m4) (\<lambda>(lifecycleConfig, m5).
     Some (inp\<lparr>hsConfiguration := configuration, hsConfigurationSecrets := configurationSecrets,
       hsClientSecretRef := clientSecretRef, hsEnv := env, hsLifecycleConfig := lifecycleConfig\<rparr>, m5))))))"

definition DatamoverSessionSpec_DeepCopy :: "'x foreign \<Rightarrow> (addr option, 'x cell) copying" where
  "DatamoverSessionSpec_DeepCopy F = ptr_copy as_Spec SpecCell (DatamoverSessionSpec_DeepCopyInto F)"

definition SessionInfo_DeepCopyInto :: "(SessionInfo, 'x cell) copying" where
  "SessionInfo_DeepCopyInto inp m = Some (inp, m)"

definition SessionInfo_DeepCopy :: "(addr option, 'x cell) copying" where
  "SessionInfo_DeepCopy = ptr_copy as_Info InfoCell SessionInfo_DeepCopyInto"

definition DatamoverSessionStatus_DeepCopyInto :: "(DatamoverSessionStatus, 'x cell) copying" where
  "DatamoverSessionStatus_DeepCopyInto inp m = Some (inp\<lparr>stSessionInfo := stSessionInfo inp\<rparr>, m)"

definition DatamoverSessionStatus_DeepCopy :: "(addr option, 'x cell) copying" where
  "DatamoverSessionStatus_DeepCopy = ptr_copy as_Status StatusCell DatamoverSessionStatus_DeepCopyInto"

definition DatamoverSession_DeepCopyInto :: "'x foreign \<Rightarrow> ('x DatamoverSessionObj, 'x cell) copying" where
  "DatamoverSession_DeepCopyInto F inp m =
     Option.bind (fn_DeepCopyInto F (hdMeta inp) m) (\<lambda>(objectMeta, m1).
     Option.bind (DatamoverSessionSpec_DeepCopyInto F (hdSpec inp) m1) (\<lambda>(spec, m2).
     Some (inp\<lparr>hdMeta := objectMeta, hdSpec := spec, hdStatus := hdStatus inp\<rparr>, m2)))"

definition DatamoverSession_DeepCopy :: "'x foreign \<Rightarrow> (addr option, 'x cell) copying" where
  "DatamoverSession_DeepCopy F = ptr_copy as_Session SessionCell (DatamoverSession_DeepCopyInto F)"

definition DatamoverSessionList_DeepCopyInto :: "'x foreign \<Rightarrow> ('x DatamoverSessionListObj, 'x cell) copying" where
  "DatamoverSessionList_DeepCopyInto F inp m =
     Option.bind (fn_DeepCopyInto F (htMeta inp) m) (\<lambda>(listMeta, m1).
     Option.bind (ptr_copy as_SessionSlice SessionSlice (list_copy (DatamoverSession_DeepCopyInto F))
        (htItems inp) m1) (\<lambda>(items, m2).
     Some (inp\<lparr>htMeta := listMeta, htItems := items\<rparr>, m2)))"

definition DatamoverSessionList_DeepCopy :: "'x foreign \<Rightarrow> (addr option, 'x cell) copying" where
  "DatamoverSessionList_DeepCopy F =
     ptr_copy as_SessionList SessionListCell (DatamoverSessionList_DeepCopyInto F)"

text \<open>
  \<open>DeepCopyObject\<close> returns an interface value: nil, or the pointer with its dynamic type.  The
  test for nil keeps a typed nil pointer from becoming a non-nil interface value.
\<close>

datatype Object = NilObject | SessionObject "addr option" | SessionListObject "addr option"

definition DatamoverSession_DeepCopyObject ::
  "'x foreign \<Rightarrow> addr option \<Rightarrow> 'x cell mem \<Rightarrow> (Object \<times> 'x cell mem) option" where
  "DatamoverSession_DeepCopyObject F inp m =
     Option.bind (DatamoverSession_DeepCopy F inp m) (\<lambda>(c, m').
       if c \<noteq> None then Some (SessionObject c, m') else Some (NilObject, m'))"

definition DatamoverSessionList_DeepCopyObject ::
  "'x foreign \<Rightarrow> addr option \<Rightarrow> 'x cell mem \<Rightarrow> (Object \<times> 'x cell mem) option" where
  "DatamoverSessionList_DeepCopyObject F inp m =
     Option.bind (DatamoverSessionList_DeepCopy F inp m) (\<lambda>(c, m').
       if c \<noteq> None then Some (SessionListObject c, m') else Some (NilObject, m'))"

section \<open>Shapes and contracts\<close>

definition slice_elems :: "'a list option \<Rightarrow> 'a list" where
  "slice_elems v = (case v of None \<Rightarrow> [] | Some xs \<Rightarrow> xs)"

definition struct_ptr_shape :: "'x foreign \<Rightarrow> (addr option, 'x cell, foreign_view option) shape" where
  "struct_ptr_shape F = ptr_shape as_Foreign (fn_shape F)"

definition structs_shape :: "'x foreign \<Rightarrow> (addr option, 'x cell, foreign_view list option) shape" where
  "structs_shape F = ptr_shape as_ForeignSlice (list_shape (fn_shape F))"

definition secrets_shape :: "'x foreign \<Rightarrow> (addr option, 'x cell, (string \<times> foreign_view) list option) shape" where
  "secrets_shape F = ptr_shape as_ForeignMap (list_shape (pair_shape val_shape (fn_shape F)))"

definition strings_shape :: "(addr option, 'x cell, smap option) shape" where
  "strings_shape = ptr_shape as_StringMap (list_shape val_shape)"

definition flag_shape :: "(addr option, 'x cell, bool option) shape" where
  "flag_shape = ptr_shape as_Bool val_shape"

text \<open>The override map is shared between an object and its copies.\<close>

definition override_shape :: "(addr option, 'x cell, opaque option) shape" where
  "override_shape = \<lparr>sh_owned = \<lambda>m p. {}, sh_shared = \<lambda>m p. set_option p,
     sh_view = \<lambda>m p. target as_JSONMap m p,
     sh_ok = \<lambda>m p. (case p of None \<Rightarrow> True | Some a \<Rightarrow> a < memNext m \<and> as_JSONMap (memCell m a) \<noteq> None),
     sh_tree = \<lambda>m p. True\<rparr>"

definition policy_view :: "NetworkPolicyConfigObj \<Rightarrow> foreign_view list option \<Rightarrow> NetworkPolicyConfig" where
  "policy_view o1 from = \<lparr>npcEnabled = hnEnabled o1, npcFrom = map asOpaque (slice_elems from)\<rparr>"

definition policy_shape :: "'x foreign \<Rightarrow> (NetworkPolicyConfigObj, 'x cell, NetworkPolicyConfig) shape" where
  "policy_shape F = struct_shape hnFrom policy_view (structs_shape F)"

definition options_parts where
  "options_parts o1 = (hoResources o1, hoExtraVolumes o1, hoLabels o1, hoAnnotations o1, hoExtraContainers o1,
     hoPodSecurityContext o1, hoContainerSecurityContext o1, hoShareProcessNamespace o1, hoPodOverride o1)"

definition options_view where
  "options_view o1 = (\<lambda>(resources, volumes, labels, annotations, containers, psc, csc, share, override).
     \<lparr>poResources = asOpaque resources, poExtraVolumes = map asVolume (slice_elems volumes),
      poLabels = labels, poAnnotations = annotations,
      poExtraContainers = map asContainer (slice_elems containers),
      poPriorityClassName = hoPriorityClassName o1, poPodSecurityContext = map_option asOpaque psc,
      poContainerSecurityContext = map_option asOpaque csc, poShareProcessNamespace = share,
      poServiceAccount = hoServiceAccount o1, poImagePullPolicy = hoImagePullPolicy o1,
      poPodOverride = override\<rparr>)"

definition options_shape :: "'x foreign \<Rightarrow> ('x PodOptionsObj, 'x cell, PodOptions) shape" where
  "options_shape F = struct_shape options_parts options_view
     (pair_shape (fn_shape F) (pair_shape (structs_shape F) (pair_shape strings_shape
       (pair_shape strings_shape (pair_shape (structs_shape F) (pair_shape (struct_ptr_shape F)
         (pair_shape (struct_ptr_shape F) (pair_shape flag_shape override_shape))))))))"

definition lifecycle_parts where
  "lifecycle_parts o1 = (hlServicePorts o1, hlNetworkPolicy o1, hlPodOptions o1, hlStartupProbe o1, hlLivenessProbe o1)"

definition lifecycle_view where
  "lifecycle_view o1 = (\<lambda>(ports, policy, options, startup, liveness).
     \<lparr>lcImage = hlImage o1, lcServicePorts = map asPort (slice_elems ports), lcNetworkPolicy = policy,
      lcPodOptions = options, lcStartupProbe = map_option asProbe startup,
      lcLivenessProbe = map_option asProbe liveness\<rparr>)"

definition lifecycle_shape :: "'x foreign \<Rightarrow> ('x LifecycleConfigObj, 'x cell, LifecycleConfig) shape" where
  "lifecycle_shape F = struct_shape lifecycle_parts lifecycle_view
     (pair_shape (structs_shape F) (pair_shape (policy_shape F) (pair_shape (options_shape F)
       (pair_shape (struct_ptr_shape F) (struct_ptr_shape F)))))"

definition spec_parts where
  "spec_parts o1 = (hsConfiguration o1, hsConfigurationSecrets o1, hsClientSecretRef o1, hsEnv o1, hsLifecycleConfig o1)"

definition spec_view where
  "spec_view o1 = (\<lambda>(config, secrets, client, env, lifecycle).
     \<lparr>dssImplementation = hsImplementation o1, dssConfiguration = map_option asConfigMap config,
      dssConfigurationSecrets = map_option (map (\<lambda>(k, v). (k, asSecret v))) secrets,
      dssClientSecretRef = map_option asSecret client, dssEnv = env, dssLifecycleConfig = lifecycle\<rparr>)"

definition spec_shape :: "'x foreign \<Rightarrow> (DatamoverSessionSpecObj, 'x cell, DatamoverSessionSpec) shape" where
  "spec_shape F = struct_shape spec_parts spec_view
     (pair_shape (struct_ptr_shape F) (pair_shape (secrets_shape F) (pair_shape (struct_ptr_shape F)
       (pair_shape strings_shape (ptr_shape as_Lifecycle (lifecycle_shape F))))))"

definition session_view where
  "session_view o1 = (\<lambda>(meta, spec). \<lparr>dsKind = hdKind o1, dsAPIVersion = hdAPIVersion o1,
     dsMeta = asMeta meta, dsSpec = spec, dsStatus = hdStatus o1\<rparr>)"

definition session_shape :: "'x foreign \<Rightarrow> ('x DatamoverSessionObj, 'x cell, DatamoverSession) shape" where
  "session_shape F = struct_shape (\<lambda>o1. (hdMeta o1, hdSpec o1)) session_view
     (pair_shape (fn_shape F) (spec_shape F))"

definition session_list_view where
  "session_list_view o1 = (\<lambda>(meta, items). (htKind o1, htAPIVersion o1, asOpaque meta, slice_elems items))"

definition session_list_shape where
  "session_list_shape F = struct_shape (\<lambda>o1. (htMeta o1, htItems o1)) session_list_view
     (pair_shape (fn_shape F) (ptr_shape as_SessionSlice (list_shape (session_shape F))))"

definition session_ptr_shape :: "'x foreign \<Rightarrow> (addr option, 'x cell, DatamoverSession option) shape" where
  "session_ptr_shape F = ptr_shape as_Session (session_shape F)"

lemma override_copier: "copier PodOverride_DeepCopy override_shape"
proof (unfold_locales, goal_cases)
  case (1 m p)
  then show ?case by (cases p) (auto simp: override_shape_def)
next
  case (2 m p m')
  then show ?case by (cases p) (auto simp: override_shape_def reads_same_def agree_def)
next
  case (3 m p)
  show ?case
  proof (cases p)
    case None
    then show ?thesis by (simp add: PodOverride_DeepCopy_def copied_def override_shape_def)
  next
    case (Some a)
    let ?m' = "assign (memNext m) (OverrideCell p) (snd (alloc (OverrideCell None) m))"
    have "extends m ?m'" by (intro extends_assign extends_alloc) simp
    moreover have "a < memNext m" using 3 Some by (simp add: override_shape_def)
    ultimately have "copied override_shape m p ?m' p" using 3 Some
      by (auto simp: copied_def override_shape_def extends_def)
    then show ?thesis using Some by (auto simp: PodOverride_DeepCopy_def PodOverride_DeepCopyInto_def split_def)
  qed
qed

text \<open>The methods as compositions of the copy functions of their fields.\<close>

lemma bind_split: "Option.bind r (\<lambda>(x, m). f x m) = (case r of None \<Rightarrow> None | Some (x, m) \<Rightarrow> f x m)"
  by (cases r) auto

lemmas copying_defs = fun_eq_iff struct_copy_def pair_copy_def bind_split

lemma NetworkPolicyConfig_fields:
  "NetworkPolicyConfig_DeepCopyInto F = struct_copy hnFrom (\<lambda>o1 from. o1\<lparr>hnFrom := from\<rparr>) (copy_structs F)"
  by (simp add: copying_defs NetworkPolicyConfig_DeepCopyInto_def split: option.split)

lemma PodOptions_fields:
  "PodOptions_DeepCopyInto F = struct_copy options_parts
     (\<lambda>o1 (resources, volumes, labels, annotations, containers, psc, csc, share, override).
        o1\<lparr>hoResources := resources, hoExtraVolumes := volumes, hoLabels := labels, hoAnnotations := annotations,
          hoExtraContainers := containers, hoPodSecurityContext := psc, hoContainerSecurityContext := csc,
          hoShareProcessNamespace := share, hoPodOverride := override\<rparr>)
     (pair_copy (fn_DeepCopyInto F) (pair_copy (copy_structs F) (pair_copy copy_strings (pair_copy copy_strings
       (pair_copy (copy_structs F) (pair_copy (copy_struct F) (pair_copy (copy_struct F)
         (pair_copy copy_flag PodOverride_DeepCopy))))))))"
  by (simp add: copying_defs PodOptions_DeepCopyInto_def options_parts_def split: option.split)

lemma LifecycleConfig_fields:
  "LifecycleConfig_DeepCopyInto F = struct_copy lifecycle_parts
     (\<lambda>o1 (ports, policy, options, startup, liveness).
        o1\<lparr>hlServicePorts := ports, hlNetworkPolicy := policy, hlPodOptions := options,
          hlStartupProbe := startup, hlLivenessProbe := liveness\<rparr>)
     (pair_copy (copy_structs F) (pair_copy (NetworkPolicyConfig_DeepCopyInto F)
       (pair_copy (PodOptions_DeepCopyInto F) (pair_copy (copy_struct F) (copy_struct F)))))"
  by (simp add: copying_defs LifecycleConfig_DeepCopyInto_def lifecycle_parts_def split: option.split)

lemma DatamoverSessionSpec_fields:
  "DatamoverSessionSpec_DeepCopyInto F = struct_copy spec_parts
     (\<lambda>o1 (config, secrets, client, env, lifecycle).
        o1\<lparr>hsConfiguration := config, hsConfigurationSecrets := secrets, hsClientSecretRef := client,
          hsEnv := env, hsLifecycleConfig := lifecycle\<rparr>)
     (pair_copy (copy_struct F) (pair_copy (copy_secrets F) (pair_copy (copy_struct F)
       (pair_copy copy_strings (LifecycleConfig_DeepCopy F)))))"
  by (simp add: copying_defs DatamoverSessionSpec_DeepCopyInto_def spec_parts_def split: option.split)

lemma DatamoverSession_fields:
  "DatamoverSession_DeepCopyInto F = struct_copy (\<lambda>o1. (hdMeta o1, hdSpec o1))
     (\<lambda>o1 (meta, spec). o1\<lparr>hdMeta := meta, hdSpec := spec\<rparr>)
     (pair_copy (fn_DeepCopyInto F) (DatamoverSessionSpec_DeepCopyInto F))"
  by (simp add: copying_defs DatamoverSession_DeepCopyInto_def split: option.split)

lemma DatamoverSessionList_fields:
  "DatamoverSessionList_DeepCopyInto F = struct_copy (\<lambda>o1. (htMeta o1, htItems o1))
     (\<lambda>o1 (meta, items). o1\<lparr>htMeta := meta, htItems := items\<rparr>)
     (pair_copy (fn_DeepCopyInto F)
       (ptr_copy as_SessionSlice SessionSlice (list_copy (DatamoverSession_DeepCopyInto F))))"
  by (simp add: copying_defs DatamoverSessionList_DeepCopyInto_def split: option.split)

text \<open>Every copy function keeps its contract, given that the third-party ones do.\<close>

lemma foreign_copier: "foreign_law F \<Longrightarrow> copier (fn_DeepCopyInto F) (fn_shape F)"
  by (simp add: foreign_law_def deep_copier_def)

lemma block_copiers:
  assumes "foreign_law F"
  shows "copier (copy_struct F) (struct_ptr_shape F)" "copier (copy_structs F) (structs_shape F)"
    "copier (copy_secrets F) (secrets_shape F)"
  unfolding copy_struct_def struct_ptr_shape_def copy_structs_def structs_shape_def copy_secrets_def secrets_shape_def
  by (intro copier_intros foreign_copier [OF assms], simp)+

lemma plain_copiers: "copier copy_strings strings_shape" "copier copy_flag flag_shape"
  unfolding copy_strings_def strings_shape_def copy_flag_def flag_shape_def
  by (intro copier_intros, simp)+

lemma api_copiers:
  assumes "foreign_law F"
  shows "copier (NetworkPolicyConfig_DeepCopyInto F) (policy_shape F)"
    and "copier (PodOptions_DeepCopyInto F) (options_shape F)"
    and "copier (LifecycleConfig_DeepCopyInto F) (lifecycle_shape F)"
    and "copier (DatamoverSessionSpec_DeepCopyInto F) (spec_shape F)"
    and "copier (DatamoverSession_DeepCopyInto F) (session_shape F)"
    and "copier (DatamoverSessionList_DeepCopyInto F) (session_list_shape F)"
proof -
  note parts = foreign_copier [OF assms] block_copiers [OF assms] plain_copiers override_copier
  show policy: "copier (NetworkPolicyConfig_DeepCopyInto F) (policy_shape F)"
    unfolding NetworkPolicyConfig_fields policy_shape_def
    by (intro struct_copier parts) (simp_all add: policy_view_def)
  show options: "copier (PodOptions_DeepCopyInto F) (options_shape F)"
    unfolding PodOptions_fields options_shape_def
    by (intro struct_copier pair_copier parts) (auto simp: options_parts_def options_view_def)
  show lifecycle: "copier (LifecycleConfig_DeepCopyInto F) (lifecycle_shape F)"
    unfolding LifecycleConfig_fields lifecycle_shape_def
    by (intro struct_copier pair_copier parts policy options) (auto simp: lifecycle_parts_def lifecycle_view_def)
  show spec: "copier (DatamoverSessionSpec_DeepCopyInto F) (spec_shape F)"
    unfolding DatamoverSessionSpec_fields spec_shape_def LifecycleConfig_DeepCopy_def
    by (intro struct_copier pair_copier ptr_copier parts lifecycle) (auto simp: spec_parts_def spec_view_def)
  show session: "copier (DatamoverSession_DeepCopyInto F) (session_shape F)"
    unfolding DatamoverSession_fields session_shape_def
    by (intro struct_copier pair_copier parts spec) (auto simp: session_view_def)
  show "copier (DatamoverSessionList_DeepCopyInto F) (session_list_shape F)"
    unfolding DatamoverSessionList_fields session_list_shape_def
    by (intro struct_copier pair_copier ptr_copier list_copier parts session) (auto simp: session_list_view_def)
qed

lemma session_copier:
  "foreign_law F \<Longrightarrow> copier (DatamoverSession_DeepCopy F) (session_ptr_shape F)"
  unfolding DatamoverSession_DeepCopy_def session_ptr_shape_def
  by (intro ptr_copier api_copiers) simp_all

section \<open>The writes of MakePodSpec\<close>

text \<open>
  \<open>MakePodSpec\<close> receives the session struct by value; its maps are those of the caller.  These
  are its writes: a nil map is replaced by a new one, any other is updated in place.
\<close>

definition map_or_make :: "addr option \<Rightarrow> 'x cell mem \<Rightarrow> addr \<times> 'x cell mem" where
  "map_or_make p m = (case p of None \<Rightarrow> alloc (StringMap []) m | Some a \<Rightarrow> (a, m))"

definition map_assign :: "addr \<Rightarrow> string \<Rightarrow> string \<Rightarrow> 'x cell mem \<Rightarrow> 'x cell mem option" where
  "map_assign a k v m =
     map_option (\<lambda>al. assign a (StringMap (AList.update k v al)) m) (as_StringMap (memCell m a))"

definition writeLabels :: "'x foreign \<Rightarrow> 'x DatamoverSessionObj \<Rightarrow> 'x LifecycleConfigObj \<Rightarrow>
  'x cell mem \<Rightarrow> (addr \<times> 'x cell mem) option" where
  "writeLabels F s lc m =
     (let (labels, m1) = map_or_make (hoLabels (hlPodOptions lc)) m;
          name = omName (asMeta (sh_view (fn_shape F) m1 (hdMeta s))) in
      Option.bind (map_assign labels DatamoverSessionSelectorLabel name m1) (\<lambda>m2.
      Option.bind (map_assign labels DatamoverSessionLabel name m2) (\<lambda>m3. Some (labels, m3))))"

definition writeEnv :: "'z lib_scheme \<Rightarrow> 'x foreign \<Rightarrow> 'x DatamoverSessionObj \<Rightarrow> 'x LifecycleConfigObj \<Rightarrow>
  'x cell mem \<Rightarrow> (addr \<times> 'x cell mem) option" where
  "writeEnv L F s lc m =
     (let (env, m1) = map_or_make (hsEnv (hdSpec s)) m;
          ports = map asPort (slice_elems (sh_view (structs_shape F) m1 (hlServicePorts lc))) in
      Option.bind (map_assign env ImplementationEnvVarName (hsImplementation (hdSpec s)) m1) (\<lambda>m2.
      Option.bind (map_assign env ProtocolsEnvVarName (formatProtocolsVar L ports) m2) (\<lambda>m3. Some (env, m3))))"

definition MakePodSpec_writes :: "'z lib_scheme \<Rightarrow> 'x foreign \<Rightarrow> 'x DatamoverSessionObj \<Rightarrow>
  'x cell mem \<Rightarrow> ((addr \<times> addr) \<times> 'x cell mem) option" where
  "MakePodSpec_writes L F s m =
     Option.bind (target as_Lifecycle m (hsLifecycleConfig (hdSpec s))) (\<lambda>lc.
     Option.bind (writeLabels F s lc m) (\<lambda>(labels, m1).
     Option.bind (writeEnv L F s lc m1) (\<lambda>(env, m2). Some ((labels, env), m2))))"

lemma assign_assign [simp]: "assign a c (assign a d m) = assign a c m"
  by (simp add: assign_def)

lemma map_assign_twice:
  assumes "as_StringMap (memCell m a) = Some al"
  shows "Option.bind (map_assign a k v m) (\<lambda>m2. Option.bind (map_assign a k' v' m2) (\<lambda>m3. Some (a, m3)))
    = Some (a, assign a (StringMap (AList.update k' v' (AList.update k v al))) m)"
  using assms by (simp add: map_assign_def)

lemma write_strings: "field_write strings_shape m (Some a) a (StringMap al) (Some al)"
  by (auto simp: field_write_def strings_shape_def Let_def split: option.splits)

lemma strings_ok:
  "sh_ok strings_shape m (Some a) \<Longrightarrow> a < memNext m \<and> (\<exists>al. as_StringMap (memCell m a) = Some al)"
  by (auto simp: strings_shape_def split: option.splits)

lemma strings_owned: "a \<in> sh_owned strings_shape m (Some a)"
  by (simp add: strings_shape_def)

lemma override_shared:
  "sh_ok override_shape m p \<Longrightarrow> as_StringMap (memCell m a) = Some al \<Longrightarrow> a \<notin> sh_shared override_shape m p"
  by (auto simp: override_shape_def as_StringMap_def as_JSONMap_def split: option.splits cell.splits)

text \<open>
  A map of strings inside an object whose parts do not overlap: writing it changes that map in
  the view and nothing else.  First the labels inside the pod options, then the labels and the
  environment inside a session.
\<close>

lemma nothing_shared:
  assumes "foreign_law F"
  shows "sh_shared (fn_shape F) m x = {}" "sh_shared (structs_shape F) m p = {}"
    "sh_shared (struct_ptr_shape F) m p = {}" "sh_shared (secrets_shape F) m p = {}"
    "sh_shared strings_shape m p = {}" "sh_shared flag_shape m p = {}" "sh_shared (policy_shape F) m np = {}"
proof -
  have none: "\<And>x. sh_shared (fn_shape F) m x = {}"
    using assms by (simp add: foreign_law_def deep_copier.nothing_shared)
  then show structs: "sh_shared (fn_shape F) m x = {}" "sh_shared (structs_shape F) m p = {}"
    "sh_shared (struct_ptr_shape F) m p = {}" "sh_shared (secrets_shape F) m p = {}"
    "sh_shared strings_shape m p = {}" "sh_shared flag_shape m p = {}" for p
    by (auto simp: structs_shape_def struct_ptr_shape_def secrets_shape_def strings_shape_def flag_shape_def
        split: option.splits)
  then show "sh_shared (policy_shape F) m np = {}" by (simp add: policy_shape_def)
qed

lemma write_labels:
  assumes F: "foreign_law F" and la: "hoLabels o1 = Some a"
    and ov: "a \<notin> sh_shared override_shape m (hoPodOverride o1)"
  shows "field_write (options_shape F) m o1 a (StringMap al) ((sh_view (options_shape F) m o1)\<lparr>poLabels := Some al\<rparr>)"
proof -
  note parts = foreign_copier [OF F] block_copiers [OF F] plain_copiers override_copier pair_copier
  note none = nothing_shared [OF F]
  have "field_write (pair_shape (fn_shape F) (pair_shape (structs_shape F) (pair_shape strings_shape
       (pair_shape strings_shape (pair_shape (structs_shape F) (pair_shape (struct_ptr_shape F)
         (pair_shape (struct_ptr_shape F) (pair_shape flag_shape override_shape)))))))) m (options_parts o1)
      a (StringMap al) (sh_view (fn_shape F) m (hoResources o1), sh_view (structs_shape F) m (hoExtraVolumes o1),
        Some al, sh_view (pair_shape strings_shape (pair_shape (structs_shape F) (pair_shape (struct_ptr_shape F)
         (pair_shape (struct_ptr_shape F) (pair_shape flag_shape override_shape))))) m
         (hoAnnotations o1, hoExtraContainers o1, hoPodSecurityContext o1, hoContainerSecurityContext o1,
          hoShareProcessNamespace o1, hoPodOverride o1))"
    unfolding options_parts_def la
    by (rule field_write_right field_write_left write_strings parts | simp add: none ov)+
  then show ?thesis
    unfolding options_shape_def by (rule field_write_struct) (simp add: options_parts_def options_view_def)
qed

lemma write_spec:
  assumes F: "foreign_law F" and "field_write (spec_shape F) m (hdSpec s) a w u"
  shows "field_write (session_shape F) m s a w ((sh_view (session_shape F) m s)\<lparr>dsSpec := u\<rparr>)"
proof -
  have "field_write (pair_shape (fn_shape F) (spec_shape F)) m (hdMeta s, hdSpec s) a w
      (sh_view (fn_shape F) m (hdMeta s), u)"
    by (rule field_write_right [OF foreign_copier [OF F] _ assms(2)]) (simp add: nothing_shared [OF F])
  from field_write_struct [where dest = "\<lambda>o1. (hdMeta o1, hdSpec o1)" and x = s and vw = session_view, OF this refl]
  show ?thesis by (simp add: session_shape_def session_view_def)
qed

lemma write_session_labels:
  assumes F: "foreign_law F" and lc: "hsLifecycleConfig (hdSpec s) = Some l" "as_Lifecycle (memCell m l) = Some lc"
    and la: "hoLabels (hlPodOptions lc) = Some a" "a \<notin> sh_shared override_shape m (hoPodOverride (hlPodOptions lc))"
    and v: "sh_view (lifecycle_shape F) m lc = v"
  shows "field_write (session_shape F) m s a (StringMap al)
    ((sh_view (session_shape F) m s)\<lparr>dsSpec := (dsSpec (sh_view (session_shape F) m s))\<lparr>dssLifecycleConfig :=
       Some (v\<lparr>lcPodOptions := (lcPodOptions v)\<lparr>poLabels := Some al\<rparr>\<rparr>)\<rparr>\<rparr>)"
proof -
  note parts = foreign_copier [OF F] block_copiers [OF F] plain_copiers api_copiers [OF F] pair_copier
  note none = nothing_shared [OF F]
  have "field_write (pair_shape (structs_shape F) (pair_shape (policy_shape F) (pair_shape (options_shape F)
       (pair_shape (struct_ptr_shape F) (struct_ptr_shape F))))) m (lifecycle_parts lc) a (StringMap al)
      (sh_view (structs_shape F) m (hlServicePorts lc), sh_view (policy_shape F) m (hlNetworkPolicy lc),
       (sh_view (options_shape F) m (hlPodOptions lc))\<lparr>poLabels := Some al\<rparr>,
       sh_view (pair_shape (struct_ptr_shape F) (struct_ptr_shape F)) m (hlStartupProbe lc, hlLivenessProbe lc))"
    unfolding lifecycle_parts_def
    by (rule field_write_right field_write_left write_labels [OF F la] parts | simp add: none)+
  then have "field_write (lifecycle_shape F) m lc a (StringMap al) (v\<lparr>lcPodOptions := (lcPodOptions v)\<lparr>poLabels := Some al\<rparr>\<rparr>)"
    unfolding lifecycle_shape_def v [symmetric]
    by (rule field_write_struct) (simp add: lifecycle_shape_def lifecycle_parts_def lifecycle_view_def)
  then have ptr: "field_write (ptr_shape as_Lifecycle (lifecycle_shape F)) m (hsLifecycleConfig (hdSpec s)) a (StringMap al)
      (Some (v\<lparr>lcPodOptions := (lcPodOptions v)\<lparr>poLabels := Some al\<rparr>\<rparr>))"
    unfolding lc(1) by (rule field_write_ptr [where rd = as_Lifecycle, OF lc(2)])
  have "field_write (pair_shape (struct_ptr_shape F) (pair_shape (secrets_shape F) (pair_shape (struct_ptr_shape F)
       (pair_shape strings_shape (ptr_shape as_Lifecycle (lifecycle_shape F)))))) m (spec_parts (hdSpec s)) a (StringMap al)
      (sh_view (struct_ptr_shape F) m (hsConfiguration (hdSpec s)), sh_view (secrets_shape F) m (hsConfigurationSecrets (hdSpec s)),
       sh_view (struct_ptr_shape F) m (hsClientSecretRef (hdSpec s)), sh_view strings_shape m (hsEnv (hdSpec s)),
       Some (v\<lparr>lcPodOptions := (lcPodOptions v)\<lparr>poLabels := Some al\<rparr>\<rparr>))"
    unfolding spec_parts_def by (rule field_write_right ptr parts | simp add: none)+
  then have "field_write (spec_shape F) m (hdSpec s) a (StringMap al)
      ((sh_view (spec_shape F) m (hdSpec s))\<lparr>dssLifecycleConfig := Some (v\<lparr>lcPodOptions := (lcPodOptions v)\<lparr>poLabels := Some al\<rparr>\<rparr>)\<rparr>)"
    unfolding spec_shape_def by (rule field_write_struct) (simp add: spec_parts_def spec_view_def)
  then have "field_write (session_shape F) m s a (StringMap al)
      ((sh_view (session_shape F) m s)\<lparr>dsSpec := (sh_view (spec_shape F) m (hdSpec s))\<lparr>dssLifecycleConfig := Some (v\<lparr>lcPodOptions := (lcPodOptions v)\<lparr>poLabels := Some al\<rparr>\<rparr>)\<rparr>\<rparr>)"
    by (rule write_spec [OF F])
  then show ?thesis by (simp add: session_shape_def session_view_def)
qed

lemma write_session_env:
  assumes F: "foreign_law F" and e: "hsEnv (hdSpec s) = Some a"
    and ov: "a \<notin> sh_shared (ptr_shape as_Lifecycle (lifecycle_shape F)) m (hsLifecycleConfig (hdSpec s))"
  shows "field_write (session_shape F) m s a (StringMap al)
    ((sh_view (session_shape F) m s)\<lparr>dsSpec := (dsSpec (sh_view (session_shape F) m s))\<lparr>dssEnv := Some al\<rparr>\<rparr>)"
proof -
  note parts = foreign_copier [OF F] block_copiers [OF F] plain_copiers api_copiers [OF F]
  note none = nothing_shared [OF F]
  have lc: "copier (LifecycleConfig_DeepCopy F) (ptr_shape as_Lifecycle (lifecycle_shape F))"
    unfolding LifecycleConfig_DeepCopy_def by (intro ptr_copier parts) simp
  have "field_write (pair_shape (struct_ptr_shape F) (pair_shape (secrets_shape F) (pair_shape (struct_ptr_shape F)
       (pair_shape strings_shape (ptr_shape as_Lifecycle (lifecycle_shape F)))))) m (spec_parts (hdSpec s)) a (StringMap al)
      (sh_view (struct_ptr_shape F) m (hsConfiguration (hdSpec s)), sh_view (secrets_shape F) m (hsConfigurationSecrets (hdSpec s)),
       sh_view (struct_ptr_shape F) m (hsClientSecretRef (hdSpec s)), Some al,
       sh_view (ptr_shape as_Lifecycle (lifecycle_shape F)) m (hsLifecycleConfig (hdSpec s)))"
    unfolding spec_parts_def e
    by (rule field_write_right field_write_left [OF lc ov] write_strings parts | simp only: none empty_iff not_False_eq_True)+
  then have "field_write (spec_shape F) m (hdSpec s) a (StringMap al)
      ((sh_view (spec_shape F) m (hdSpec s))\<lparr>dssEnv := Some al\<rparr>)"
    unfolding spec_shape_def by (rule field_write_struct) (simp add: spec_parts_def spec_view_def)
  then have "field_write (session_shape F) m s a (StringMap al)
      ((sh_view (session_shape F) m s)\<lparr>dsSpec := (sh_view (spec_shape F) m (hdSpec s))\<lparr>dssEnv := Some al\<rparr>\<rparr>)"
    by (rule write_spec [OF F])
  then show ?thesis by (simp add: session_shape_def session_view_def)
qed

lemma session_maps:
  assumes F: "foreign_law F" and ok: "sh_ok (session_shape F) m s" and tree: "sh_tree (session_shape F) m s"
    and lc: "hsLifecycleConfig (hdSpec s) = Some l" "as_Lifecycle (memCell m l) = Some lc"
  shows "sh_ok strings_shape m (hsEnv (hdSpec s))" "sh_ok strings_shape m (hoLabels (hlPodOptions lc))"
    "sh_ok override_shape m (hoPodOverride (hlPodOptions lc))" "sh_ok (structs_shape F) m (hlServicePorts lc)"
    "l < memNext m" "set_option (hsEnv (hdSpec s)) \<inter> set_option (hoLabels (hlPodOptions lc)) = {}"
    "set_option (hoLabels (hlPodOptions lc)) \<inter> ({l} \<union> sh_owned (structs_shape F) m (hlServicePorts lc)) = {}"
  using ok tree lc
  by (auto simp: session_shape_def spec_shape_def spec_parts_def lifecycle_shape_def lifecycle_parts_def
      options_shape_def options_parts_def strings_shape_def)

lemma map_step:
  assumes "sh_ok strings_shape m p"
  shows "(let (a, m1) = map_or_make p m in Option.bind (map_assign a k v m1) (\<lambda>m2.
      Option.bind (map_assign a k' v' m2) (\<lambda>m3. Some (a, m3)))) =
    Some (fst (map_or_make p m), assign (fst (map_or_make p m))
      (StringMap (AList.update k' v' (AList.update k v (map_or_new (sh_view strings_shape m p))))) (snd (map_or_make p m)))"
proof (cases p)
  case None
  then show ?thesis
    using map_assign_twice [of "snd (alloc (StringMap []) m)" "memNext m" "[]" k v k' v']
    by (simp add: map_or_make_def split_def map_or_new_def strings_shape_def)
next
  case (Some a)
  then obtain al where al: "as_StringMap (memCell m a) = Some al" using strings_ok assms by blast
  then show ?thesis using Some map_assign_twice [OF al]
    by (simp add: map_or_make_def map_or_new_def strings_shape_def)
qed

lemma map_or_make_fresh:
  assumes "map_or_make None m = (a, m1)"
  shows "a = memNext m \<and> extends m (assign a c m1) \<and> agree (- {a}) m (assign a c m1)"
  using extends_assign [OF extends_alloc [of m "StringMap []"], of a c] assms
  by (auto simp: map_or_make_def alloc_def agree_def assign_def split: if_splits)

lemma session_copier_into: "foreign_law F \<Longrightarrow> copier (DatamoverSession_DeepCopyInto F) (session_shape F)"
  by (rule api_copiers)

text \<open>The labels are written, and the session reads with the new labels where it had a map.\<close>

lemma writeLabels_effect:
  assumes F: "foreign_law F" and ok: "sh_ok (session_shape F) m s" and tree: "sh_tree (session_shape F) m s"
    and lc: "hsLifecycleConfig (hdSpec s) = Some l" "as_Lifecycle (memCell m l) = Some lc"
    and S: "S = sh_view (session_shape F) m s" "v = sh_view (lifecycle_shape F) m lc"
  shows "\<exists>a m1. writeLabels F s lc m = Some (a, m1) \<and> as_StringMap (memCell m1 a) = Some (podLabels S v) \<and>
    a \<in> set_option (hoLabels (hlPodOptions lc)) \<union> {memNext m} \<and> a < memNext m1 \<and> agree (- {a}) m m1 \<and>
    sh_ok (session_shape F) m1 s \<and> sh_tree (session_shape F) m1 s \<and>
    sh_view (session_shape F) m1 s = S\<lparr>dsSpec := (dsSpec S)\<lparr>dssLifecycleConfig := Some (v\<lparr>lcPodOptions :=
       (lcPodOptions v)\<lparr>poLabels := map_option (\<lambda>_. podLabels S v) (poLabels (lcPodOptions v))\<rparr>\<rparr>)\<rparr>\<rparr>"
proof -
  note maps = session_maps [OF F ok tree lc]
  let ?p = "hoLabels (hlPodOptions lc)"
  obtain a m1 where am: "map_or_make ?p m = (a, m1)" by force
  have labels: "poLabels (lcPodOptions v) = sh_view strings_shape m ?p"
    by (simp add: S lifecycle_shape_def lifecycle_parts_def lifecycle_view_def options_shape_def
        options_parts_def options_view_def)
  have view_lc: "dssLifecycleConfig (dsSpec S) = Some v"
    using lc by (simp add: S session_shape_def session_view_def spec_shape_def spec_parts_def spec_view_def)
  have name: "dsName S = omName (asMeta (sh_view (fn_shape F) m (hdMeta s)))"
    by (simp add: S session_shape_def session_view_def)
  have meta_ok: "sh_ok (fn_shape F) m (hdMeta s)" using ok by (simp add: session_shape_def)
  have "sh_view (fn_shape F) m1 (hdMeta s) = sh_view (fn_shape F) m (hdMeta s)"
    using copier.frame_extends [OF foreign_copier [OF F] meta_ok, of m1] am extends_alloc
    by (cases ?p) (auto simp: map_or_make_def reads_same_def alloc_def extends_def)
  then have w: "writeLabels F s lc m = Some (a, assign a (StringMap (podLabels S v)) m1)"
    using map_step [OF maps(2)] am by (simp add: writeLabels_def podLabels_def name labels Let_def)
  show ?thesis
  proof (cases ?p)
    case None
    note fresh = map_or_make_fresh [OF am [unfolded None], of "StringMap (podLabels S v)"]
    then have "reads_same (session_shape F) m (assign a (StringMap (podLabels S v)) m1) s"
      using copier.frame_extends [OF session_copier_into [OF F] ok] by blast
    moreover have "poLabels (lcPodOptions v) = None" using None by (simp add: labels strings_shape_def)
    then have "v\<lparr>lcPodOptions := (lcPodOptions v)\<lparr>poLabels := map_option (\<lambda>_. podLabels S v) (poLabels (lcPodOptions v))\<rparr>\<rparr> = v"
      by simp
    ultimately show ?thesis using w fresh tree am None view_lc S
      by (auto simp: reads_same_def map_or_make_def alloc_def)
  next
    case (Some b)
    then have [simp]: "a = b" "m1 = m" using am by (simp_all add: map_or_make_def)
    obtain al where b: "b < memNext m" "as_StringMap (memCell m b) = Some al" using strings_ok [of m b] maps(2) Some by auto
    note fw = write_session_labels [OF F lc Some override_shared [OF maps(3) b(2)] S(2) [symmetric], of "podLabels S v"]
    have "poLabels (lcPodOptions v) \<noteq> None" using Some b by (simp add: labels strings_shape_def)
    then show ?thesis using w fw ok tree Some b S(1) agree_assign [of b "- {b}"]
      by (auto simp: field_write_def Let_def)
  qed
qed

text \<open>The environment is written, in a memory where the labels have been.\<close>

lemma writeEnv_effect:
  assumes F: "foreign_law F" and ok: "sh_ok (session_shape F) m s" and tree: "sh_tree (session_shape F) m s"
    and lc: "hsLifecycleConfig (hdSpec s) = Some l" "as_Lifecycle (memCell m l) = Some lc"
    and S: "S = sh_view (session_shape F) m s" "v = sh_view (lifecycle_shape F) m lc"
  shows "\<exists>a m1. writeEnv L F s lc m = Some (a, m1) \<and> as_StringMap (memCell m1 a) = Some (podEnv L S v) \<and>
    a \<in> set_option (hsEnv (hdSpec s)) \<union> {memNext m} \<and> agree (- {a}) m m1 \<and>
    sh_ok (session_shape F) m1 s \<and> sh_tree (session_shape F) m1 s \<and>
    sh_view (session_shape F) m1 s =
      S\<lparr>dsSpec := (dsSpec S)\<lparr>dssEnv := map_option (\<lambda>_. podEnv L S v) (dssEnv (dsSpec S))\<rparr>\<rparr>"
proof -
  note maps = session_maps [OF F ok tree lc]
  let ?p = "hsEnv (hdSpec s)"
  obtain a m1 where am: "map_or_make ?p m = (a, m1)" by force
  have env: "dssEnv (dsSpec S) = sh_view strings_shape m ?p"
    and impl: "dssImplementation (dsSpec S) = hsImplementation (hdSpec s)"
    by (simp_all add: S session_shape_def session_view_def spec_shape_def spec_parts_def spec_view_def)
  have ports: "lcServicePorts v = map asPort (slice_elems (sh_view (structs_shape F) m (hlServicePorts lc)))"
    by (simp add: S lifecycle_shape_def lifecycle_parts_def lifecycle_view_def)
  have "sh_view (structs_shape F) m1 (hlServicePorts lc) = sh_view (structs_shape F) m (hlServicePorts lc)"
    using copier.frame_extends [OF block_copiers(2) [OF F] maps(4), of m1] am extends_alloc
    by (cases ?p) (auto simp: map_or_make_def reads_same_def alloc_def extends_def)
  then have w: "writeEnv L F s lc m = Some (a, assign a (StringMap (podEnv L S v)) m1)"
    using map_step [OF maps(1)] am by (simp add: writeEnv_def podEnv_def env impl ports Let_def)
  show ?thesis
  proof (cases ?p)
    case None
    note fresh = map_or_make_fresh [OF am [unfolded None], of "StringMap (podEnv L S v)"]
    then have "reads_same (session_shape F) m (assign a (StringMap (podEnv L S v)) m1) s"
      using copier.frame_extends [OF session_copier_into [OF F] ok] by blast
    moreover have "dssEnv (dsSpec S) = None" using None by (simp add: env strings_shape_def)
    then have "(dsSpec S)\<lparr>dssEnv := map_option (\<lambda>_. podEnv L S v) (dssEnv (dsSpec S))\<rparr> = dsSpec S" by simp
    ultimately show ?thesis using w fresh tree am None S by (auto simp: reads_same_def map_or_make_def alloc_def)
  next
    case (Some b)
    then have [simp]: "a = b" "m1 = m" using am by (simp_all add: map_or_make_def)
    obtain al where b: "b < memNext m" "as_StringMap (memCell m b) = Some al" using strings_ok [of m b] maps(1) Some by auto
    have "b \<notin> sh_shared (ptr_shape as_Lifecycle (lifecycle_shape F)) m (hsLifecycleConfig (hdSpec s))"
      using override_shared [OF maps(3) b(2)] lc nothing_shared [OF F]
      by (simp add: lifecycle_shape_def lifecycle_parts_def options_shape_def options_parts_def)
    note fw = write_session_env [OF F Some this, of "podEnv L S v"]
    have "dssEnv (dsSpec S) \<noteq> None" using Some b by (simp add: env strings_shape_def)
    then show ?thesis using w fw ok tree Some b S(1) agree_assign [of b "- {b}"]
      by (auto simp: field_write_def Let_def)
  qed
qed

lemma podEnv_labels:
  "podEnv L (S\<lparr>dsSpec := (dsSpec S)\<lparr>dssLifecycleConfig := x\<rparr>\<rparr>) (v\<lparr>lcPodOptions := o1\<rparr>) = podEnv L S v"
  by (simp add: podEnv_def)

lemma session_lifecycle_view:
  assumes "hsLifecycleConfig (hdSpec s) = Some l" and "as_Lifecycle (memCell m l) = Some lc"
  shows "dssLifecycleConfig (dsSpec (sh_view (session_shape F) m s)) = Some (sh_view (lifecycle_shape F) m lc)"
  using assms by (simp add: session_shape_def session_view_def spec_shape_def spec_parts_def spec_view_def)

lemma MakePodSpec_writes_effect:
  assumes F: "foreign_law F" and ok: "sh_ok (session_shape F) m s" and tree: "sh_tree (session_shape F) m s"
    and S: "S = sh_view (session_shape F) m s" "dssLifecycleConfig (dsSpec S) = Some v"
  shows "\<exists>labels env m'. MakePodSpec_writes L F s m = Some ((labels, env), m') \<and>
    sh_view (session_shape F) m' s = share_maps L S v \<and>
    as_StringMap (memCell m' labels) = Some (podLabels S v) \<and>
    as_StringMap (memCell m' env) = Some (podEnv L S v) \<and> labels \<noteq> env \<and> agree (- {labels, env}) m m' \<and>
    {labels, env} \<subseteq> sh_owned (session_shape F) m s \<union> {memNext m..}"
proof -
  obtain l where l: "hsLifecycleConfig (hdSpec s) = Some l"
    using S by (cases "hsLifecycleConfig (hdSpec s)")
      (auto simp: session_shape_def session_view_def spec_shape_def spec_parts_def spec_view_def)
  then obtain lc where lc: "as_Lifecycle (memCell m l) = Some lc" "v = sh_view (lifecycle_shape F) m lc"
    using S ok by (auto simp: session_shape_def session_view_def spec_shape_def spec_parts_def spec_view_def)
  note maps = session_maps [OF F ok tree l lc(1)]
  obtain a m1 where a: "writeLabels F s lc m = Some (a, m1)" "as_StringMap (memCell m1 a) = Some (podLabels S v)"
    "a \<in> set_option (hoLabels (hlPodOptions lc)) \<union> {memNext m}" "a < memNext m1" "agree (- {a}) m m1"
    and ok1: "sh_ok (session_shape F) m1 s" "sh_tree (session_shape F) m1 s"
    and view1: "sh_view (session_shape F) m1 s = S\<lparr>dsSpec := (dsSpec S)\<lparr>dssLifecycleConfig := Some (v\<lparr>lcPodOptions :=
       (lcPodOptions v)\<lparr>poLabels := map_option (\<lambda>_. podLabels S v) (poLabels (lcPodOptions v))\<rparr>\<rparr>)\<rparr>\<rparr>"
    using writeLabels_effect [OF F ok tree l lc(1) S(1) lc(2)] by blast
  have "a \<noteq> l" using a(3) maps(5,7) by auto
  then have lc1: "as_Lifecycle (memCell m1 l) = Some lc" using a(5) lc(1) by (simp add: agree_def)
  have v1: "sh_view (lifecycle_shape F) m1 lc = v\<lparr>lcPodOptions :=
       (lcPodOptions v)\<lparr>poLabels := map_option (\<lambda>_. podLabels S v) (poLabels (lcPodOptions v))\<rparr>\<rparr>"
    using session_lifecycle_view [OF l lc1, of F] view1 by simp
  obtain e m2 where e: "writeEnv L F s lc m1 = Some (e, m2)"
    "as_StringMap (memCell m2 e) = Some (podEnv L S v)"
    "e \<in> set_option (hsEnv (hdSpec s)) \<union> {memNext m1}" "agree (- {e}) m1 m2"
    "sh_view (session_shape F) m2 s = share_maps L S v"
    using writeEnv_effect [OF F ok1 l lc1 refl refl, of L] view1 v1
    by (auto simp: podEnv_labels share_maps_def Let_def)
  have env_old: "hsEnv (hdSpec s) = Some x \<Longrightarrow> x < memNext m" for x using strings_ok maps(1) by auto
  have "a \<noteq> e" using a(3,4) e(3) maps(6) env_old by auto
  then have "as_StringMap (memCell m2 a) = Some (podLabels S v)" using a(2) e(4) by (simp add: agree_def)
  moreover have "memNext m \<le> memNext m1" using a(5) by (simp add: agree_def)
  then have "{a, e} \<subseteq> sh_owned (session_shape F) m s \<union> {memNext m..}"
    using a(3) e(3) l lc(1)
    by (auto simp: session_shape_def spec_shape_def spec_parts_def lifecycle_shape_def lifecycle_parts_def
        options_shape_def options_parts_def strings_shape_def)
  moreover have "agree (- {a, e}) m m2" using a(5) e(4) by (auto simp: agree_def)
  ultimately show ?thesis using a(1) e(1,2,5) l lc(1) \<open>a \<noteq> e\<close> by (simp add: MakePodSpec_writes_def)
qed

section \<open>Contracts as interpretations\<close>

lemma strings_deep: "deep_copier copy_strings strings_shape"
  by (rule deep_copier.intro [OF plain_copiers(1)])
    (auto simp: deep_copier_axioms_def strings_shape_def split: option.splits)

lemma flag_deep: "deep_copier copy_flag flag_shape"
  by (rule deep_copier.intro [OF plain_copiers(2)])
    (auto simp: deep_copier_axioms_def flag_shape_def split: option.splits)

interpretation string_maps: deep_copier "copy_strings :: (addr option, 'x cell) copying" strings_shape
  by (rule strings_deep)

interpretation flags: deep_copier "copy_flag :: (addr option, 'x cell) copying" flag_shape
  by (rule flag_deep)

interpretation overrides: copier "PodOverride_DeepCopy :: (addr option, 'x cell) copying" override_shape
  by (rule override_copier)

interpretation session_info: deep_copier "SessionInfo_DeepCopyInto :: (SessionInfo, 'x cell) copying" val_shape
  by unfold_locales (simp_all add: SessionInfo_DeepCopyInto_def reads_same_def copied_def)

interpretation session_status:
  deep_copier "DatamoverSessionStatus_DeepCopyInto :: (DatamoverSessionStatus, 'x cell) copying" val_shape
  by unfold_locales (simp_all add: DatamoverSessionStatus_DeepCopyInto_def reads_same_def copied_def)

text \<open>
  A concrete third-party struct: a name and a map of strings, the part of \<open>ObjectMeta\<close> that
  needs copying, with every reading taken from these two.
\<close>

type_synonym named_map = "string \<times> addr option"

definition named_map_view :: "named_map \<Rightarrow> string \<times> smap option \<Rightarrow> foreign_view" where
  "named_map_view x = (\<lambda>(n, al). \<lparr>asMeta = zero_meta\<lparr>omName := n, omLabels := al\<rparr>,
     asConfigMap = \<lparr>cmvName = n, cmvRest = zero_opaque\<rparr>, asSecret = \<lparr>svSecretName = n, svRest = zero_opaque\<rparr>,
     asPort = sample_port\<lparr>spName := n\<rparr>, asVolume = \<lparr>volName = n, volSource = EmptyDirSource []\<rparr>,
     asContainer = zero_container\<lparr>ctName := n\<rparr>,
     asProbe = \<lparr>prTimeoutSeconds = 0, prPeriodSeconds = 0, prExec = None, prRest = zero_opaque\<rparr>,
     asOpaque = Opaque n\<rparr>)"

definition named_maps :: "named_map foreign" where
  "named_maps = \<lparr>fn_DeepCopyInto = pair_copy val_copy copy_strings,
     fn_shape = struct_shape (\<lambda>x. x) named_map_view (pair_shape val_shape strings_shape)\<rparr>"

lemma named_maps_law: "foreign_law named_maps"
proof -
  let ?c = "pair_copy val_copy copy_strings :: (named_map, named_map cell) copying"
  let ?S = "struct_shape (\<lambda>x. x) named_map_view (pair_shape val_shape strings_shape)"
  have "copier (struct_copy (\<lambda>x. x) (\<lambda>_ t. t) ?c) ?S"
    by (intro struct_copier copier_intros plain_copiers) (simp_all add: named_map_view_def)
  moreover have "struct_copy (\<lambda>x. x) (\<lambda>_ t. t) ?c = ?c"
    by (auto simp: struct_copy_def fun_eq_iff option.map_id)
  ultimately have "copier ?c ?S" by simp
  then show ?thesis
    unfolding foreign_law_def named_maps_def foreign.simps
    by (rule deep_copier.intro) (auto simp: deep_copier_axioms_def split_paired_all string_maps.nothing_shared)
qed

interpretation named_structs: deep_copier "fn_DeepCopyInto named_maps" "fn_shape named_maps"
  using named_maps_law by (simp add: foreign_law_def)

definition sample_memory :: "named_map cell mem" where
  "sample_memory = \<lparr>memNext = 6, memCell = (\<lambda>_. BoolCell False)(
     0 := SessionCell \<lparr>hdKind = DatamoverSessionKind, hdAPIVersion = [], hdMeta = (''s1'', Some 5),
       hdSpec = \<lparr>hsImplementation = ''kopia'', hsConfiguration = None, hsConfigurationSecrets = None,
         hsClientSecretRef = None, hsEnv = Some 3, hsLifecycleConfig = Some 1\<rparr>,
       hdStatus = \<lparr>stSessionInfo = empty_info, stProgress = ProgressNone\<rparr>\<rparr>,
     1 := LifecycleCell \<lparr>hlImage = ''img'', hlServicePorts = None,
       hlNetworkPolicy = \<lparr>hnEnabled = False, hnFrom = None\<rparr>,
       hlPodOptions = \<lparr>hoResources = ([], None), hoExtraVolumes = None, hoLabels = Some 2, hoAnnotations = None,
         hoExtraContainers = None, hoPriorityClassName = [], hoPodSecurityContext = None,
         hoContainerSecurityContext = None, hoShareProcessNamespace = None, hoServiceAccount = [],
         hoImagePullPolicy = [], hoPodOverride = Some 4\<rparr>,
       hlStartupProbe = None, hlLivenessProbe = None\<rparr>,
     2 := StringMap [(''team'', ''x'')], 3 := StringMap [(''A'', ''1'')], 4 := JSONMap (Opaque ''o''),
     5 := StringMap [])\<rparr>"

lemma sample_memory_session:
  "sh_ok (session_ptr_shape named_maps) sample_memory (Some 0)"
  "sh_tree (session_ptr_shape named_maps) sample_memory (Some 0)"
  "\<exists>S v. sh_view (session_ptr_shape named_maps) sample_memory (Some 0) = Some S \<and>
     dssLifecycleConfig (dsSpec S) = Some v"
  by (simp_all add: session_ptr_shape_def session_shape_def session_view_def spec_shape_def spec_parts_def
      spec_view_def lifecycle_shape_def lifecycle_parts_def options_shape_def options_parts_def policy_shape_def
      structs_shape_def struct_ptr_shape_def secrets_shape_def strings_shape_def flag_shape_def override_shape_def
      named_maps_def sample_memory_def)

section \<open>Copies of sessions\<close>

text \<open>The override map of a session object, and what a session object reads as.\<close>

definition override_of :: "'x cell mem \<Rightarrow> addr option \<Rightarrow> addr option" where
  "override_of m p = Option.bind (target as_Session m p) (\<lambda>s.
     Option.bind (target as_Lifecycle m (hsLifecycleConfig (hdSpec s))) (\<lambda>lc. hoPodOverride (hlPodOptions lc)))"

definition read_session :: "'x foreign \<Rightarrow> 'x cell mem \<Rightarrow> addr \<Rightarrow> DatamoverSession option" where
  "read_session F m a = sh_view (session_ptr_shape F) m (Some a)"

lemma session_shared:
  "foreign_law F \<Longrightarrow> sh_shared (session_ptr_shape F) m p = set_option (override_of m p)"
  by (auto simp: session_ptr_shape_def session_shape_def spec_shape_def spec_parts_def lifecycle_shape_def
      lifecycle_parts_def options_shape_def options_parts_def nothing_shared override_of_def
      override_shape_def split: option.splits bind_splits)

lemma session_DeepCopy_copies:
  assumes F: "foreign_law F" and ok: "sh_ok (session_ptr_shape F) m (Some a)"
  obtains b m' where "DatamoverSession_DeepCopy F (Some a) m = Some (Some b, m')"
    "copied (session_ptr_shape F) m (Some a) m' (Some b)" "override_of m' (Some b) = override_of m (Some a)"
proof -
  obtain p m' where p: "DatamoverSession_DeepCopy F (Some a) m = Some (p, m')"
    "copied (session_ptr_shape F) m (Some a) m' p"
    using copier.copies [OF session_copier [OF F] ok] by blast
  then obtain b where b: "p = Some b"
    by (auto simp: DatamoverSession_DeepCopy_def ptr_copy_def split_def Let_def split: bind_splits)
  have "set_option (override_of m' p) = set_option (override_of m (Some a))"
    using p(2) by (simp add: copied_def session_shared [OF F])
  then have "override_of m' (Some b) = override_of m (Some a)"
    using b by (cases "override_of m' p"; cases "override_of m (Some a)") auto
  with p b that show thesis by blast
qed

text \<open>
  C34: Copying a session object that is well typed in memory succeeds and gives a well-typed
  object: no cell that existed has changed, the copy reads as the session the original reads
  as, its own parts do not overlap (even where those of the original do), and the one address
  both objects reach is the override map of the pod options.  The copy of nil is nil.
\<close>

theorem session_DeepCopy_correct:
  assumes "foreign_law F" and "sh_ok (session_ptr_shape F) m (Some a)"
  shows "(\<exists>b m'. DatamoverSession_DeepCopyObject F (Some a) m = Some (SessionObject (Some b), m') \<and>
      extends m m' \<and> sh_ok (session_ptr_shape F) m' (Some b) \<and> sh_tree (session_ptr_shape F) m' (Some b) \<and>
      read_session F m' b = read_session F m a \<and>
      sh_reach (session_ptr_shape F) m (Some a) \<inter> sh_reach (session_ptr_shape F) m' (Some b)
        = set_option (override_of m (Some a)))
    \<and> DatamoverSession_DeepCopyObject F None m = Some (NilObject, m)"
proof -
  obtain b m' where b: "DatamoverSession_DeepCopy F (Some a) m = Some (Some b, m')"
    "copied (session_ptr_shape F) m (Some a) m' (Some b)" using assms by (rule session_DeepCopy_copies)
  have "sh_reach (session_ptr_shape F) m (Some a) \<subseteq> {..<memNext m}"
    by (rule copier.bounded [OF session_copier [OF assms(1)] assms(2)])
  then have "sh_reach (session_ptr_shape F) m (Some a) \<inter> sh_reach (session_ptr_shape F) m' (Some b)
      = set_option (override_of m (Some a))"
    using b(2) unfolding copied_def session_shared [OF assms(1)] by fastforce
  moreover have "DatamoverSession_DeepCopyObject F (Some a) m = Some (SessionObject (Some b), m')"
    using b(1) by (simp add: DatamoverSession_DeepCopyObject_def)
  moreover have "DatamoverSession_DeepCopyObject F None m = Some (NilObject, m)"
    by (simp add: DatamoverSession_DeepCopyObject_def DatamoverSession_DeepCopy_def ptr_copy_def)
  ultimately show ?thesis using b(2) by (auto simp: read_session_def copied_def)
qed

theorem session_DeepCopy_correct_witness:
  "\<exists>b m'. DatamoverSession_DeepCopyObject named_maps (Some 0) sample_memory = Some (SessionObject (Some b), m') \<and>
     read_session named_maps m' b = read_session named_maps sample_memory 0"
  using session_DeepCopy_correct [OF named_maps_law sample_memory_session(1)] by blast

text \<open>
  C35: The writes of \<open>MakePodSpec\<close> in memory are the function \<open>share_maps\<close> on the sessions the
  objects read as: on a session object whose parts do not overlap the writes succeed, the pod
  gets maps that read as the computed labels and environment, and the caller's session reads
  afterwards as the result of \<open>share_maps\<close>.
\<close>

theorem MakePodSpec_writes_refine:
  assumes "foreign_law F" and "sh_ok (session_shape F) m s" and "sh_tree (session_shape F) m s"
    and "dssLifecycleConfig (dsSpec (sh_view (session_shape F) m s)) = Some lc"
  shows "\<exists>labels env m'. MakePodSpec_writes L F s m = Some ((labels, env), m') \<and>
    sh_view (session_shape F) m' s = share_maps L (sh_view (session_shape F) m s) lc \<and>
    as_StringMap (memCell m' labels) = Some (podLabels (sh_view (session_shape F) m s) lc) \<and>
    as_StringMap (memCell m' env) = Some (podEnv L (sh_view (session_shape F) m s) lc)"
  using MakePodSpec_writes_effect [OF assms(1-3) refl assms(4)] by blast

lemma session_at:
  assumes "sh_ok (session_ptr_shape F) m (Some a)"
  obtains s where "as_Session (memCell m a) = Some s" "sh_ok (session_shape F) m s"
    "read_session F m a = Some (sh_view (session_shape F) m s)"
    "sh_tree (session_ptr_shape F) m (Some a) \<longleftrightarrow> sh_tree (session_shape F) m s \<and> a \<notin> sh_owned (session_shape F) m s"
  using assms that by (auto simp: session_ptr_shape_def read_session_def split: option.splits)

theorem MakePodSpec_writes_refine_witness:
  "\<exists>s lc labels env m'. as_Session (memCell sample_memory 0) = Some s \<and>
     MakePodSpec_writes ref_kube named_maps s sample_memory = Some ((labels, env), m') \<and>
     sh_view (session_shape named_maps) m' s
       = share_maps ref_kube (sh_view (session_shape named_maps) sample_memory s) lc"
proof -
  obtain s where s: "as_Session (memCell sample_memory 0) = Some s" "sh_ok (session_shape named_maps) sample_memory s"
    "read_session named_maps sample_memory 0 = Some (sh_view (session_shape named_maps) sample_memory s)"
    "sh_tree (session_shape named_maps) sample_memory s"
    using session_at [OF sample_memory_session(1)] sample_memory_session(2) by blast
  then obtain lc where "dssLifecycleConfig (dsSpec (sh_view (session_shape named_maps) sample_memory s)) = Some lc"
    using sample_memory_session(3) by (auto simp: read_session_def)
  then show ?thesis using MakePodSpec_writes_refine [OF named_maps_law s(2,4), of lc ref_kube] s(1) by blast
qed

text \<open>
  C36: A pod is built from a copy without touching the original.  After copying a stored session
  and building the pod from the copy, the copy carries the labels and variables that were
  written, and the stored session reads as it did before.
\<close>

theorem copy_protects_original:
  assumes "foreign_law F" and "sh_ok (session_ptr_shape F) m (Some a)"
    and "read_session F m a = Some S" and "dssLifecycleConfig (dsSpec S) = Some lc"
  shows "\<exists>b m1 s labels env m2. DatamoverSession_DeepCopy F (Some a) m = Some (Some b, m1) \<and>
    as_Session (memCell m1 b) = Some s \<and> MakePodSpec_writes L F s m1 = Some ((labels, env), m2) \<and>
    read_session F m2 b = Some (share_maps L S lc) \<and> read_session F m2 a = Some S"
proof -
  obtain b m1 where b: "DatamoverSession_DeepCopy F (Some a) m = Some (Some b, m1)"
    and cp: "copied (session_ptr_shape F) m (Some a) m1 (Some b)"
    using assms(1,2) by (rule session_DeepCopy_copies)
  then have "sh_ok (session_ptr_shape F) m1 (Some b)" by (simp add: copied_def)
  then obtain s where s: "as_Session (memCell m1 b) = Some s" "sh_ok (session_shape F) m1 s"
    "read_session F m1 b = Some (sh_view (session_shape F) m1 s)"
    "sh_tree (session_shape F) m1 s" "b \<notin> sh_owned (session_shape F) m1 s"
    using cp session_at [of F m1 b] unfolding copied_def by metis
  have S: "sh_view (session_shape F) m1 s = S"
    using cp s(3) assms(3) by (simp add: copied_def read_session_def)
  obtain labels env m2 where w: "MakePodSpec_writes L F s m1 = Some ((labels, env), m2)"
    "sh_view (session_shape F) m2 s = share_maps L S lc" "agree (- {labels, env}) m1 m2"
    "{labels, env} \<subseteq> sh_owned (session_shape F) m1 s \<union> {memNext m1..}"
    using MakePodSpec_writes_effect [OF assms(1) s(2,4) S [symmetric] assms(4)] by blast
  have owned: "sh_owned (session_ptr_shape F) m1 (Some b) = insert b (sh_owned (session_shape F) m1 s)"
    using s(1) by (simp add: session_ptr_shape_def)
  have "b < memNext m1" using \<open>sh_ok (session_ptr_shape F) m1 (Some b)\<close> by (simp add: session_ptr_shape_def)
  then have "memCell m2 b = memCell m1 b" using w(3,4) s(5) by (auto simp: agree_def)
  then have copy: "read_session F m2 b = Some (share_maps L S lc)"
    using s(1) w(2) by (simp add: read_session_def session_ptr_shape_def)
  have "sh_reach (session_ptr_shape F) m (Some a) \<subseteq> {..<memNext m}"
    by (rule copier.bounded [OF session_copier [OF assms(1)] assms(2)])
  moreover have "{labels, env} \<subseteq> {memNext m..}"
    using w(4) cp owned by (auto simp: copied_def extends_def)
  ultimately have "sh_reach (session_ptr_shape F) m (Some a) \<subseteq> {..<memNext m} \<inter> - {labels, env}" by force
  moreover have "agree ({..<memNext m} \<inter> - {labels, env}) m m2"
    using w(3) cp by (auto simp: agree_def copied_def extends_def)
  ultimately have "agree (sh_reach (session_ptr_shape F) m (Some a)) m m2" by (rule agree_mono [rotated])
  then have "reads_same (session_ptr_shape F) m m2 (Some a)"
    by (rule copier.frame [OF session_copier [OF assms(1)] assms(2)])
  then have "read_session F m2 a = Some S" using assms(3) by (simp add: reads_same_def read_session_def)
  with b s(1) w(1) copy show ?thesis by blast
qed

theorem copy_protects_original_witness:
  "\<exists>b m1 s labels env m2 S lc. read_session named_maps sample_memory 0 = Some S \<and>
     DatamoverSession_DeepCopy named_maps (Some 0) sample_memory = Some (Some b, m1) \<and>
     as_Session (memCell m1 b) = Some s \<and> MakePodSpec_writes ref_kube named_maps s m1 = Some ((labels, env), m2) \<and>
     read_session named_maps m2 b = Some (share_maps ref_kube S lc) \<and> read_session named_maps m2 0 = Some S"
proof -
  obtain S lc where S: "read_session named_maps sample_memory 0 = Some S" "dssLifecycleConfig (dsSpec S) = Some lc"
    using sample_memory_session(3) by (auto simp: read_session_def)
  show ?thesis
    using copy_protects_original [OF named_maps_law sample_memory_session(1) S, of ref_kube] S(1) by blast
qed

definition read_override :: "'x foreign \<Rightarrow> 'x cell mem \<Rightarrow> addr \<Rightarrow> opaque option" where
  "read_override F m a = Option.bind (read_session F m a) (\<lambda>S.
     Option.bind (dssLifecycleConfig (dsSpec S)) (\<lambda>lc. poPodOverride (lcPodOptions lc)))"

lemma read_override_target: "read_override F m a = target as_JSONMap m (override_of m (Some a))"
  by (auto simp: read_override_def read_session_def session_ptr_shape_def session_shape_def session_view_def
      spec_shape_def spec_parts_def spec_view_def lifecycle_shape_def lifecycle_parts_def lifecycle_view_def
      options_shape_def options_parts_def options_view_def override_shape_def override_of_def
      split: option.splits bind_splits)

lemma override_typed:
  assumes "sh_ok (session_ptr_shape F) m (Some a)"
  shows "sh_ok override_shape m (override_of m (Some a))"
proof -
  obtain s where s: "as_Session (memCell m a) = Some s" "sh_ok (session_shape F) m s"
    using assms by (rule session_at)
  show ?thesis
  proof (cases "target as_Lifecycle m (hsLifecycleConfig (hdSpec s))")
    case None
    then show ?thesis using s(1) by (simp add: override_of_def override_shape_def)
  next
    case (Some lc)
    then obtain l where "hsLifecycleConfig (hdSpec s) = Some l" "as_Lifecycle (memCell m l) = Some lc"
      by (auto simp: target_def bind_eq_Some_conv)
    then show ?thesis using s
      by (simp add: override_of_def session_shape_def spec_shape_def spec_parts_def lifecycle_shape_def
          lifecycle_parts_def options_shape_def options_parts_def)
  qed
qed

lemma override_of_write:
  assumes "override_of m p = Some c" and "as_JSONMap (memCell m c) \<noteq> None"
  shows "override_of (assign c (JSONMap j) m) p = Some c"
proof -
  have "memCell m c = JSONMap x \<Longrightarrow> as_Session (memCell m c) = None \<and> as_Lifecycle (memCell m c) = None" for x
    by (simp add: as_Session_def as_Lifecycle_def)
  moreover obtain x where "memCell m c = JSONMap x"
    using assms(2) by (cases "memCell m c") (auto simp: as_JSONMap_def)
  ultimately have c: "as_Session (memCell m c) = None" "as_Lifecycle (memCell m c) = None" by simp_all
  then have "target as_Session (assign c (JSONMap j) m) q = target as_Session m q"
    "target as_Lifecycle (assign c (JSONMap j) m) q = target as_Lifecycle m q" for q
    by (cases q; case_tac "the q = c"; simp add: as_Session_def as_Lifecycle_def)+
  then show ?thesis using assms(1) by (simp add: override_of_def)
qed

text \<open>
  C37: The override is not copied.  \<open>DeepCopyInto\<close> of \<open>PodOverride\<close> copies the map header only:
  whatever is written into the override map through the copy of a session is read through the
  original.
\<close>

theorem override_shared_by_copy:
  assumes "foreign_law F" and "sh_ok (session_ptr_shape F) m (Some a)" and "override_of m (Some a) = Some c"
  shows "\<exists>b m'. DatamoverSession_DeepCopy F (Some a) m = Some (Some b, m') \<and>
    override_of m' (Some b) = Some c \<and> read_override F (assign c (JSONMap j) m') a = Some j"
proof -
  obtain b m' where b: "DatamoverSession_DeepCopy F (Some a) m = Some (Some b, m')"
    "copied (session_ptr_shape F) m (Some a) m' (Some b)" "override_of m' (Some b) = override_of m (Some a)"
    using assms(1,2) by (rule session_DeepCopy_copies)
  have same: "reads_same (session_ptr_shape F) m m' (Some a)"
    by (rule copier.frame_extends [OF session_copier [OF assms(1)] assms(2)]) (use b(2) in \<open>simp add: copied_def\<close>)
  then have "set_option (override_of m' (Some a)) = {c}"
    using assms(3) by (simp add: reads_same_def session_shared [OF assms(1)])
  then have a': "override_of m' (Some a) = Some c" by (cases "override_of m' (Some a)") auto
  have "sh_ok (session_ptr_shape F) m' (Some a)" using same by (simp add: reads_same_def)
  from override_typed [OF this] have "as_JSONMap (memCell m' c) \<noteq> None"
    unfolding a' by (simp add: override_shape_def)
  then have "override_of (assign c (JSONMap j) m') (Some a) = Some c" using override_of_write a' by blast
  then have "read_override F (assign c (JSONMap j) m') a = Some j" by (simp add: read_override_target)
  then show ?thesis using b assms(3) by auto
qed

theorem override_shared_by_copy_witness:
  "\<exists>b m'. DatamoverSession_DeepCopy named_maps (Some 0) sample_memory = Some (Some b, m') \<and>
     read_override named_maps (assign 4 (JSONMap (Opaque ''new'')) m') 0 = Some (Opaque ''new'')"
proof -
  have "override_of sample_memory (Some 0) = Some 4" by (simp add: override_of_def sample_memory_def)
  then show ?thesis using override_shared_by_copy [OF named_maps_law sample_memory_session(1)] by blast
qed

end
