(* ===== verification/CommandLine.thy ===== *)
theory CommandLine
  imports GoStrings
begin

text \<open>
  The command line of a Go program as package \<open>flag\<close> reads it: a set of registered flags, the
  registration of a flag, one step of the parser and the loop over the arguments.  The variables
  of the flags are a state that a flag reads its argument into.  The language of accepted command
  lines is given apart, as an inductive relation, and the parser is shown to accept exactly it.
\<close>

section \<open>Flags\<close>

record 'v Flag =
  fgBool :: bool
  fgSet :: "string \<Rightarrow> 'v \<Rightarrow> 'v option"

type_synonym 'v FlagSet = "string \<rightharpoonup> 'v Flag"

definition ParseBool :: "string \<Rightarrow> bool option" where
  "ParseBool s =
     (if s \<in> set [''1'', ''t'', ''T'', ''TRUE'', ''true'', ''True''] then Some True
      else if s \<in> set [''0'', ''f'', ''F'', ''FALSE'', ''false'', ''False''] then Some False
      else None)"

text \<open>Registering a flag; a name that cannot be written or is taken panics.\<close>

definition flag_Var :: "string \<Rightarrow> 'v Flag \<Rightarrow> 'v FlagSet \<Rightarrow> 'v FlagSet outcome" where
  "flag_Var name f fs =
     (if take 1 name = ''-'' then Panic (''flag '' @ name @ '' begins with -'')
      else if CHR ''='' \<in> set name then Panic (''flag '' @ name @ '' contains ='')
      else if fs name \<noteq> None then Panic (''flag redefined: '' @ name)
      else Ok (fs(name \<mapsto> f)))"

definition string_flag :: "(string \<Rightarrow> 'v \<Rightarrow> 'v) \<Rightarrow> 'v Flag" where
  "string_flag put = \<lparr>fgBool = False, fgSet = (\<lambda>s v. Some (put s v))\<rparr>"

definition bool_flag :: "(bool \<Rightarrow> 'v \<Rightarrow> 'v) \<Rightarrow> 'v Flag" where
  "bool_flag put = \<lparr>fgBool = True, fgSet = (\<lambda>s v. map_option (\<lambda>b. put b v) (ParseBool s))\<rparr>"

text \<open>Registration of a variable also gives it its default.\<close>

definition StringVar :: "(string \<Rightarrow> 'v \<Rightarrow> 'v) \<Rightarrow> string \<Rightarrow> string \<Rightarrow> 'v FlagSet \<times> 'v \<Rightarrow> ('v FlagSet \<times> 'v) outcome" where
  "StringVar put name dflt st =
     bindO (flag_Var name (string_flag put) (fst st)) (\<lambda>fs. Ok (fs, put dflt (snd st)))"

definition BoolVar :: "(bool \<Rightarrow> 'v \<Rightarrow> 'v) \<Rightarrow> string \<Rightarrow> bool \<Rightarrow> 'v FlagSet \<times> 'v \<Rightarrow> ('v FlagSet \<times> 'v) outcome" where
  "BoolVar put name dflt st =
     bindO (flag_Var name (bool_flag put) (fst st)) (\<lambda>fs. Ok (fs, put dflt (snd st)))"

section \<open>The parser\<close>

datatype parse_error = ErrHelp | FlagError string

datatype 'v parse_step = Seen "string list" 'v | Finished "string list" | Failed parse_error

datatype 'v parsed = Parsed "string list" 'v | ParseFailed parse_error

text \<open>A name and its value, when the argument carries one.\<close>

definition cut_value :: "string \<Rightarrow> string \<times> string option" where
  "cut_value s = (takeWhile (\<lambda>c. c \<noteq> CHR ''='') s,
     case dropWhile (\<lambda>c. c \<noteq> CHR ''='') s of [] \<Rightarrow> None | _ # value \<Rightarrow> Some value)"

definition set_flag :: "'v Flag \<Rightarrow> string \<Rightarrow> string \<Rightarrow> string list \<Rightarrow> 'v \<Rightarrow> 'v parse_step" where
  "set_flag f name value rest v =
     (case fgSet f value v of
        Some v' \<Rightarrow> Seen rest v'
      | None \<Rightarrow> Failed (FlagError (''invalid value '' @ value @ '' for flag -'' @ name)))"

definition parseOne :: "'v FlagSet \<Rightarrow> string list \<Rightarrow> 'v \<Rightarrow> 'v parse_step" where
  "parseOne fs args v =
     (case args of
        [] \<Rightarrow> Finished []
      | s # rest \<Rightarrow>
          if length s < 2 \<or> s ! 0 \<noteq> CHR ''-'' then Finished args
          else if s = ''--'' then Finished rest
          else
            let arg = drop (if s ! 1 = CHR ''-'' then 2 else 1) s in
            if arg = [] \<or> hd arg = CHR ''-'' \<or> hd arg = CHR ''='' then Failed (FlagError (''bad flag syntax: '' @ s))
            else
              let (name, value) = cut_value arg in
              case fs name of
                None \<Rightarrow> Failed (if name = ''help'' \<or> name = ''h'' then ErrHelp
                    else FlagError (''flag provided but not defined: -'' @ name))
              | Some f \<Rightarrow>
                  if fgBool f then set_flag f name (case value of None \<Rightarrow> ''true'' | Some x \<Rightarrow> x) rest v
                  else (case value of
                      Some x \<Rightarrow> set_flag f name x rest v
                    | None \<Rightarrow> (case rest of
                          [] \<Rightarrow> Failed (FlagError (''flag needs an argument: -'' @ name))
                        | x # rest' \<Rightarrow> set_flag f name x rest' v)))"

lemma set_flag_Seen: "set_flag f name x rest v = Seen rest' v' \<longleftrightarrow> fgSet f x v = Some v' \<and> rest' = rest"
  by (auto simp: set_flag_def split: option.splits)

lemma set_flag_Finished [simp]: "set_flag f name x rest v \<noteq> Finished rest'"
  by (simp add: set_flag_def split: option.split)

lemma parseOne_shorter: "parseOne fs args v = Seen rest v' \<Longrightarrow> length rest < length args"
  by (auto simp: parseOne_def Let_def set_flag_Seen split: list.splits if_splits prod.splits option.splits)

function Parse :: "'v FlagSet \<Rightarrow> string list \<Rightarrow> 'v \<Rightarrow> 'v parsed" where
  "Parse fs args v =
     (case parseOne fs args v of
        Seen rest v' \<Rightarrow> Parse fs rest v'
      | Finished rest \<Rightarrow> Parsed rest v
      | Failed e \<Rightarrow> ParseFailed e)"
  by pat_completeness auto

termination
  by (relation "measure (\<lambda>(fs, args, v). length args)") (auto dest: parseOne_shorter)

declare Parse.simps [simp del]

section \<open>The language of command lines\<close>

definition flag_name :: "string \<Rightarrow> bool" where
  "flag_name n \<longleftrightarrow> n \<noteq> [] \<and> hd n \<noteq> CHR ''-'' \<and> CHR ''='' \<notin> set n"

definition dashes :: "string \<Rightarrow> bool" where
  "dashes d \<longleftrightarrow> d = ''-'' \<or> d = ''--''"

text \<open>
  How one flag may be written: with its value joined, with the value as the next argument unless
  the flag is a switch, and alone when it is one.
\<close>

inductive spelling :: "'v Flag \<Rightarrow> string \<Rightarrow> string \<Rightarrow> string list \<Rightarrow> bool" where
  joined: "dashes d \<Longrightarrow> spelling f n x [d @ n @ ''='' @ x]"
| separate: "dashes d \<Longrightarrow> \<not> fgBool f \<Longrightarrow> spelling f n x [d @ n, x]"
| alone: "dashes d \<Longrightarrow> fgBool f \<Longrightarrow> spelling f n ''true'' [d @ n]"

text \<open>Where the flags of a command line end, and the arguments that remain.\<close>

inductive flags_end :: "string list \<Rightarrow> string list \<Rightarrow> bool" where
  no_more: "flags_end [] []"
| terminator: "flags_end (''--'' # rest) rest"
| operand: "length a < 2 \<or> hd a \<noteq> CHR ''-'' \<Longrightarrow> flags_end (a # rest) (a # rest)"

inductive command_line :: "'v FlagSet \<Rightarrow> string list \<Rightarrow> 'v \<Rightarrow> string list \<Rightarrow> 'v \<Rightarrow> bool" for fs where
  ends: "flags_end args rest \<Longrightarrow> command_line fs args v rest v"
| flag: "flag_name n \<Longrightarrow> fs n = Some f \<Longrightarrow> spelling f n x written \<Longrightarrow> fgSet f x v = Some v1 \<Longrightarrow>
    command_line fs args v1 rest v' \<Longrightarrow> command_line fs (written @ args) v rest v'"

lemma cut_value_iff:
  "cut_value s = (n, ov) \<longleftrightarrow> CHR ''='' \<notin> set n \<and> s = n @ (case ov of None \<Rightarrow> [] | Some x \<Rightarrow> ''='' @ x)"
proof
  assume cut: "cut_value s = (n, ov)"
  have "s = takeWhile (\<lambda>c. c \<noteq> CHR ''='') s @ dropWhile (\<lambda>c. c \<noteq> CHR ''='') s" by simp
  with cut show "CHR ''='' \<notin> set n \<and> s = n @ (case ov of None \<Rightarrow> [] | Some x \<Rightarrow> ''='' @ x)"
    by (auto simp: cut_value_def dropWhile_eq_Cons_conv dest: set_takeWhileD split: list.splits)
next
  assume split: "CHR ''='' \<notin> set n \<and> s = n @ (case ov of None \<Rightarrow> [] | Some x \<Rightarrow> ''='' @ x)"
  then have "\<And>c. c \<in> set n \<Longrightarrow> c \<noteq> CHR ''=''" by blast
  then have cut: "takeWhile (\<lambda>c. c \<noteq> CHR ''='') (n @ y) = n @ takeWhile (\<lambda>c. c \<noteq> CHR ''='') y"
    "dropWhile (\<lambda>c. c \<noteq> CHR ''='') (n @ y) = dropWhile (\<lambda>c. c \<noteq> CHR ''='') y" for y
    by (blast intro: takeWhile_append2 dropWhile_append2)+
  from split cut [of "[]"] show "cut_value s = (n, ov)"
    by (cases ov) (simp_all add: cut_value_def cut del: takeWhile_eq_all_conv dropWhile_eq_Nil_conv)
qed

text \<open>An argument that starts a flag is dashes and a name, with or without a value.\<close>

lemma dashes_arg:
  assumes "dashes d" and "flag_name n"
  shows "\<not> length (d @ n @ y) < 2" and "(d @ n @ y) ! 0 = CHR ''-''" and "d @ n @ y \<noteq> ''--''"
    and "drop (if (d @ n @ y) ! 1 = CHR ''-'' then 2 else 1) (d @ n @ y) = n @ y"
    and "n @ y \<noteq> []" and "hd (n @ y) \<noteq> CHR ''-''" and "hd (n @ y) \<noteq> CHR ''=''"
  using assms by (cases n; auto simp: dashes_def flag_name_def)+

lemma arg_dashes:
  assumes "\<not> length s < 2" and "s ! 0 = CHR ''-''"
  shows "\<exists>d. dashes d \<and> s = d @ drop (if s ! 1 = CHR ''-'' then 2 else 1) s"
  using assms by (cases s; cases "tl s") (auto simp: dashes_def)

lemma parseOne_flag:
  assumes "dashes d" and "flag_name n" and "fs n = Some f"
  shows "parseOne fs ((d @ n @ ''='' @ x) # args) v = set_flag f n x args v"
    and "parseOne fs ((d @ n) # args) v =
      (if fgBool f then set_flag f n ''true'' args v
       else case args of [] \<Rightarrow> Failed (FlagError (''flag needs an argument: -'' @ n)) | x # rest \<Rightarrow> set_flag f n x rest v)"
proof -
  have "cut_value (n @ ''='' @ x) = (n, Some x)" "cut_value n = (n, None)"
    using assms(2) by (auto simp: cut_value_iff flag_name_def)
  with dashes_arg [OF assms(1,2), of "''='' @ x"] dashes_arg [OF assms(1,2), of "[]"] assms(3)
  show "parseOne fs ((d @ n @ ''='' @ x) # args) v = set_flag f n x args v"
    and "parseOne fs ((d @ n) # args) v =
      (if fgBool f then set_flag f n ''true'' args v
       else case args of [] \<Rightarrow> Failed (FlagError (''flag needs an argument: -'' @ n)) | x # rest \<Rightarrow> set_flag f n x rest v)"
    by (simp_all only: parseOne_def list.case Let_def prod.case option.case append_Nil2 if_False if_True
        simp_thms split: if_splits)
qed

lemma parseOne_spelling:
  assumes "flag_name n" and "fs n = Some f" and "spelling f n x written"
  shows "parseOne fs (written @ args) v = set_flag f n x args v"
  using assms(3) by cases (simp_all add: parseOne_flag [where fs = fs and n = n and f = f, simplified] assms(1,2))

lemma parseOne_Seen:
  assumes "parseOne fs args v = Seen rest v'"
  obtains n f x written where "args = written @ rest" "flag_name n" "fs n = Some f" "spelling f n x written"
    "fgSet f x v = Some v'"
proof -
  from assms obtain s tl_args where args: "args = s # tl_args" and long: "\<not> length s < 2" and dash: "s ! 0 = CHR ''-''"
    by (auto simp: parseOne_def split: list.splits if_splits)
  define arg where "arg = drop (if s ! 1 = CHR ''-'' then 2 else 1) s"
  obtain d where d: "dashes d" "s = d @ arg" using arg_dashes [OF long dash] unfolding arg_def by blast
  obtain n ov where cut: "cut_value arg = (n, ov)" by force
  then have name: "CHR ''='' \<notin> set n" "arg = n @ (case ov of None \<Rightarrow> [] | Some x \<Rightarrow> ''='' @ x)"
    by (simp_all add: cut_value_iff)
  have ok: "s \<noteq> ''--''" "arg \<noteq> []" "hd arg \<noteq> CHR ''-''" "hd arg \<noteq> CHR ''=''"
    using assms args long dash by (auto simp: parseOne_def arg_def Let_def split: if_splits)
  then have flag: "flag_name n" using name by (cases n) (auto simp: flag_name_def split: option.splits)
  show thesis
  proof (cases "fs n")
    case None
    then show thesis using assms args long dash ok cut by (simp add: parseOne_def arg_def Let_def split: if_splits)
  next
    case (Some f)
    note parse = parseOne_flag [where fs = fs, OF d(1) flag Some]
    show thesis
    proof (cases ov)
      case v: (Some x)
      then show thesis using assms args d name parse(1) that flag Some
        by (metis append.assoc append_Cons append_Nil option.case(2) set_flag_Seen spelling.joined)
    next
      case v: None
      then have s: "s = d @ n" using d name by simp
      show thesis
      proof (cases "fgBool f")
        case True
        then show thesis using assms args s parse(2) that [of "[s]" n f "''true''"] flag Some d
          by (auto simp: set_flag_Seen intro: spelling.alone)
      next
        case False
        with assms args s parse(2) obtain x where "tl_args = x # rest" "fgSet f x v = Some v'"
          by (auto simp: set_flag_Seen split: list.splits)
        then show thesis using args s that [of "[s, x]" n f x] flag Some d False
          by (auto intro: spelling.separate)
      qed
    qed
  qed
qed

lemma parseOne_Finished: "parseOne fs args v = Finished rest \<longleftrightarrow> flags_end args rest"
proof (cases args)
  case (Cons s tl_args)
  have "parseOne fs (s # tl_args) v = Finished rest \<longleftrightarrow>
      (if length s < 2 \<or> s ! 0 \<noteq> CHR ''-'' then rest = args else s = ''--'' \<and> rest = tl_args)"
  proof (cases "length s < 2 \<or> s ! 0 \<noteq> CHR ''-'' \<or> s = ''--''")
    case False
    then show ?thesis
      by (simp add: parseOne_def Let_def split: prod.split option.split list.split)
  qed (use Cons in \<open>auto simp: parseOne_def\<close>)
  moreover have "s ! 0 = hd s" if "\<not> length s < 2" using that by (cases s) auto
  ultimately show ?thesis using Cons
    by (auto elim!: flags_end.cases intro: flags_end.intros)
qed (auto simp: parseOne_def elim: flags_end.cases intro: flags_end.intros)

text \<open>The parser accepts exactly the command lines of the language, with their meaning.\<close>

theorem Parse_iff: "Parse fs args v = Parsed rest v' \<longleftrightarrow> command_line fs args v rest v'"
proof
  show "Parse fs args v = Parsed rest v' \<Longrightarrow> command_line fs args v rest v'"
  proof (induction fs args v rule: Parse.induct)
    case (1 fs args v)
    show ?case
    proof (cases "parseOne fs args v")
      case (Seen args1 v1)
      then have "command_line fs args1 v1 rest v'" using 1 by (simp add: Parse.simps [of fs args])
      then show ?thesis using Seen by (elim parseOne_Seen) (auto intro: command_line.flag)
    next
      case (Finished args1)
      then have "flags_end args args1" by (simp add: parseOne_Finished)
      moreover have "args1 = rest" "v = v'" using Finished 1(2) by (simp_all add: Parse.simps [of fs args])
      ultimately show ?thesis by (simp add: command_line.ends)
    qed (use 1(2) in \<open>simp add: Parse.simps [of fs args]\<close>)
  qed
  show "command_line fs args v rest v' \<Longrightarrow> Parse fs args v = Parsed rest v'"
  proof (induction rule: command_line.induct)
    case (ends args rest v)
    then have "parseOne fs args v = Finished rest" by (simp add: parseOne_Finished)
    then show ?case by (subst Parse.simps) simp
  next
    case (flag n f x written v v1 args rest v')
    then have "parseOne fs (written @ args) v = Seen args v1"
      by (simp add: parseOne_spelling set_flag_Seen)
    then show ?case using flag.IH by (subst Parse.simps) simp
  qed
qed

end
