(* ===== verification/Managers.thy ===== *)
theory Managers
  imports Kube CommandLine
begin

text \<open>
  How the operator is put together: the scheme of the API group
  (\<open>api/v1alpha1/groupversion_info.go\<close>), the controller manager (\<open>pkg/controller\<close> and
  \<open>SetupWithManager\<close> of the reconciler), the program \<open>cmd/main.go\<close>, and the embedded resource
  definition (\<open>pkg/crds\<close>).  Controller-runtime is a parameter; its calls may fail and change
  the state of the process in any way.  The program is given its command line and reads its own
  flags and those of the packages it uses, whose variables are part of the state of the process;
  log output is left out.
\<close>

section \<open>Parameters\<close>

record SchemeBuilder =
  sbGroupVersion :: GroupVersion
  sbObjects :: "string list"

record TLSConfig =
  tlsNextProtos :: "string list"
  tlsRest :: opaque

type_synonym TLSOpt = "TLSConfig \<Rightarrow> TLSConfig"

datatype FilterProvider = WithAuthenticationAndAuthorization

record MetricsOptions =
  moBindAddress :: string
  moSecureServing :: bool
  moTLSOpts :: "TLSOpt list"
  moFilterProvider :: "FilterProvider option"

record WebhookServer =
  whTLSOpts :: "TLSOpt list"

record 's Options =
  optScheme :: "'s option"
  optMetrics :: MetricsOptions
  optWebhookServer :: WebhookServer
  optHealthProbeBindAddress :: string
  optLeaderElection :: bool
  optLeaderElectionID :: string

record ControllerBuild =
  cbFor :: string
  cbOwns :: "string list"

record ('s, 'm, 'c) DatamoverSessionReconciler =
  rcScheme :: 's
  rcRestConfig :: 'c
  rcMgr :: "'m option"

text \<open>
  The flags registered by the imported packages before \<open>main\<close> runs, the flags that the options of
  the logger bind, and the calls of the runtime.
\<close>

record ('w, 's, 'm, 'c) runtime =
  rt_Flags :: "'w FlagSet"
  rt_zap_Flags :: "(string \<times> 'w Flag) list"
  rt_SetLogger :: "'w \<Rightarrow> 'w"
  rt_NewScheme :: 's
  rt_clientgo_AddToScheme :: "'s \<Rightarrow> error + 's"
  rt_Builder_AddToScheme :: "SchemeBuilder \<Rightarrow> 's \<Rightarrow> error + 's"
  rt_GetConfigOrDie :: "'w \<Rightarrow> 'c option \<times> 'w"
  rt_NewManager :: "'c option \<Rightarrow> 's Options \<Rightarrow> 'w \<Rightarrow> (error + 'm) \<times> 'w"
  rt_GetScheme :: "'m \<Rightarrow> 's"
  rt_Complete :: "'m \<Rightarrow> ControllerBuild \<Rightarrow> ('s, 'm, 'c) DatamoverSessionReconciler \<Rightarrow> 'w \<Rightarrow> (error + unit) \<times> 'w"
  rt_AddHealthzCheck :: "'m \<Rightarrow> string \<Rightarrow> 'w \<Rightarrow> (error + unit) \<times> 'w"
  rt_AddReadyzCheck :: "'m \<Rightarrow> string \<Rightarrow> 'w \<Rightarrow> (error + unit) \<times> 'w"
  rt_SetupSignalHandler :: "'w \<Rightarrow> 'w"
  rt_Start :: "'m \<Rightarrow> 'w \<Rightarrow> (error + unit) \<times> 'w"

text \<open>\<open>manager.New\<close> refuses a nil configuration.\<close>

definition manager_law :: "('w, 's, 'm, 'c) runtime \<Rightarrow> bool" where
  "manager_law R \<longleftrightarrow> (\<forall>opts w. \<exists>e. fst (rt_NewManager R None opts w) = Inl e)"

section \<open>The scheme\<close>

text \<open>The builder of the API group, with the types registered with it.\<close>

definition DatamoverSessionListKind :: string where
  "DatamoverSessionListKind = ''DatamoverSessionList''"

definition api_SchemeBuilder :: SchemeBuilder where
  "api_SchemeBuilder = \<lparr>sbGroupVersion = api_GroupVersion,
     sbObjects = [DatamoverSessionKind, DatamoverSessionListKind]\<rparr>"

definition api_AddToScheme :: "('w, 's, 'm, 'c) runtime \<Rightarrow> 's \<Rightarrow> error + 's" where
  "api_AddToScheme R = rt_Builder_AddToScheme R api_SchemeBuilder"

definition makeScheme :: "('w, 's, 'm, 'c) runtime \<Rightarrow> error + 's" where
  "makeScheme R =
     (case rt_clientgo_AddToScheme R (rt_NewScheme R) of
        Inl e \<Rightarrow> Inl e
      | Inr scheme \<Rightarrow>
          (case api_AddToScheme R scheme of
             Inl e \<Rightarrow> Inl e
           | Inr scheme' \<Rightarrow> Inr scheme'))"

section \<open>The manager\<close>

definition session_controller :: ControllerBuild where
  "session_controller = \<lparr>cbFor = DatamoverSessionKind, cbOwns = [''Service'', ''Pod'']\<rparr>"

definition SetupWithManager ::
  "('w, 's, 'm, 'c) runtime \<Rightarrow> ('s, 'm, 'c) DatamoverSessionReconciler \<Rightarrow> 'm \<Rightarrow> ('w, unit) kio" where
  "SetupWithManager R r mgr = readK (rt_Complete R mgr session_controller (r\<lparr>rcMgr := Some mgr\<rparr>))"

definition deref_config :: "'c option \<Rightarrow> 'c outcome" where
  "deref_config p = (case p of None \<Rightarrow> Panic ''nil pointer dereference: restConfig'' | Some c \<Rightarrow> Ok c)"

definition MakeControllerManager ::
  "('w, 's, 'm, 'c) runtime \<Rightarrow> 'c option \<Rightarrow> 's Options \<Rightarrow> ('w, 'm) kio" where
  "MakeControllerManager R restConfig options =
     bindK (if optScheme options = None
            then bindK (liftK (of_sum (makeScheme R))) (\<lambda>scheme. returnK (options\<lparr>optScheme := Some scheme\<rparr>))
            else returnK options) (\<lambda>options.
     bindK (readK (rt_NewManager R restConfig options)) (\<lambda>mgr.
     bindK (liftK (deref_config restConfig)) (\<lambda>config.
     bindK (SetupWithManager R \<lparr>rcScheme = rt_GetScheme R mgr, rcRestConfig = config, rcMgr = None\<rparr> mgr) (\<lambda>_.
     returnK mgr))))"

section \<open>The program\<close>

record Flags =
  flMetricsAddr :: string
  flProbeAddr :: string
  flLeaderElect :: bool
  flSecureMetrics :: bool
  flEnableHTTP2 :: bool

definition zero_flags :: Flags where
  "zero_flags = \<lparr>flMetricsAddr = [], flProbeAddr = [], flLeaderElect = False,
     flSecureMetrics = False, flEnableHTTP2 = False\<rparr>"

definition default_flags :: Flags where
  "default_flags = \<lparr>flMetricsAddr = ''0'', flProbeAddr = '':8081'', flLeaderElect = False,
     flSecureMetrics = True, flEnableHTTP2 = False\<rparr>"

text \<open>A flag of another package leaves the variables of \<open>main\<close> alone.\<close>

definition outer_flag :: "'w Flag \<Rightarrow> (Flags \<times> 'w) Flag" where
  "outer_flag f = \<lparr>fgBool = fgBool f, fgSet = (\<lambda>s (fl, c). map_option (Pair fl) (fgSet f s c))\<rparr>"

fun BindFlags :: "(string \<times> 'w Flag) list \<Rightarrow> (Flags \<times> 'w) FlagSet \<times> (Flags \<times> 'w)
    \<Rightarrow> ((Flags \<times> 'w) FlagSet \<times> (Flags \<times> 'w)) outcome" where
  "BindFlags [] st = Ok st"
| "BindFlags ((n, f) # fs) st = bindO (flag_Var n (outer_flag f) (fst st)) (\<lambda>fs'. BindFlags fs (fs', snd st))"

definition declare_flags ::
  "('w, 's, 'm, 'c) runtime \<Rightarrow> 'w \<Rightarrow> ((Flags \<times> 'w) FlagSet \<times> (Flags \<times> 'w)) outcome" where
  "declare_flags R c =
     bindO (StringVar (\<lambda>s. apfst (flMetricsAddr_update (\<lambda>_. s))) ''metrics-bind-address'' ''0''
       (\<lambda>n. map_option outer_flag (rt_Flags R n), (zero_flags, c))) (\<lambda>st.
     bindO (StringVar (\<lambda>s. apfst (flProbeAddr_update (\<lambda>_. s))) ''health-probe-bind-address'' '':8081'' st) (\<lambda>st.
     bindO (BoolVar (\<lambda>b. apfst (flLeaderElect_update (\<lambda>_. b))) ''leader-elect'' False st) (\<lambda>st.
     bindO (BoolVar (\<lambda>b. apfst (flSecureMetrics_update (\<lambda>_. b))) ''metrics-secure'' True st) (\<lambda>st.
     bindO (BoolVar (\<lambda>b. apfst (flEnableHTTP2_update (\<lambda>_. b))) ''enable-http2'' False st) (\<lambda>st.
     BindFlags (rt_zap_Flags R) st)))))"

definition parse_flags ::
  "('w, 's, 'm, 'c) runtime \<Rightarrow> string list \<Rightarrow> 'w \<Rightarrow> (Flags \<times> 'w) parsed outcome" where
  "parse_flags R args c = bindO (declare_flags R c) (\<lambda>(fs, v). Ok (Parse fs args v))"

definition disableHTTP2 :: TLSOpt where
  "disableHTTP2 c = c\<lparr>tlsNextProtos := [''http/1.1'']\<rparr>"

definition main_tlsOpts :: "Flags \<Rightarrow> TLSOpt list" where
  "main_tlsOpts fl = (if \<not> flEnableHTTP2 fl then [disableHTTP2] else [])"

definition metricsServerOptions :: "Flags \<Rightarrow> MetricsOptions" where
  "metricsServerOptions fl =
     (let base = \<lparr>moBindAddress = flMetricsAddr fl, moSecureServing = flSecureMetrics fl,
            moTLSOpts = main_tlsOpts fl, moFilterProvider = None\<rparr>
      in if flSecureMetrics fl then base\<lparr>moFilterProvider := Some WithAuthenticationAndAuthorization\<rparr> else base)"

definition main_options :: "Flags \<Rightarrow> 's Options" where
  "main_options fl = \<lparr>optScheme = None, optMetrics = metricsServerOptions fl,
     optWebhookServer = \<lparr>whTLSOpts = main_tlsOpts fl\<rparr>, optHealthProbeBindAddress = flProbeAddr fl,
     optLeaderElection = flLeaderElect fl, optLeaderElectionID = ''ecaf1259.dm.cr.kanister.io''\<rparr>"

datatype Exit = Returned_main | Exited int | Panicked string

text \<open>A call whose error ends the process with status 1.\<close>

definition or_exit :: "('w, 'a) kio \<Rightarrow> ('a \<Rightarrow> 'w world \<Rightarrow> Exit \<times> 'w world) \<Rightarrow> 'w world \<Rightarrow> Exit \<times> 'w world" where
  "or_exit call rest w = (case call w of
      (Ok x, w') \<Rightarrow> rest x w'
    | (Err e, w') \<Rightarrow> (Exited 1, w')
    | (Panic p, w') \<Rightarrow> (Panicked p, w'))"

definition run_manager :: "('w, 's, 'm, 'c) runtime \<Rightarrow> Flags \<Rightarrow> 'w world \<Rightarrow> Exit \<times> 'w world" where
  "run_manager R fl w =
     (case rt_GetConfigOrDie R (cluster w) of
        (None, c) \<Rightarrow> (Exited 1, w\<lparr>cluster := c\<rparr>)
      | (Some restConfig, c) \<Rightarrow>
          or_exit (MakeControllerManager R (Some restConfig) (main_options fl)) (\<lambda>mgr.
          or_exit (readK (rt_AddHealthzCheck R mgr ''healthz'')) (\<lambda>_.
          or_exit (readK (rt_AddReadyzCheck R mgr ''readyz'')) (\<lambda>_ w1.
          or_exit (readK (rt_Start R mgr)) (\<lambda>_ w'. (Returned_main, w'))
            (w1\<lparr>cluster := rt_SetupSignalHandler R (cluster w1)\<rparr>)))) (w\<lparr>cluster := c\<rparr>))"

text \<open>
  The program on its arguments: a command line that asks for help ends it with status 0, one that
  cannot be read with status 2.
\<close>

definition main :: "('w, 's, 'm, 'c) runtime \<Rightarrow> string list \<Rightarrow> 'w world \<Rightarrow> Exit \<times> 'w world" where
  "main R args =
     (\<lambda>w. or_exit (liftK (parse_flags R args (cluster w))) (\<lambda>r w.
        case r of
          ParseFailed e \<Rightarrow> (Exited (if e = ErrHelp then 0 else 2), w)
        | Parsed _ (fl, c) \<Rightarrow> run_manager R fl (w\<lparr>cluster := rt_SetLogger R c\<rparr>)) w)"

section \<open>The embedded resource definition\<close>

text \<open>The embedded files, by path; one file is embedded.\<close>

definition embedded :: "string \<Rightarrow> string \<Rightarrow> string option" where
  "embedded crd path = (if path = ''datamoversession.yaml'' then Some crd else None)"

definition ReadCRD :: "(string \<Rightarrow> string option) \<Rightarrow> string \<Rightarrow> error + string" where
  "ReadCRD fs name =
     (let path = name @ ''.yaml'' in
      case fs path of
        None \<Rightarrow> Inl (NewError (''open '' @ path @ '': file does not exist''))
      | Some data \<Rightarrow> Inr data)"

section \<open>What the program starts\<close>

lemma or_exit_cases:
  assumes "or_exit call rest w = (x, w')" and "safe call"
  obtains "x = Exited 1" | v w1 where "call w = (Ok v, w1)" "rest v w1 = (x, w')"
  using assms by (auto simp: or_exit_def safe_def split: prod.splits outcome.splits)

lemma readK_Ok:
  assumes "readK f w = (Ok v, w')"
  shows "f (cluster w) = (Inr v, cluster w')"
  using assms by (auto simp: readK_def split: prod.splits)

lemma safe_MakeControllerManager: "safe (MakeControllerManager R (Some cfg) opts)"
  unfolding MakeControllerManager_def SetupWithManager_def deref_config_def
  by (intro run_intro) auto

lemma MakeControllerManager_Ok:
  assumes "MakeControllerManager R (Some cfg) opts w = (Ok mgr, w')" and "optScheme opts = None"
  obtains scheme c where "makeScheme R = Inr scheme"
    "rt_NewManager R (Some cfg) (opts\<lparr>optScheme := Some scheme\<rparr>) (cluster w) = (Inr mgr, c)"
    "rt_Complete R mgr session_controller \<lparr>rcScheme = rt_GetScheme R mgr, rcRestConfig = cfg, rcMgr = Some mgr\<rparr> c
       = (Inr (), cluster w')"
  using assms
  by (auto simp: MakeControllerManager_def SetupWithManager_def deref_config_def kio_defs of_sum_def
      split: prod.splits outcome.splits sum.splits)

text \<open>A manager that is made was given a configuration: the nil pointer is never followed.\<close>

lemma MakeControllerManager_no_panic:
  assumes "manager_law R"
  shows "safe (MakeControllerManager R restConfig opts)"
proof (cases restConfig)
  case None
  have "fst (rt_NewManager R None o1 c) \<noteq> Inr m" for o1 c m
    using assms unfolding manager_law_def by (metis Inl_Inr_False)
  then have "returns (readK (rt_NewManager R None o1)) (\<lambda>_. False)" for o1
    by (intro returns_basic) (metis fst_conv)
  then show ?thesis unfolding MakeControllerManager_def None
    by (intro run_intro safe_bind [where A = "\<lambda>_. False"]) auto
qed (simp add: safe_MakeControllerManager)

text \<open>What a server with these options negotiates, whatever configuration it starts from.\<close>

definition negotiated :: "TLSOpt list \<Rightarrow> TLSConfig \<Rightarrow> string list" where
  "negotiated opts tls = tlsNextProtos (fold (\<lambda>f. f) opts tls)"

lemma run_manager_serves:
  assumes "run_manager R fl w = (x, w')"
  shows "x = Exited 1 \<or> (x = Returned_main \<and>
    (\<exists>cfg scheme opts mgr c0 c1 c2 c3 c4. rt_GetConfigOrDie R (cluster w) = (Some cfg, c0) \<and>
      makeScheme R = Inr scheme \<and> opts = (main_options fl)\<lparr>optScheme := Some scheme\<rparr> \<and>
      rt_NewManager R (Some cfg) opts c0 = (Inr mgr, c1) \<and>
      rt_Complete R mgr session_controller
        \<lparr>rcScheme = rt_GetScheme R mgr, rcRestConfig = cfg, rcMgr = Some mgr\<rparr> c1 = (Inr (), c2) \<and>
      rt_AddHealthzCheck R mgr ''healthz'' c2 = (Inr (), c3) \<and>
      rt_AddReadyzCheck R mgr ''readyz'' c3 = (Inr (), c4) \<and>
      rt_Start R mgr (rt_SetupSignalHandler R c4) = (Inr (), cluster w') \<and>
      (\<not> flEnableHTTP2 fl \<longrightarrow> (\<forall>tls. negotiated (moTLSOpts (optMetrics opts)) tls = [''http/1.1''] \<and>
         negotiated (whTLSOpts (optWebhookServer opts)) tls = [''http/1.1''])) \<and>
      (moFilterProvider (optMetrics opts) = None \<longleftrightarrow> \<not> moSecureServing (optMetrics opts))))"
proof (cases "rt_GetConfigOrDie R (cluster w)")
  case (Pair r c0)
  show ?thesis
  proof (cases r)
    case None
    then show ?thesis using assms Pair by (simp add: run_manager_def)
  next
    case (Some cfg)
    note safe_read = safe_basic(3)
    have run: "or_exit (MakeControllerManager R (Some cfg) (main_options fl)) (\<lambda>mgr.
        or_exit (readK (rt_AddHealthzCheck R mgr ''healthz'')) (\<lambda>_.
        or_exit (readK (rt_AddReadyzCheck R mgr ''readyz'')) (\<lambda>_ w1.
        or_exit (readK (rt_Start R mgr)) (\<lambda>_ w'. (Returned_main, w'))
          (w1\<lparr>cluster := rt_SetupSignalHandler R (cluster w1)\<rparr>)))) (w\<lparr>cluster := c0\<rparr>) = (x, w')"
      using assms Pair Some by (simp add: run_manager_def)
    show ?thesis
    proof (rule or_exit_cases [OF run safe_MakeControllerManager])
      fix mgr w1
      assume made: "MakeControllerManager R (Some cfg) (main_options fl) (w\<lparr>cluster := c0\<rparr>) = (Ok mgr, w1)"
        and rest: "or_exit (readK (rt_AddHealthzCheck R mgr ''healthz'')) (\<lambda>_.
          or_exit (readK (rt_AddReadyzCheck R mgr ''readyz'')) (\<lambda>_ w1.
          or_exit (readK (rt_Start R mgr)) (\<lambda>_ w'. (Returned_main, w'))
            (w1\<lparr>cluster := rt_SetupSignalHandler R (cluster w1)\<rparr>))) w1 = (x, w')"
      obtain scheme c1 where m: "makeScheme R = Inr scheme"
        "rt_NewManager R (Some cfg) ((main_options fl)\<lparr>optScheme := Some scheme\<rparr>) c0 = (Inr mgr, c1)"
        "rt_Complete R mgr session_controller \<lparr>rcScheme = rt_GetScheme R mgr, rcRestConfig = cfg, rcMgr = Some mgr\<rparr> c1
           = (Inr (), cluster w1)"
        by (rule MakeControllerManager_Ok [OF made]) (simp_all add: main_options_def)
      from rest show ?thesis
        using Pair Some m
        by (elim or_exit_cases [OF _ safe_read])
          (auto dest!: readK_Ok simp: main_options_def metricsServerOptions_def main_tlsOpts_def negotiated_def
            disableHTTP2_def Let_def)
    qed simp
  qed
qed

lemma ReadCRD_embedded: "ReadCRD (embedded crd) name = Inr d \<longleftrightarrow> name = ''datamoversession'' \<and> d = crd"
proof -
  have "name @ ''.yaml'' = ''datamoversession.yaml'' \<longleftrightarrow> name @ ''.yaml'' = ''datamoversession'' @ ''.yaml''" by simp
  then have "name @ ''.yaml'' = ''datamoversession.yaml'' \<longleftrightarrow> name = ''datamoversession''"
    by (simp only: append_same_eq)
  then show ?thesis by (auto simp: ReadCRD_def embedded_def Let_def split: option.splits)
qed

section \<open>What the command line sets\<close>

datatype setting =
  MetricsAddr string | ProbeAddr string | LeaderElect bool | SecureMetrics bool | EnableHTTP2 bool

fun setting_name :: "setting \<Rightarrow> string" where
  "setting_name (MetricsAddr s) = ''metrics-bind-address''"
| "setting_name (ProbeAddr s) = ''health-probe-bind-address''"
| "setting_name (LeaderElect b) = ''leader-elect''"
| "setting_name (SecureMetrics b) = ''metrics-secure''"
| "setting_name (EnableHTTP2 b) = ''enable-http2''"

fun apply_setting :: "setting \<Rightarrow> Flags \<Rightarrow> Flags" where
  "apply_setting (MetricsAddr s) fl = fl\<lparr>flMetricsAddr := s\<rparr>"
| "apply_setting (ProbeAddr s) fl = fl\<lparr>flProbeAddr := s\<rparr>"
| "apply_setting (LeaderElect b) fl = fl\<lparr>flLeaderElect := b\<rparr>"
| "apply_setting (SecureMetrics b) fl = fl\<lparr>flSecureMetrics := b\<rparr>"
| "apply_setting (EnableHTTP2 b) fl = fl\<lparr>flEnableHTTP2 := b\<rparr>"

text \<open>
  The ways to write a setting: an address with its value joined or as the next argument; a switch
  with any of Go's texts for its value joined, or alone to turn it on.
\<close>

inductive written :: "setting \<Rightarrow> string list \<Rightarrow> bool" where
  address_joined: "st = MetricsAddr x \<or> st = ProbeAddr x \<Longrightarrow> dashes d \<Longrightarrow> written st [d @ setting_name st @ ''='' @ x]"
| address_separate: "st = MetricsAddr x \<or> st = ProbeAddr x \<Longrightarrow> dashes d \<Longrightarrow> written st [d @ setting_name st, x]"
| switch_joined: "st \<in> {LeaderElect b, SecureMetrics b, EnableHTTP2 b} \<Longrightarrow> ParseBool x = Some b \<Longrightarrow> dashes d \<Longrightarrow>
    written st [d @ setting_name st @ ''='' @ x]"
| switch_alone: "st \<in> {LeaderElect True, SecureMetrics True, EnableHTTP2 True} \<Longrightarrow> dashes d \<Longrightarrow>
    written st [d @ setting_name st]"

text \<open>Every flag with its value, the way a deployment spells them out.\<close>

definition print_flags :: "Flags \<Rightarrow> string list" where
  "print_flags fl =
     [''--metrics-bind-address='' @ flMetricsAddr fl, ''--health-probe-bind-address='' @ flProbeAddr fl,
      ''--leader-elect='' @ (if flLeaderElect fl then ''true'' else ''false''),
      ''--metrics-secure='' @ (if flSecureMetrics fl then ''true'' else ''false''),
      ''--enable-http2='' @ (if flEnableHTTP2 fl then ''true'' else ''false'')]"

definition main_flag_names :: "string list" where
  "main_flag_names = [''metrics-bind-address'', ''health-probe-bind-address'', ''leader-elect'',
     ''metrics-secure'', ''enable-http2'']"

text \<open>The flags of the other packages have names of their own that can be written.\<close>

definition flags_law :: "('w, 's, 'm, 'c) runtime \<Rightarrow> bool" where
  "flags_law R \<longleftrightarrow> (let names = main_flag_names @ map fst (rt_zap_Flags R) in
     distinct names \<and> (\<forall>n\<in>set names. flag_name n \<and> rt_Flags R n = None))"

lemma flag_Var_Ok: "flag_name n \<Longrightarrow> fs n = None \<Longrightarrow> flag_Var n f fs = Ok (fs(n \<mapsto> f))"
  by (cases n) (auto simp: flag_Var_def flag_name_def)

lemma BindFlags_Ok:
  assumes "distinct (map fst zs)" and "\<forall>n\<in>set (map fst zs). flag_name n \<and> fs n = None"
  shows "\<exists>fs'. BindFlags zs (fs, v) = Ok (fs', v) \<and> (\<forall>n. n \<notin> set (map fst zs) \<longrightarrow> fs' n = fs n)"
  using assms
proof (induction zs arbitrary: fs)
  case (Cons z zs)
  obtain n f where z: "z = (n, f)" by force
  have "\<exists>fs'. BindFlags zs (fs(n \<mapsto> outer_flag f), v) = Ok (fs', v) \<and>
      (\<forall>m. m \<notin> set (map fst zs) \<longrightarrow> fs' m = (fs(n \<mapsto> outer_flag f)) m)"
    using Cons.prems z by (intro Cons.IH) auto
  then show ?case using Cons.prems z by (auto simp: flag_Var_Ok)
qed auto

text \<open>The flag that a setting is read by.\<close>

fun main_flag :: "setting \<Rightarrow> (Flags \<times> 'w) Flag" where
  "main_flag (MetricsAddr s) = string_flag (\<lambda>s. apfst (flMetricsAddr_update (\<lambda>_. s)))"
| "main_flag (ProbeAddr s) = string_flag (\<lambda>s. apfst (flProbeAddr_update (\<lambda>_. s)))"
| "main_flag (LeaderElect b) = bool_flag (\<lambda>b. apfst (flLeaderElect_update (\<lambda>_. b)))"
| "main_flag (SecureMetrics b) = bool_flag (\<lambda>b. apfst (flSecureMetrics_update (\<lambda>_. b)))"
| "main_flag (EnableHTTP2 b) = bool_flag (\<lambda>b. apfst (flEnableHTTP2_update (\<lambda>_. b)))"

lemma declare_flags_Ok:
  assumes "flags_law R"
  obtains fs where "declare_flags R c = Ok (fs, (default_flags, c))" and "\<And>st. fs (setting_name st) = Some (main_flag st)"
proof -
  let ?fs = "(\<lambda>n. map_option outer_flag (rt_Flags R n))
    (''metrics-bind-address'' \<mapsto> main_flag (MetricsAddr []), ''health-probe-bind-address'' \<mapsto> main_flag (ProbeAddr []),
     ''leader-elect'' \<mapsto> main_flag (LeaderElect True), ''metrics-secure'' \<mapsto> main_flag (SecureMetrics True),
     ''enable-http2'' \<mapsto> main_flag (EnableHTTP2 True))"
  have free: "rt_Flags R n = None" if "n \<in> set main_flag_names" for n
    using assms that by (auto simp: flags_law_def Let_def)
  define zs where "zs = set (map fst (rt_zap_Flags R))"
  have law: "distinct (map fst (rt_zap_Flags R))" "set main_flag_names \<inter> zs = {}" "\<forall>n\<in>zs. flag_name n \<and> rt_Flags R n = None"
    using assms by (simp_all add: flags_law_def Let_def zs_def)
  have "?fs n = None" if "n \<in> zs" for n using law(2,3) that by (auto simp: main_flag_names_def)
  moreover have "setting_name st \<in> set main_flag_names" for st by (cases st) (simp_all add: main_flag_names_def)
  ultimately have zap: "\<forall>n\<in>set (map fst (rt_zap_Flags R)). flag_name n \<and> ?fs n = None"
    "\<forall>st. setting_name st \<notin> set (map fst (rt_zap_Flags R))"
    using law(2,3) unfolding zs_def by blast+
  have "declare_flags R c = BindFlags (rt_zap_Flags R) (?fs, (default_flags, c))"
    using free [unfolded main_flag_names_def]
    by (simp add: declare_flags_def StringVar_def BoolVar_def flag_Var_def zero_flags_def default_flags_def)
  moreover obtain fs' where "BindFlags (rt_zap_Flags R) (?fs, (default_flags, c)) = Ok (fs', (default_flags, c))"
    and old: "\<forall>n. n \<notin> set (map fst (rt_zap_Flags R)) \<longrightarrow> fs' n = ?fs n"
    using BindFlags_Ok [OF law(1) zap(1)] by blast
  moreover have "fs' (setting_name st) = Some (main_flag st)" for st
  proof -
    have "fs' (setting_name st) = ?fs (setting_name st)" using old zap(2) by blast
    then show ?thesis by (cases st) simp_all
  qed
  ultimately show thesis using that by simp
qed

lemma fgSet_main_flag:
  "st = MetricsAddr x \<or> st = ProbeAddr x \<Longrightarrow>
     \<not> fgBool (main_flag st) \<and> fgSet (main_flag st) x (fl, c) = Some (apply_setting st fl, c)"
  "st \<in> {LeaderElect b, SecureMetrics b, EnableHTTP2 b} \<Longrightarrow> ParseBool x = Some b \<Longrightarrow>
     fgBool (main_flag st) \<and> fgSet (main_flag st) x (fl, c) = Some (apply_setting st fl, c)"
  by (auto simp: string_flag_def bool_flag_def)

lemma ParseBool_true: "ParseBool ''true'' = Some True"
  by (simp add: ParseBool_def)

lemma setting_spelling:
  assumes "written st args"
  shows "\<exists>x. spelling (main_flag st :: (Flags \<times> 'w) Flag) (setting_name st) x args \<and>
    (\<forall>fl (c :: 'w). fgSet (main_flag st) x (fl, c) = Some (apply_setting st fl, c))"
  using assms
proof cases
  case (address_joined x d)
  then show ?thesis using fgSet_main_flag(1) spelling.joined by metis
next
  case (address_separate x d)
  then show ?thesis using fgSet_main_flag(1) spelling.separate by metis
next
  case (switch_joined b x d)
  then show ?thesis using fgSet_main_flag(2) spelling.joined by metis
next
  case (switch_alone d)
  then show ?thesis using fgSet_main_flag(2) [OF _ ParseBool_true] spelling.alone by metis
qed

lemma flag_name_setting: "flag_name (setting_name st)"
  by (cases st) (simp_all add: flag_name_def)

lemma command_line_settings:
  assumes "list_all2 written sts argss" and "\<And>st. fs (setting_name st) = Some (main_flag st)" and "flags_end tail rest"
  shows "command_line fs (concat argss @ tail) (fl, c :: 'w) rest (fold apply_setting sts fl, c)"
  using assms(1)
proof (induction arbitrary: fl rule: list_all2_induct)
  case Nil
  then show ?case using assms(3) by (simp add: command_line.ends)
next
  case (Cons st sts args argss)
  obtain x where x: "spelling (main_flag st :: (Flags \<times> 'w) Flag) (setting_name st) x args"
    "fgSet (main_flag st) x (fl, c) = Some (apply_setting st fl, c)"
    using setting_spelling [OF Cons.hyps(1)] by blast
  show ?case
    using command_line.flag [of "setting_name st" fs "main_flag st" x args "(fl, c)" "(apply_setting st fl, c)",
      OF flag_name_setting assms(2) x Cons.IH]
    by simp
qed

lemma parse_flags_settings:
  assumes "flags_law R" and "list_all2 written sts argss" and "flags_end tail rest"
  shows "parse_flags R (concat argss @ tail) c = Ok (Parsed rest (fold apply_setting sts default_flags, c))"
proof -
  obtain fs where fs: "declare_flags R c = Ok (fs, (default_flags, c))" "\<And>st. fs (setting_name st) = Some (main_flag st)"
    using declare_flags_Ok [OF assms(1)] by blast
  have "Parse fs (concat argss @ tail) (default_flags, c) = Parsed rest (fold apply_setting sts default_flags, c)"
    unfolding Parse_iff by (rule command_line_settings [OF assms(2) fs(2) assms(3)])
  then show ?thesis using fs(1) by (simp add: parse_flags_def)
qed

text \<open>All the settings of a record of flags, in the order they are printed.\<close>

definition settings_of :: "Flags \<Rightarrow> setting list" where
  "settings_of fl = [MetricsAddr (flMetricsAddr fl), ProbeAddr (flProbeAddr fl), LeaderElect (flLeaderElect fl),
     SecureMetrics (flSecureMetrics fl), EnableHTTP2 (flEnableHTTP2 fl)]"

lemma fold_settings_of: "fold apply_setting (settings_of fl) fl' = fl"
  by (simp add: settings_of_def)

lemma written_settings_of: "list_all2 written (settings_of fl) (map (\<lambda>a. [a]) (print_flags fl))"
proof -
  have dd: "dashes ''--''" by (simp add: dashes_def)
  have bool: "ParseBool (if b then ''true'' else ''false'') = Some b" for b by (simp add: ParseBool_def)
  have "written st [''--'' @ setting_name st @ ''='' @ x]" if "st = MetricsAddr x \<or> st = ProbeAddr x" for st x
    using that dd by (rule written.address_joined)
  moreover have "written st [''--'' @ setting_name st @ ''='' @ (if b then ''true'' else ''false'')]"
    if "st \<in> {LeaderElect b, SecureMetrics b, EnableHTTP2 b}" for st b
    using that bool dd by (rule written.switch_joined)
  ultimately show ?thesis
    by (fastforce simp: settings_of_def print_flags_def)
qed

text \<open>
  C39: The command line sets the flags.  Whatever settings are given, each in any of the spellings
  Go allows, the flags that \<open>main\<close> works with are their defaults with the settings applied in
  order, so that the last one wins; reading ends at the first operand or at the terminator, and
  the flags of the other packages are untouched.  The flags of any configuration, printed, are
  read back as they were.
\<close>

theorem parse_flags_roundtrip:
  assumes "flags_law R" and "list_all2 written sts argss" and "flags_end tail rest"
  shows "parse_flags R (concat argss @ tail) c = Ok (Parsed rest (fold apply_setting sts default_flags, c)) \<and>
    (\<forall>fl. parse_flags R (print_flags fl) c = Ok (Parsed [] (fl, c)))"
proof (intro conjI allI)
  fix fl
  have "concat (map (\<lambda>a. [a]) (print_flags fl)) @ [] = print_flags fl" by (simp add: print_flags_def)
  then show "parse_flags R (print_flags fl) c = Ok (Parsed [] (fl, c))"
    using parse_flags_settings [OF assms(1) written_settings_of flags_end.no_more] by (metis fold_settings_of)
qed (rule parse_flags_settings [OF assms])

text \<open>A concrete runtime: schemes are lists of kinds, and the process counts its calls.\<close>

definition counting_runtime :: "(nat, string list, string, string) runtime" where
  "counting_runtime = \<lparr>rt_Flags = [''kubeconfig'' \<mapsto> string_flag (\<lambda>s c. c)],
     rt_zap_Flags = [(''zap-devel'', bool_flag (\<lambda>b c. c)), (''zap-log-level'', string_flag (\<lambda>s c. c))],
     rt_SetLogger = Suc, rt_NewScheme = [], rt_clientgo_AddToScheme = (\<lambda>s. Inr (''Pod'' # s)),
     rt_Builder_AddToScheme = (\<lambda>b s. Inr (sbObjects b @ s)),
     rt_GetConfigOrDie = (\<lambda>n. (Some ''config'', Suc n)),
     rt_NewManager = (\<lambda>c opts n. (case c of None \<Rightarrow> Inl (NewError ''must specify Config'') | Some x \<Rightarrow> Inr x, Suc n)),
     rt_GetScheme = (\<lambda>m. []), rt_Complete = (\<lambda>m b r n. (Inr (), Suc n)),
     rt_AddHealthzCheck = (\<lambda>m k n. (Inr (), Suc n)), rt_AddReadyzCheck = (\<lambda>m k n. (Inr (), Suc n)),
     rt_SetupSignalHandler = Suc, rt_Start = (\<lambda>m n. (Inr (), Suc n))\<rparr>"

lemma counting_manager_law: "manager_law counting_runtime"
  by (simp add: manager_law_def counting_runtime_def)

lemma counting_flags_law: "flags_law counting_runtime"
  by (simp add: flags_law_def counting_runtime_def main_flag_names_def flag_name_def)

text \<open>A switch does not take its value from the next argument, which ends the flags instead.\<close>

lemma switch_then_value:
  "list_all2 written [ProbeAddr '':1'', SecureMetrics True] [[''-health-probe-bind-address'', '':1''], [''--metrics-secure'']]"
  "flags_end [''false'', ''--leader-elect''] [''false'', ''--leader-elect'']"
proof -
  have "written (ProbeAddr '':1'') [''-'' @ setting_name (ProbeAddr '':1''), '':1'']"
    "written (SecureMetrics True) [''--'' @ setting_name (SecureMetrics True)]"
    by (rule written.address_separate written.switch_alone; simp add: dashes_def)+
  then show "list_all2 written [ProbeAddr '':1'', SecureMetrics True]
      [[''-health-probe-bind-address'', '':1''], [''--metrics-secure'']]"
    by simp
qed (simp add: flags_end.operand)

theorem parse_flags_roundtrip_witness:
  "parse_flags counting_runtime
     [''-health-probe-bind-address'', '':1'', ''--metrics-secure'', ''false'', ''--leader-elect''] 0
     = Ok (Parsed [''false'', ''--leader-elect''] (default_flags\<lparr>flProbeAddr := '':1''\<rparr>, 0)) \<and>
   parse_flags counting_runtime (print_flags default_flags) 0 = Ok (Parsed [] (default_flags, 0))"
  using parse_flags_roundtrip [OF counting_flags_law switch_then_value, of 0]
  by (simp add: default_flags_def)

text \<open>
  C38: The program ends with a status or serves.  A command line that cannot be read ends it with
  status 2, one that asks for help with status 0.  Otherwise it ends with status 1, or it returns
  and has, in this order, read a configuration, made a manager with the options of its flags and
  the scheme of both API groups, set up the controller of sessions with their pods and services,
  added both health checks, installed the signal handler and run the manager to its end.  Unless
  the flag enables it, neither server of the manager negotiates HTTP/2, and secure metrics are
  served behind authentication.  It never panics.
\<close>

theorem main_serves:
  assumes "flags_law R" and "main R args w = (x, w')"
  shows "(\<exists>e. parse_flags R args (cluster w) = Ok (ParseFailed e) \<and> x = Exited (if e = ErrHelp then 0 else 2)) \<or>
    (\<exists>rest fl c. parse_flags R args (cluster w) = Ok (Parsed rest (fl, c)) \<and> (x = Exited 1 \<or> (x = Returned_main \<and>
      (\<exists>cfg scheme opts mgr c0 c1 c2 c3 c4. rt_GetConfigOrDie R (rt_SetLogger R c) = (Some cfg, c0) \<and>
        makeScheme R = Inr scheme \<and> opts = (main_options fl)\<lparr>optScheme := Some scheme\<rparr> \<and>
        rt_NewManager R (Some cfg) opts c0 = (Inr mgr, c1) \<and>
        rt_Complete R mgr session_controller
          \<lparr>rcScheme = rt_GetScheme R mgr, rcRestConfig = cfg, rcMgr = Some mgr\<rparr> c1 = (Inr (), c2) \<and>
        rt_AddHealthzCheck R mgr ''healthz'' c2 = (Inr (), c3) \<and>
        rt_AddReadyzCheck R mgr ''readyz'' c3 = (Inr (), c4) \<and>
        rt_Start R mgr (rt_SetupSignalHandler R c4) = (Inr (), cluster w') \<and>
        (\<not> flEnableHTTP2 fl \<longrightarrow> (\<forall>tls. negotiated (moTLSOpts (optMetrics opts)) tls = [''http/1.1''] \<and>
           negotiated (whTLSOpts (optWebhookServer opts)) tls = [''http/1.1''])) \<and>
        (moFilterProvider (optMetrics opts) = None \<longleftrightarrow> \<not> moSecureServing (optMetrics opts))))))"
proof -
  obtain fs where "declare_flags R (cluster w) = Ok (fs, (default_flags, cluster w))"
    using declare_flags_Ok [OF assms(1)] by blast
  then obtain r where r: "parse_flags R args (cluster w) = Ok r" by (simp add: parse_flags_def)
  show ?thesis
  proof (cases r)
    case (Parsed rest v)
    obtain fl c where v: "v = (fl, c)" by force
    have "run_manager R fl (w\<lparr>cluster := rt_SetLogger R c\<rparr>) = (x, w')"
      using assms(2) r Parsed v by (simp add: main_def or_exit_def liftK_def)
    from run_manager_serves [OF this] show ?thesis using r Parsed v by auto
  next
    case (ParseFailed e)
    then show ?thesis using assms(2) r by (simp add: main_def or_exit_def liftK_def)
  qed
qed

theorem main_serves_witness:
  "\<exists>w'. main counting_runtime (print_flags default_flags) \<lparr>cluster = 0, requests = []\<rparr> = (Returned_main, w') \<and> cluster w' = 8 \<and>
     (\<exists>opts mgr c0 c1. rt_NewManager counting_runtime (Some ''config'') opts c0 = (Inr mgr, c1) \<and>
        (\<forall>tls. negotiated (moTLSOpts (optMetrics opts)) tls = [''http/1.1'']))"
proof -
  let ?args = "concat (map (\<lambda>a. [a]) (print_flags default_flags)) @ []"
  obtain x w' where run: "main counting_runtime ?args \<lparr>cluster = 0, requests = []\<rparr> = (x, w')" by force
  have read: "parse_flags counting_runtime ?args 0 = Ok (Parsed [] (default_flags, 0))"
    using parse_flags_settings [OF counting_flags_law written_settings_of flags_end.no_more] by (simp only: fold_settings_of)
  have "x = Returned_main" "cluster w' = 8"
    using run read by (auto simp: main_def run_manager_def liftK_def or_exit_def MakeControllerManager_def SetupWithManager_def
        makeScheme_def api_AddToScheme_def deref_config_def kio_defs counting_runtime_def main_options_def)
  then show ?thesis using main_serves [OF counting_flags_law run] run read
    by (auto simp: counting_runtime_def default_flags_def)
qed

end
