(* ===== verification/Spec2Isabelle.thy ===== *)
theory Spec2Isabelle
  imports Progression Duplicates Clients DeepCopies Managers
begin

text \<open>
  Verification of the datamover session operator and its client library (Go module
  \<open>github.com/kanisterio/datamover\<close>).

  \<^bold>\<open>The program.\<close>  A \<open>DatamoverSession\<close> asks for a data mover to run in the cluster.  The operator
  reconciles sessions: it validates them, creates a pod, a service and a network policy, waits
  until the pod is ready and its side-car has published the session data in its log, records
  progress and data in the status, and cleans up after failures.  Clients wait for a session to
  become ready, read how to reach it, and run pods with one of five operations against it.

  \<^bold>\<open>Theories and sources.\<close>
  \<^item> \<open>Prelude\<close>, \<open>GoStrings\<close>: outcomes of Go calls (value, error, panic), maps with unspecified
    iteration order, and the functions of the Go standard library the code uses.
  \<^item> \<open>Api\<close>: \<open>api/v1alpha1\<close> (constants, group and version, the session resource) and the fields of
    Kubernetes objects the code reads or writes; fields it only passes on are \<open>opaque\<close>.
  \<^item> \<open>Kube\<close>: third-party functions (record \<open>lib\<close>) and the Kubernetes API (record \<open>kube\<close>) as
    parameters, runs of effectful calls, and the rules for reasoning about them.
  \<^item> \<open>Validate\<close>: \<open>pkg/session/validate.go\<close>.  \<open>PodOverrides\<close>: \<open>pkg/podoverride\<close>.
  \<^item> \<open>Readiness\<close>: \<open>internal/controller/readiness.go\<close>.  \<open>Pods\<close>: \<open>pod.go\<close>.  \<open>Services\<close>: \<open>service.go\<close> and
    \<open>network_policy.go\<close>.  \<open>Volumes\<close>: the contract of every builder of volumes and mounts.
    \<open>Ownership\<close>: \<open>isOwnedBy\<close>.
  \<^item> \<open>StateMachine\<close>: \<open>state_machine.go\<close> and \<open>Reconcile\<close> of \<open>datamoversession_controller.go\<close>; reading
    the resources, classification into one of the fifteen states, the action of every state.
  \<^item> \<open>Lifecycle\<close>, \<open>Requests\<close>, \<open>Store\<close>, \<open>Outcomes\<close>: what a reconciliation reads and requests, the
    stored status over time, and how a reconciliation ends.
  \<^item> \<open>Sessions\<close>: \<open>pkg/session/session.go\<close>.  \<open>Operations\<close>: \<open>pkg/client/operation.go\<close>.  \<open>Clients\<close>:
    \<open>pkg/client/client.go\<close>.
  \<^item> \<open>Memory\<close>, \<open>DeepCopies\<close>: objects in an explicit memory; \<open>zz_generated.deepcopy.go\<close> and
    \<open>deepcopy.go\<close>; the writes of \<open>MakePodSpec\<close> through shared maps.
  \<^item> \<open>CommandLine\<close>: flags and their parser as Go's package \<open>flag\<close> has them, with the language they
    accept.  \<open>Managers\<close>: the scheme, \<open>pkg/controller\<close>, \<open>SetupWithManager\<close>, \<open>cmd/main.go\<close> from its
    arguments to its exit, \<open>pkg/crds\<close>.
  \<^item> \<open>Delivery\<close> and this theory: the path of session data from the side-car to the client.
    \<open>Progression\<close>: the way of a new session to \<open>Ready\<close> on a live cluster.  \<open>Duplicates\<close>: how a session
    gets a second pod, and what follows.
  \<^item> \<open>Reference\<close>: concrete instances of the parameters (third-party functions and an in-memory API
    server), on which every theorem with hypotheses is exercised.

  \<^bold>\<open>State and effects.\<close>  The cluster is a parameter of the state: every API call is a function of
  it that may fail and may change it in any way, so theorems hold for every interleaving of the
  calls of one reconciliation with the actions of others.  A \<open>world\<close> is the cluster with the
  log of mutating requests.  Go pointers are options, \<open>int32\<close> is a 32-bit word, a nil dereference
  or an index out of range is a panic.

  \<^bold>\<open>Hypotheses on parameters.\<close>  They state documented behaviour: \<open>owner_law\<close> and \<open>reference_law\<close>
  (setting and reading controller references), \<open>status_law\<close> (error predicates), \<open>range_order\<close> (a
  map is visited in some order), \<open>nil_override_law\<close> (an empty merge patch), \<open>admits\<close> (a server that
  accepts new objects), \<open>session_store\<close> (optimistic concurrency on resource versions; a UID is never
  used again), \<open>healthy\<close>
  (statuses carry their flags, logs are well framed), \<open>timer_law\<close> and \<open>counted\<close> (the clock moves, reads
  are counted), \<open>foreign_law\<close> (third-party deep copies), \<open>manager_law\<close> (no manager without a
  configuration), \<open>flags_law\<close> (the flags of other packages have names of their own), \<open>store_reader\<close>
  (clients read stored sessions), \<open>live_cluster\<close> (reads are served from what is stored, requests are
  taken).  Each has an instance.

  \<^bold>\<open>What is shown.\<close>  The requests of a reconciliation are the ones of its state, in order, on the
  session's own objects; the stored status follows the lifecycle graph whatever others do, a
  terminal status is final for the object with its UID, which changes its status at most three
  times, and \<open>Ready\<close> is recorded only for a ready session with its published data; reconciliations do not panic on healthy clusters, make progress where the resources call
  for it and rest otherwise; sessions do not share objects.  Validation and duplicate checks
  equal their specifications; the log protocol of the side-car round-trips, also for partial
  logs; the report on a failed pod holds the error lines of its log; pods without an override mount
  what they have, but for the side-car operation, which relies on a volume of the pod; service,
  policy and pod agree on selectors.  Waiting for a session ends after at most the timeout divided by the interval, rounded up, plus two reads (26
  with the defaults), and what clients get is the data that a reconciliation of the
  session read in the side-car log of its ready pod.  Copies of sessions in memory are independent but for the override map.  On a live cluster a new session is
  \<open>Ready\<close> after three reconciliations once its pod is up; with two pods it is stuck.  The program
  reads its flags as they were written and starts the manager, or exits with a status.

  \<^bold>\<open>Loops.\<close>  The polling loop of the client is a \<open>partial_function (option)\<close>: it may run for ever for
  an arbitrary clock, and it is shown to return under \<open>timer_law\<close>.  The loops over the arguments of the
  command line, over the lines of a log and over white space recurse on shorter lists, with a
  \<open>termination\<close> proof each; all others are structural recursions.  No fuel is used.

  \<^bold>\<open>Not modelled.\<close>  Log output; closing of log streams; the sharing of the spare capacity of a slice by
  \<open>append\<close> (appends are list appends); the usage text printed by the flag parser;
  \<open>test/utils\<close> (runs external commands for end-to-end tests); the shell scripts and images under \<open>implementations\<close>; the YAML
  under \<open>config\<close>.
\<close>



end
